(* ===== verification/Prelude.thy ===== *)
theory Prelude
  imports Main "HOL-Library.Word"
begin

text \<open>
  What every component shares: names for the machine integers, the effect type in which the
  C functions are written, a small calculus of total-correctness triples for it, the byte
  order conversions of the wire format and of target memory, and number formatting.
\<close>

unbundle bit_operations_syntax

section \<open>Machine integers\<close>

type_synonym u8 = "8 word"
type_synonym u16 = "16 word"
type_synonym u32 = "32 word"
type_synonym u64 = "64 word"

section \<open>Effects\<close>

text \<open>
  A C function that works on a state and returns a status is a function from the state to
  its result and the next state.  The result is \<open>Inl\<close> of the error status or \<open>Inr\<close> of
  what the function hands back through its return value and its out parameters; \<open>None\<close>
  means that the call never returns.
\<close>

type_synonym ('s, 'e, 'a) prog = "'s \<Rightarrow> (('e + 'a) \<times> 's) option"

definition ret :: "'a \<Rightarrow> ('s, 'e, 'a) prog" where
  "ret x s = Some (Inr x, s)"

definition fail :: "'e \<Rightarrow> ('s, 'e, 'a) prog" where
  "fail e s = Some (Inl e, s)"

text \<open>
  \<open>andThen m f\<close> is \<^verbatim>\<open>status = m; if (status != WL_OK) return status; f\<close>.
\<close>

definition andThen ::
  "('s, 'e, 'a) prog \<Rightarrow> ('a \<Rightarrow> ('s, 'e, 'b) prog) \<Rightarrow> ('s, 'e, 'b) prog" where
  "andThen m f s =
     (case m s of
        None \<Rightarrow> None
      | Some (r, s') \<Rightarrow> (case r of Inl e \<Rightarrow> Some (Inl e, s') | Inr x \<Rightarrow> f x s'))"

abbreviation andDo :: "('s, 'e, 'a) prog \<Rightarrow> ('s, 'e, 'b) prog \<Rightarrow> ('s, 'e, 'b) prog" where
  "andDo m n \<equiv> andThen m (\<lambda>_. n)"

text \<open>\<open>attempt m f\<close> runs \<open>m\<close> and lets \<open>f\<close> look at its status.\<close>

definition attempt ::
  "('s, 'e, 'a) prog \<Rightarrow> ('e + 'a \<Rightarrow> ('s, 'e, 'b) prog) \<Rightarrow> ('s, 'e, 'b) prog" where
  "attempt m f s = (case m s of None \<Rightarrow> None | Some (r, s') \<Rightarrow> f r s')"

text \<open>\<open>ignoring m\<close> is \<^verbatim>\<open>(void)m\<close>: the effect is kept and the status dropped.\<close>

definition ignoring :: "('s, 'e, 'a) prog \<Rightarrow> ('s, 'e, unit) prog" where
  "ignoring m = attempt m (\<lambda>_. ret ())"

text \<open>\<open>cleanup m c\<close> runs \<open>c\<close> after \<open>m\<close> whatever the outcome, and returns the outcome of \<open>m\<close>.\<close>

definition cleanup :: "('s, 'e, 'a) prog \<Rightarrow> ('s, 'e, 'b) prog \<Rightarrow> ('s, 'e, 'a) prog" where
  "cleanup m c = attempt m (\<lambda>r. attempt c (\<lambda>_ s. Some (r, s)))"

text \<open>Reading the state and changing it.\<close>

definition reads :: "('s \<Rightarrow> 'a) \<Rightarrow> ('s, 'e, 'a) prog" where
  "reads f s = Some (Inr (f s), s)"

definition updates :: "('s \<Rightarrow> 's) \<Rightarrow> ('s, 'e, unit) prog" where
  "updates f s = Some (Inr (), f s)"

lemma ret_apply [simp]: "ret x s = Some (Inr x, s)"
  by (simp add: ret_def)

lemma fail_apply [simp]: "fail e s = Some (Inl e, s)"
  by (simp add: fail_def)

lemma reads_apply [simp]: "reads f s = Some (Inr (f s), s)"
  by (simp add: reads_def)

lemma updates_apply [simp]: "updates f s = Some (Inr (), f s)"
  by (simp add: updates_def)

named_theorems run "unfolding of the effect combinators, for executing a program symbolically"

declare andThen_def [run] attempt_def [run] ignoring_def [run] cleanup_def [run]

lemma andThen_assoc: "andThen (andThen m f) g = andThen m (\<lambda>x. andThen (f x) g)"
  by (rule ext) (simp add: andThen_def split: option.split sum.split)

lemma andThen_ret_left [simp]: "andThen (ret x) f = f x"
  by (rule ext) (simp add: andThen_def)

lemma andThen_fail_left [simp]: "andThen (fail e) f = fail e"
  by (rule ext) (simp add: andThen_def)

lemma andThen_done: "m s = Some (Inr x, s') \<Longrightarrow> andThen m f s = f x s'"
  by (simp add: andThen_def)

lemma andThen_ret_right: "andThen m ret = m"
  by (rule ext) (simp add: andThen_def split: option.split sum.split)

text \<open>The combinators are monotone, so that loops over them can be defined as fixed points.\<close>

lemma andThen_mono [partial_function_mono]:
  assumes m: "mono_option (\<lambda>f. m f s)"
    and k: "\<And>x t. mono_option (\<lambda>f. k f x t)"
  shows "mono_option (\<lambda>f. andThen (m f) (k f) s)"
proof -
  have step: "mono_option (\<lambda>f. case fst p of Inl e \<Rightarrow> Some (Inl e, snd p) | Inr x \<Rightarrow> k f x (snd p))"
    for p
    by (cases "fst p") (simp_all add: k option.const_mono)
  have "andThen (m f) (k f) s = Option.bind (m f s)
      (\<lambda>p. case fst p of Inl e \<Rightarrow> Some (Inl e, snd p) | Inr x \<Rightarrow> k f x (snd p))" for f
    by (simp add: andThen_def split: option.split sum.split)
  then show ?thesis
    by (simp only:) (rule bind_mono [OF m step])
qed

lemma attempt_mono [partial_function_mono]:
  assumes m: "mono_option (\<lambda>f. m f s)"
    and k: "\<And>r t. mono_option (\<lambda>f. k f r t)"
  shows "mono_option (\<lambda>f. attempt (m f) (k f) s)"
proof -
  have "attempt (m f) (k f) s = Option.bind (m f s) (\<lambda>p. k f (fst p) (snd p))" for f
    by (simp add: attempt_def split: option.split)
  then show ?thesis
    by (simp only:) (rule bind_mono [OF m k])
qed

text \<open>
  \<open>safe I H m\<close>: from every state with \<open>I\<close> the program returns, keeps \<open>I\<close>, and an error it
  reports satisfies \<open>H\<close>.  The rules below reduce a program to its parts.
\<close>

definition safe :: "('s \<Rightarrow> bool) \<Rightarrow> ('e \<Rightarrow> bool) \<Rightarrow> ('s, 'e, 'a) prog \<Rightarrow> bool" where
  "safe I H m \<longleftrightarrow>
     (\<forall>s. I s \<longrightarrow> (\<exists>r s'. m s = Some (r, s') \<and> I s' \<and> (\<forall>e. r = Inl e \<longrightarrow> H e)))"

named_theorems safe_intro "rules that reduce safety of a program to safety of its parts"

lemma safe_ret [safe_intro]: "safe I H (ret x)"
  by (simp add: safe_def)

lemma safe_fail [safe_intro]: "H e \<Longrightarrow> safe I H (fail e)"
  by (simp add: safe_def)

lemma safe_reads [safe_intro]: "safe I H (reads f)"
  by (simp add: safe_def)

lemma safe_updates [safe_intro]: "(\<And>s. I s \<Longrightarrow> I (f s)) \<Longrightarrow> safe I H (updates f)"
  by (simp add: safe_def)

lemma safe_andThen [safe_intro]:
  assumes m: "safe I H m" and f: "\<And>x. safe I H (f x)"
  shows "safe I H (andThen m f)"
  unfolding safe_def
proof (intro allI impI)
  fix s assume "I s"
  then obtain r s' where ms: "m s = Some (r, s')" "I s'" "\<forall>e. r = Inl e \<longrightarrow> H e"
    using m by (auto simp: safe_def)
  show "\<exists>r s'. andThen m f s = Some (r, s') \<and> I s' \<and> (\<forall>e. r = Inl e \<longrightarrow> H e)"
  proof (cases r)
    case (Inl e)
    with ms show ?thesis by (simp add: andThen_def)
  next
    case (Inr x)
    with ms f [of x] show ?thesis by (auto simp: andThen_def safe_def)
  qed
qed

lemma safe_attempt [safe_intro]:
  assumes "safe I H' m" and "\<And>r. (\<And>e. r = Inl e \<Longrightarrow> H' e) \<Longrightarrow> safe I H (f r)"
  shows "safe I H (attempt m f)"
  using assms unfolding safe_def attempt_def by (fastforce split: option.split)

lemma safe_ignoring [safe_intro]: "safe I H m \<Longrightarrow> safe I H (ignoring m)"
  unfolding ignoring_def by (intro safe_intro)

lemma safe_cleanup [safe_intro]:
  assumes "safe I H m" and "safe I H c"
  shows "safe I H (cleanup m c)"
  using assms unfolding safe_def cleanup_def attempt_def by (fastforce split: option.split)

lemma safe_if [safe_intro]:
  "(b \<Longrightarrow> safe I H m) \<Longrightarrow> (\<not> b \<Longrightarrow> safe I H n) \<Longrightarrow> safe I H (if b then m else n)"
  by simp

lemma safe_let [safe_intro]: "(\<And>x. x = v \<Longrightarrow> safe I H (f x)) \<Longrightarrow> safe I H (let x = v in f x)"
  by simp

lemma safe_case_option [safe_intro]:
  "(x = None \<Longrightarrow> safe I H m) \<Longrightarrow> (\<And>y. x = Some y \<Longrightarrow> safe I H (f y)) \<Longrightarrow>
     safe I H (case x of None \<Rightarrow> m | Some y \<Rightarrow> f y)"
  by (cases x) simp_all

lemma safe_case_sum [safe_intro]:
  "(\<And>e. x = Inl e \<Longrightarrow> safe I H (f e)) \<Longrightarrow> (\<And>y. x = Inr y \<Longrightarrow> safe I H (g y)) \<Longrightarrow>
     safe I H (case x of Inl e \<Rightarrow> f e | Inr y \<Rightarrow> g y)"
  by (cases x) simp_all

lemma safe_case_prod [safe_intro]:
  "(\<And>a b. x = (a, b) \<Longrightarrow> safe I H (f a b)) \<Longrightarrow> safe I H (case x of (a, b) \<Rightarrow> f a b)"
  by (cases x) simp

lemma safeE:
  assumes "safe I H m" and "I s"
  obtains r s' where "m s = Some (r, s')" "I s'" "\<And>e. r = Inl e \<Longrightarrow> H e"
  using assms by (auto simp: safe_def)

text \<open>\<open>keeps I m\<close>: whenever the program returns, \<open>I\<close> still holds; it need not return.\<close>

definition keeps :: "('s \<Rightarrow> bool) \<Rightarrow> ('s, 'e, 'a) prog \<Rightarrow> bool" where
  "keeps I m \<longleftrightarrow> (\<forall>s r s'. I s \<longrightarrow> m s = Some (r, s') \<longrightarrow> I s')"

lemma keepsI: "(\<And>s r s'. I s \<Longrightarrow> m s = Some (r, s') \<Longrightarrow> I s') \<Longrightarrow> keeps I m"
  by (simp add: keeps_def)

lemma keepsD: "keeps I m \<Longrightarrow> m s = Some (r, s') \<Longrightarrow> I s \<Longrightarrow> I s'"
  by (simp add: keeps_def)

lemma safe_keeps: "safe I H m \<Longrightarrow> keeps I m"
proof (rule keepsI)
  fix s r s' assume m: "safe I H m" and I: "I s" and run: "m s = Some (r, s')"
  from m I obtain r1 s1 where "m s = Some (r1, s1)" "I s1" by (rule safeE)
  with run show "I s'" by simp
qed

lemma keeps_attempt:
  assumes m: "keeps I m" and f: "\<And>r. keeps I (f r)"
  shows "keeps I (attempt m f)"
proof (rule keepsI)
  fix s r s' assume I: "I s" and run: "attempt m f s = Some (r, s')"
  then obtain r1 s1 where 1: "m s = Some (r1, s1)" "f r1 s1 = Some (r, s')"
    by (auto simp: attempt_def split: option.splits)
  from keepsD [OF m 1(1) I] show "I s'" by (rule keepsD [OF f 1(2)])
qed

lemma keeps_andThen:
  assumes m: "keeps I m" and f: "\<And>x. keeps I (f x)"
  shows "keeps I (andThen m f)"
proof -
  have "andThen m f = attempt m (\<lambda>r. case r of Inl e \<Rightarrow> fail e | Inr x \<Rightarrow> f x)"
    by (rule ext) (simp add: andThen_def attempt_def split: option.split sum.split)
  moreover have "keeps I (case r of Inl e \<Rightarrow> fail e | Inr x \<Rightarrow> f x)" for r
    using f by (cases r) (simp_all add: keeps_def)
  ultimately show ?thesis by (simp only: keeps_attempt [OF m])
qed

lemma keeps_if: "(b \<Longrightarrow> keeps I m) \<Longrightarrow> (\<not> b \<Longrightarrow> keeps I n) \<Longrightarrow> keeps I (if b then m else n)"
  by simp

section \<open>Bytes of a word\<close>

text \<open>The cast \<^verbatim>\<open>(uint8_t)(value >> (8 * i))\<close>, and the two byte orders.\<close>

definition byte_of :: "nat \<Rightarrow> u32 \<Rightarrow> u8" where
  "byte_of i v = ucast (drop_bit (8 * i) v)"

definition le_bytes :: "u32 \<Rightarrow> u8 list" where
  "le_bytes v = [byte_of 0 v, byte_of 1 v, byte_of 2 v, byte_of 3 v]"

definition be_bytes :: "u32 \<Rightarrow> u8 list" where
  "be_bytes v = [byte_of 3 v, byte_of 2 v, byte_of 1 v, byte_of 0 v]"

text \<open>Four bytes, least significant first, as the code assembles them with shifts and ors.\<close>

definition word_of :: "u8 \<Rightarrow> u8 \<Rightarrow> u8 \<Rightarrow> u8 \<Rightarrow> u32" where
  "word_of b0 b1 b2 b3 =
     ucast b0 OR push_bit 8 (ucast b1) OR push_bit 16 (ucast b2) OR push_bit 24 (ucast b3)"

lemma word_of_byte_of [simp]:
  "word_of (byte_of 0 v) (byte_of (Suc 0) v) (byte_of 2 v) (byte_of 3 v) = v"
proof (rule bit_word_eqI)
  fix n assume "n < LENGTH(32)"
  then have n: "n < 32" by simp
  consider "n < 8" | "8 \<le> n" "n < 16" | "16 \<le> n" "n < 24" | "24 \<le> n" "n < 32"
    using n by linarith
  then show "bit (word_of (byte_of 0 v) (byte_of (Suc 0) v) (byte_of 2 v) (byte_of 3 v)) n = bit v n"
    by cases (auto simp: word_of_def byte_of_def bit_simps)
qed

lemma byte_of_word_of [simp]:
  "byte_of 0 (word_of b0 b1 b2 b3) = b0"
  "byte_of (Suc 0) (word_of b0 b1 b2 b3) = b1"
  "byte_of 2 (word_of b0 b1 b2 b3) = b2"
  "byte_of 3 (word_of b0 b1 b2 b3) = b3"
  by (rule bit_word_eqI; auto simp: word_of_def byte_of_def bit_simps dest: bit_imp_le_length)+

lemma le_bytes_word_of [simp]: "le_bytes (word_of a b c d) = [a, b, c, d]"
  by (simp add: le_bytes_def)

lemma length_bytes [simp]: "length (le_bytes v) = 4" "length (be_bytes v) = 4"
  by (simp_all add: le_bytes_def be_bytes_def)

lemma byte_of_ucast8 [simp]: "byte_of 0 (ucast (b :: u8)) = b"
  by (rule bit_word_eqI) (auto simp: byte_of_def bit_simps)

lemma mask_byte [simp]: "(ucast (x AND 0xff :: u32) :: u8) = ucast x"
proof -
  have m: "(0xff :: u32) = mask 8" by (simp add: mask_eq_exp_minus_1)
  show ?thesis unfolding m by (rule bit_word_eqI) (auto simp: bit_simps)
qed

text \<open>A little-endian value of any number of bytes.\<close>

fun le_value :: "u8 list \<Rightarrow> u32" where
  "le_value [] = 0"
| "le_value (b # bs) = ucast b OR push_bit 8 (le_value bs)"

lemma le_value_4: "le_value [a, b, c, d] = word_of a b c d"
  by (simp add: word_of_def push_bit_or)

section \<open>Alignment\<close>

lemma and_mask_unat: "unat ((a :: u32) AND mask n) = unat a mod 2 ^ n"
proof -
  have "a AND mask n = take_bit n a" by (rule take_bit_eq_mask [symmetric])
  moreover have "unat (take_bit n a) = take_bit n (unat a)" by (simp add: unsigned_take_bit_eq)
  ultimately show ?thesis by (simp only: take_bit_eq_mod [of n "unat a"])
qed

lemma and3_unat: "(a :: u32) AND 3 = 0 \<longleftrightarrow> unat a mod 4 = 0"
proof -
  have m: "(3 :: u32) = mask 2" by (simp add: mask_eq_exp_minus_1)
  have "a AND 3 = 0 \<longleftrightarrow> unat (a AND mask 2) = 0" unfolding m by (simp add: unat_eq_0)
  then show ?thesis by (simp add: and_mask_unat)
qed

lemma aligned4_add: "(a :: u32) AND 3 = 0 \<Longrightarrow> (a + 4) AND 3 = 0"
  by (simp add: and3_unat unat_word_ariths mod_mod_cancel)

section \<open>Overwriting a slice\<close>

text \<open>\<open>write_at off vs xs\<close> stores \<open>vs\<close> from index \<open>off\<close> on, as far as the array reaches.\<close>

definition write_at :: "nat \<Rightarrow> 'a list \<Rightarrow> 'a list \<Rightarrow> 'a list" where
  "write_at off vs xs = take off xs @ take (length xs - off) vs @ drop (off + length vs) xs"

lemma length_write_at [simp]: "length (write_at off vs xs) = length xs"
  by (auto simp: write_at_def min_def)

lemma nth_write_at:
  "i < length xs \<Longrightarrow>
     write_at off vs xs ! i = (if off \<le> i \<and> i < off + length vs then vs ! (i - off) else xs ! i)"
  by (auto simp: write_at_def nth_append min_def)

lemma write_at_Nil [simp]: "write_at off [] xs = xs"
  by (simp add: write_at_def)

lemma write_at_twice:
  assumes "length vs = length ws"
  shows "write_at off ws (write_at off vs xs) = write_at off ws xs"
  using assms by (intro nth_equalityI) (auto simp: nth_write_at)

lemma write_at_append:
  "write_at (off + length vs) ws (write_at off vs xs) = write_at off (vs @ ws) xs"
  by (intro nth_equalityI) (auto simp: nth_write_at nth_append)

lemma take_drop_write_at [simp]:
  assumes "off + length vs \<le> length xs"
  shows "take (length vs) (drop off (write_at off vs xs)) = vs"
  using assms by (intro nth_equalityI) (auto simp: nth_write_at)

lemma take4_drop:
  assumes "i + 4 \<le> length xs"
  shows "take 4 (drop i xs) = [xs ! i, xs ! (i + 1), xs ! (i + 2), xs ! (i + 3)]"
proof -
  have "drop i xs = xs ! i # xs ! (i + 1) # xs ! (i + 2) # xs ! (i + 3) # drop (i + 4) xs"
    using assms Cons_nth_drop_Suc [of i xs] Cons_nth_drop_Suc [of "i + 1" xs]
      Cons_nth_drop_Suc [of "i + 2" xs] Cons_nth_drop_Suc [of "i + 3" xs]
    by (simp add: numeral_eq_Suc)
  then show ?thesis by simp
qed

section \<open>Numbers as text\<close>

text \<open>The conversions \<^verbatim>\<open>%u\<close> and \<^verbatim>\<open>%0*x\<close> of \<^verbatim>\<open>printf\<close>.\<close>

definition digit_char :: "nat \<Rightarrow> char" where
  "digit_char d = char_of (if d < 10 then 48 + d else 87 + d)"

fun dec_str :: "nat \<Rightarrow> string" where
  "dec_str n = (if n < 10 then [digit_char n] else dec_str (n div 10) @ [digit_char (n mod 10)])"

fun hex_str :: "nat \<Rightarrow> string" where
  "hex_str n = (if n < 16 then [digit_char n] else hex_str (n div 16) @ [digit_char (n mod 16)])"

definition pad_left :: "char \<Rightarrow> nat \<Rightarrow> string \<Rightarrow> string" where
  "pad_left c n s = replicate (n - length s) c @ s"

declare dec_str.simps [simp del] hex_str.simps [simp del]

end
