(* ===== verification/Target.thy ===== *)
theory Target
  imports Prelude "HOL-Library.Sublist"
begin

text \<open>
  The chip table of \<^verbatim>\<open>src/target.c\<close> and its lookups: by the family and model bytes that the
  programmer reports, and by name.  A pointer into the table is modelled by the row it points
  at, \<^verbatim>\<open>NULL\<close> by \<open>None\<close>; the rows are pairwise different (\<open>chips_distinct\<close>), so comparing rows
  is comparing pointers.
\<close>

section \<open>The table\<close>

datatype wl_flash_algo = WL_FLASH_UNSUPPORTED | WL_FLASH_CH32V0

record wl_chip_t =
  name :: string
  family :: string
  flash_size :: u32
  ram_size :: u32
  ram_offset :: u32
  linke_id :: u8
  model_id :: u16
  interface_speed :: u8
  flash_base :: u32
  erase_size :: u32
  program_size :: u32
  algo :: wl_flash_algo

definition K :: "u32 \<Rightarrow> u32" where
  "K n = n * 1024"

definition CHIP ::
  "string \<Rightarrow> string \<Rightarrow> u32 \<Rightarrow> u32 \<Rightarrow> u32 \<Rightarrow> u8 \<Rightarrow> u16 \<Rightarrow> u8 \<Rightarrow> u32 \<Rightarrow> u32 \<Rightarrow> u32
    \<Rightarrow> wl_flash_algo \<Rightarrow> wl_chip_t" where
  "CHIP nm fam fl rm ro lid mid spd fb er pr alg =
     \<lparr>name = nm, family = fam, flash_size = K fl, ram_size = K rm, ram_offset = ro,
      linke_id = lid, model_id = mid, interface_speed = spd, flash_base = fb,
      erase_size = er, program_size = pr, algo = alg\<rparr>"

definition RAM_STD :: u32 where "RAM_STD = 0x20000000"
definition RAM_CH571 :: u32 where "RAM_CH571 = 0x20003800"
definition FB_V :: u32 where "FB_V = 0x08000000"
definition FB_C :: u32 where "FB_C = 0x00000000"

definition chips_v00x :: "wl_chip_t list" where
  "chips_v00x =
    [CHIP ''ch32v003'' ''ch32v0'' 16 2 RAM_STD 0x09 0x0030 0x01 FB_V 64 2 WL_FLASH_CH32V0,
     CHIP ''ch32v002'' ''ch32v0'' 16 4 RAM_STD 0x4e 0x0020 0x01 FB_V 64 2 WL_FLASH_CH32V0,
     CHIP ''ch32v004'' ''ch32v0'' 32 6 RAM_STD 0x4e 0x0040 0x01 FB_V 64 2 WL_FLASH_CH32V0,
     CHIP ''ch32v005'' ''ch32v0'' 32 6 RAM_STD 0x4e 0x0050 0x01 FB_V 64 2 WL_FLASH_CH32V0,
     CHIP ''ch32v006'' ''ch32v0'' 62 8 RAM_STD 0x4e 0x0060 0x01 FB_V 64 2 WL_FLASH_CH32V0,
     CHIP ''ch32v007'' ''ch32v0'' 62 8 RAM_STD 0x4e 0x0070 0x01 FB_V 64 2 WL_FLASH_CH32V0]"

definition chips_v4 :: "wl_chip_t list" where
  "chips_v4 =
    [CHIP ''ch32v103'' ''ch32v0v4'' 64 20 RAM_STD 0x01 0x2500 0x01 FB_V 0 0 WL_FLASH_UNSUPPORTED,
     CHIP ''ch32v203'' ''ch32v0v4'' 64 20 RAM_STD 0x05 0x2030 0x01 FB_V 0 0 WL_FLASH_UNSUPPORTED,
     CHIP ''ch32v208'' ''ch32v0v4'' 64 20 RAM_STD 0x05 0x2080 0x01 FB_V 0 0 WL_FLASH_UNSUPPORTED,
     CHIP ''ch32v303'' ''ch32v0v4'' 288 32 RAM_STD 0x06 0x3030 0x01 FB_V 0 0 WL_FLASH_UNSUPPORTED,
     CHIP ''ch32v305'' ''ch32v0v4'' 288 32 RAM_STD 0x06 0x3050 0x01 FB_V 0 0 WL_FLASH_UNSUPPORTED,
     CHIP ''ch32v307'' ''ch32v0v4'' 288 32 RAM_STD 0x06 0x3070 0x01 FB_V 0 0 WL_FLASH_UNSUPPORTED]"

definition chips_xl :: "wl_chip_t list" where
  "chips_xl =
    [CHIP ''ch32x033'' ''ch32x0'' 62 20 RAM_STD 0x0d 0x0330 0x01 FB_V 0 0 WL_FLASH_UNSUPPORTED,
     CHIP ''ch32x035'' ''ch32x0'' 62 20 RAM_STD 0x0d 0x0350 0x01 FB_V 0 0 WL_FLASH_UNSUPPORTED,
     CHIP ''ch32l103'' ''ch32l1'' 64 20 RAM_STD 0x0e 0x1030 0x01 FB_V 0 0 WL_FLASH_UNSUPPORTED]"

definition chips_57x :: "wl_chip_t list" where
  "chips_57x =
    [CHIP ''ch570'' ''ch5xx57x'' 240 12 RAM_STD 0x8b 0x7000 0x03 FB_C 0 0 WL_FLASH_UNSUPPORTED,
     CHIP ''ch572'' ''ch5xx57x'' 240 12 RAM_STD 0x8b 0x7200 0x03 FB_C 0 0 WL_FLASH_UNSUPPORTED,
     CHIP ''ch571'' ''ch5xx57x'' 192 18 RAM_CH571 0x02 0x7100 0x02 FB_C 0 0 WL_FLASH_UNSUPPORTED,
     CHIP ''ch573'' ''ch5xx57x'' 448 18 RAM_CH571 0x02 0x7300 0x02 FB_C 0 0 WL_FLASH_UNSUPPORTED]"

definition chips_58x :: "wl_chip_t list" where
  "chips_58x =
    [CHIP ''ch582'' ''ch5xx58x'' 448 32 RAM_STD 0x07 0x8200 0x03 FB_C 0 0 WL_FLASH_UNSUPPORTED,
     CHIP ''ch583'' ''ch5xx58x'' 448 32 RAM_STD 0x07 0x8300 0x03 FB_C 0 0 WL_FLASH_UNSUPPORTED,
     CHIP ''ch584'' ''ch5xx58x'' 448 96 RAM_STD 0x4b 0x8400 0x02 FB_C 0 0 WL_FLASH_UNSUPPORTED,
     CHIP ''ch585'' ''ch5xx58x'' 448 128 RAM_STD 0x4b 0x9300 0x02 FB_C 0 0 WL_FLASH_UNSUPPORTED]"

definition chips_59x :: "wl_chip_t list" where
  "chips_59x =
    [CHIP ''ch591'' ''ch5xx59x'' 192 26 RAM_STD 0x0b 0x9100 0x03 FB_C 0 0 WL_FLASH_UNSUPPORTED,
     CHIP ''ch592'' ''ch5xx59x'' 448 26 RAM_STD 0x0b 0x9200 0x03 FB_C 0 0 WL_FLASH_UNSUPPORTED]"

definition chips :: "wl_chip_t list" where
  "chips = chips_v00x @ chips_v4 @ chips_xl @ chips_57x @ chips_58x @ chips_59x"

definition chip_count :: nat where
  "chip_count = length chips"

definition wl_chip_all :: "wl_chip_t list \<times> nat" where
  "wl_chip_all = (chips, chip_count)"

lemmas chip_table =
  chips_v00x_def chips_v4_def chips_xl_def chips_57x_def chips_58x_def chips_59x_def

lemmas chip_row = CHIP_def K_def RAM_STD_def RAM_CH571_def FB_V_def FB_C_def

section \<open>Lookup by the ids of chip detection\<close>

text \<open>The loop returns the first row whose two ids match; the low nibble of the model is cleared.\<close>

fun find_detect_id :: "u8 \<Rightarrow> u16 \<Rightarrow> wl_chip_t list \<Rightarrow> wl_chip_t option" where
  "find_detect_id fid mid [] = None"
| "find_detect_id fid mid (c # cs) =
     (if linke_id c = fid \<and> model_id c = mid then Some c else find_detect_id fid mid cs)"

definition wl_chip_by_detect_id :: "u8 \<Rightarrow> u16 \<Rightarrow> wl_chip_t option" where
  "wl_chip_by_detect_id family_id mid = find_detect_id family_id (mid AND 0xfff0) chips"

section \<open>Lookup by name\<close>

text \<open>\<^verbatim>\<open>tolower\<close> of the C locale, the only one the program runs in (it never calls \<^verbatim>\<open>setlocale\<close>).\<close>

definition tolower :: "char \<Rightarrow> char" where
  "tolower c = (if 65 \<le> (of_char c :: nat) \<and> (of_char c :: nat) \<le> 90
                then char_of ((of_char c :: nat) + 32) else c)"

text \<open>
  \<^verbatim>\<open>name_matches\<close> walks along the candidate; the query's terminating NUL is the end of the list.
\<close>

fun name_matches :: "string \<Rightarrow> string \<Rightarrow> bool" where
  "name_matches [] query = True"
| "name_matches (a # as) [] = False"
| "name_matches (a # as) (b # bs) = (if tolower a \<noteq> tolower b then False else name_matches as bs)"

text \<open>The search loop with its running best match and that match's length.\<close>

fun best_match :: "string \<Rightarrow> wl_chip_t list \<Rightarrow> wl_chip_t option \<Rightarrow> nat \<Rightarrow> wl_chip_t option" where
  "best_match q [] best best_len = best"
| "best_match q (c # cs) best best_len =
     (let len = length (name c) in
      if \<not> name_matches (name c) q then best_match q cs best best_len
      else if best = None \<or> best_len < len then best_match q cs (Some c) len
      else best_match q cs best best_len)"

text \<open>The argument is \<open>None\<close> for a \<^verbatim>\<open>NULL\<close> pointer.\<close>

definition wl_chip_by_name :: "string option \<Rightarrow> wl_chip_t option" where
  "wl_chip_by_name nm =
     (case nm of None \<Rightarrow> None
      | Some q \<Rightarrow> if q = [] then None else best_match q chips None 0)"

fun name_max :: "wl_chip_t list \<Rightarrow> nat \<Rightarrow> nat" where
  "name_max [] mx = mx"
| "name_max (c # cs) mx = name_max cs (if mx < length (name c) then length (name c) else mx)"

definition wl_chip_name_max :: nat where
  "wl_chip_name_max = name_max chips 0"

definition wl_chip_same :: "string option \<Rightarrow> string option \<Rightarrow> bool" where
  "wl_chip_same a b =
     (let ca = wl_chip_by_name a; cb = wl_chip_by_name b in ca \<noteq> None \<and> ca = cb)"

section \<open>Facts about the table\<close>

text \<open>
  What the flash path relies on in a row: the part has flash and RAM, its flash does not run
  past the end of the address space, and a row that names an algorithm has the page geometry
  that algorithm needs.
\<close>

definition chip_ok :: "wl_chip_t \<Rightarrow> bool" where
  "chip_ok c \<longleftrightarrow>
     0 < flash_size c \<and> 0 < ram_size c \<and>
     unat (flash_base c) + unat (flash_size c) \<le> 0x10000000 \<and>
     0x20000000 \<le> unat (ram_offset c) \<and>
     unat (ram_offset c) + unat (ram_size c) \<le> 0x30000000 \<and>
     (algo c = WL_FLASH_CH32V0 \<longrightarrow>
        flash_base c = FB_V \<and> ram_offset c = RAM_STD \<and> erase_size c = 64 \<and>
        64 dvd unat (flash_size c) \<and> unat (flash_size c) \<le> 0x10000)"

lemma chips_all_ok: "list_all chip_ok chips"
  by (simp add: chips_def chip_table chip_row chip_ok_def)

lemma chip_okD: "c \<in> set chips \<Longrightarrow> chip_ok c"
  using chips_all_ok by (simp add: list_all_iff)

lemma chips_ids_distinct: "distinct (map (\<lambda>c. (linke_id c, model_id c)) chips)"
  by (simp add: chips_def chip_table chip_row)

lemma chips_distinct: "distinct chips"
  using chips_ids_distinct by (simp add: distinct_map)

lemma chip_count_25: "chip_count = 25"
  by (simp add: chip_count_def chips_def chip_table)

lemma chips_model_nibble: "list_all (\<lambda>c. model_id c AND 0xf = 0) chips"
  by (simp add: chips_def chip_table chip_row)

lemma chips_names_lower: "list_all (\<lambda>c. map tolower (name c) = name c \<and> name c \<noteq> []) chips"
  by (simp add: chips_def chip_table chip_row tolower_def)

lemma chip_names_apart:
  "list_all (\<lambda>a. list_all (\<lambda>b. prefix a b \<longrightarrow> a = b) (map name chips)) (map name chips)"
  by code_simp

lemma chip_names_distinct: "distinct (map name chips)"
  by code_simp

lemma chips_names_apart:
  "c \<in> set chips \<Longrightarrow> d \<in> set chips \<Longrightarrow> prefix (name c) (name d) \<Longrightarrow> c = d"
  using chip_names_apart chip_names_distinct
  by (auto simp: list_all_iff distinct_map dest: inj_onD)

section \<open>Facts about the lookups\<close>

lemma find_detect_id_Some:
  "distinct (map (\<lambda>c. (linke_id c, model_id c)) cs) \<Longrightarrow>
     find_detect_id f m cs = Some c \<longleftrightarrow> c \<in> set cs \<and> linke_id c = f \<and> model_id c = m"
  by (induction cs) (auto simp: image_iff)

lemma name_matches_prefix: "name_matches a q = prefix (map tolower a) (map tolower q)"
  by (induction a q rule: name_matches.induct) auto

text \<open>The longest match wins, in any table: the invariant of the search loop.\<close>

lemma best_match_longest:
  assumes "case best of None \<Rightarrow> n = 0 | Some b \<Rightarrow> n = length (name b) \<and> name_matches (name b) q"
    and "\<forall>c \<in> set cs. name c \<noteq> []"
  shows "case best_match q cs best n of
       None \<Rightarrow> best = None \<and> (\<forall>c \<in> set cs. \<not> name_matches (name c) q)
     | Some d \<Rightarrow> name_matches (name d) q \<and> (d \<in> set cs \<or> best = Some d) \<and> n \<le> length (name d) \<and>
         (\<forall>c \<in> set cs. name_matches (name c) q \<longrightarrow> length (name c) \<le> length (name d))"
  using assms
proof (induction q cs best n rule: best_match.induct)
  case (1 q best n)
  then show ?case by (auto split: option.splits)
next
  case (2 q c cs best n)
  show ?case
  proof (cases "name_matches (name c) q \<and> (best = None \<or> n < length (name c))")
    case True
    then have "best_match q (c # cs) best n = best_match q cs (Some c) (length (name c))"
      by (simp add: Let_def)
    with "2.IH"(2) [OF refl] "2.prems" True show ?thesis
      by (auto split: option.splits)
  next
    case False
    have eq: "best_match q (c # cs) best n = best_match q cs best n"
      using False by (auto simp: Let_def)
    have "name_matches (name c) q \<longrightarrow> best \<noteq> None \<and> length (name c) \<le> n"
      using False by auto
    moreover have "case best_match q cs best n of
       None \<Rightarrow> best = None \<and> (\<forall>c \<in> set cs. \<not> name_matches (name c) q)
     | Some d \<Rightarrow> name_matches (name d) q \<and> (d \<in> set cs \<or> best = Some d) \<and> n \<le> length (name d) \<and>
         (\<forall>c \<in> set cs. name_matches (name c) q \<longrightarrow> length (name c) \<le> length (name d))"
      using "2.IH" "2.prems" False by (cases "name_matches (name c) q") auto
    ultimately show ?thesis
      unfolding eq by (auto split: option.splits)
  qed
qed

lemma wl_chip_by_name_longest:
  "case wl_chip_by_name (Some q) of
     None \<Rightarrow> q = [] \<or> (\<forall>c \<in> set chips. \<not> name_matches (name c) q)
   | Some d \<Rightarrow> d \<in> set chips \<and> name_matches (name d) q \<and>
       (\<forall>c \<in> set chips. name_matches (name c) q \<longrightarrow> length (name c) \<le> length (name d))"
proof -
  have "\<forall>c \<in> set chips. name c \<noteq> []"
    using chips_names_lower by (simp add: list_all_iff)
  from best_match_longest [where best = None and n = 0 and q = q and cs = chips, OF _ this] show ?thesis
    by (auto simp: wl_chip_by_name_def split: option.splits)
qed

text \<open>In this table no name extends another, so a name matches at most one row.\<close>

lemma name_match_unique:
  assumes "c \<in> set chips" "d \<in> set chips" "name_matches (name c) q" "name_matches (name d) q"
  shows "c = d"
proof -
  have "prefix (name c) (map tolower q)" "prefix (name d) (map tolower q)"
    using assms chips_names_lower by (simp_all add: name_matches_prefix list_all_iff)
  then have "prefix (name c) (name d) \<or> prefix (name d) (name c)"
    by (rule prefix_same_cases)
  then show ?thesis
    using assms chips_names_apart by blast
qed

lemma wl_chip_by_name_iff:
  "wl_chip_by_name (Some q) = Some c \<longleftrightarrow> c \<in> set chips \<and> prefix (name c) (map tolower q)"
proof -
  have low: "c \<in> set chips \<Longrightarrow> name_matches (name c) q = prefix (name c) (map tolower q)"
    using chips_names_lower by (simp add: name_matches_prefix list_all_iff)
  have ne: "c \<in> set chips \<Longrightarrow> name c \<noteq> []"
    using chips_names_lower by (simp add: list_all_iff)
  show ?thesis
    using wl_chip_by_name_longest [of q] name_match_unique [of c _ q] low ne
    by (auto split: option.splits)
qed

lemma tolower_idem [simp]: "tolower (tolower c) = tolower c"
proof (cases "65 \<le> (of_char c :: nat) \<and> (of_char c :: nat) \<le> 90")
  case True
  then have "(of_char (char_of ((of_char c :: nat) + 32) :: char) :: nat) = of_char c + 32"
    by (simp add: of_char_of)
  with True show ?thesis by (simp add: tolower_def)
next
  case False
  then show ?thesis by (auto simp: tolower_def)
qed

section \<open>Properties of the chip table\<close>

text \<open>C17: chip detection finds a row exactly when the row is in the table and both ids agree with
  the programmer's reply, the low nibble of the reported model left out.\<close>

theorem detect_id_iff:
  "wl_chip_by_detect_id f m = Some c \<longleftrightarrow>
     c \<in> set chips \<and> linke_id c = f \<and> model_id c = m AND 0xfff0"
  unfolding wl_chip_by_detect_id_def by (rule find_detect_id_Some [OF chips_ids_distinct])

text \<open>C18: a name finds a part exactly when the part's base name is a prefix of it, upper and
  lower case alike, so full order codes work and no part shadows another.\<close>

theorem chip_by_name_prefix:
  "wl_chip_by_name (Some q) = Some c \<longleftrightarrow> c \<in> set chips \<and> prefix (name c) (map tolower q)"
  by (rule wl_chip_by_name_iff)

end
