(* ===== verification/GdbText.thy ===== *)
theory GdbText
  imports Target
begin

text \<open>
  The text side of \<^verbatim>\<open>src/gdb_server.c\<close>: hexadecimal parsing and formatting, packet framing with
  escapes and checksum, the splitting of monitor commands, and the two XML documents.  A C string
  is the list of its characters without the terminating NUL; a pointer into it is the rest of the
  list from there on.
\<close>

section \<open>Constants\<close>

definition GDB_PACKET_MAX :: nat where "GDB_PACKET_MAX = 4096"
definition GDB_MEMORY_MAX :: nat where "GDB_MEMORY_MAX = 1024"
definition GDB_RV32E_GPRS :: nat where "GDB_RV32E_GPRS = 16"
definition GDB_REG_PC :: u32 where "GDB_REG_PC = 16"

lemmas gdb_sizes = GDB_PACKET_MAX_def GDB_MEMORY_MAX_def GDB_RV32E_GPRS_def GDB_REG_PC_def

section \<open>Characters and bytes\<close>

abbreviation ascii :: "char \<Rightarrow> nat" where
  "ascii c \<equiv> of_char c"

definition byte :: "char \<Rightarrow> u8" where
  "byte c = of_nat (ascii c)"

definition chr_of :: "u8 \<Rightarrow> char" where
  "chr_of b = char_of (unat b)"

lemma chr_of_byte [simp]: "chr_of (byte c) = c"
  by (simp add: chr_of_def byte_def unat_of_nat)

lemma byte_chr_of [simp]: "byte (chr_of b) = b"
proof -
  have "unat b < 256" using unsigned_less [of b] by simp
  then show ?thesis by (simp add: chr_of_def byte_def of_char_of)
qed

lemma byte_inject [simp]: "byte a = byte b \<longleftrightarrow> a = b"
  by (metis chr_of_byte)

section \<open>Hexadecimal\<close>

definition hex_nibble :: "char \<Rightarrow> nat option" where
  "hex_nibble c =
     (if 48 \<le> ascii c \<and> ascii c \<le> 57 then Some (ascii c - 48)
      else if 97 \<le> ascii c \<and> ascii c \<le> 102 then Some (ascii c - 97 + 10)
      else if 65 \<le> ascii c \<and> ascii c \<le> 70 then Some (ascii c - 65 + 10)
      else None)"

text \<open>The loop of \<^verbatim>\<open>parse_hex_u32\<close>: the value so far, whether a digit was seen, and the rest.\<close>

fun hex_run :: "string \<Rightarrow> u32 \<Rightarrow> bool \<Rightarrow> u32 \<times> bool \<times> string" where
  "hex_run [] result any = (result, any, [])"
| "hex_run (c # cs) result any =
     (case hex_nibble c of
        None \<Rightarrow> (result, any, c # cs)
      | Some nibble \<Rightarrow> hex_run cs (push_bit 4 result OR of_nat nibble) True)"

definition parse_hex_u32 :: "string \<Rightarrow> (u32 \<times> string) option" where
  "parse_hex_u32 text =
     (case hex_run text 0 False of (value, any, rest) \<Rightarrow> if any then Some (value, rest) else None)"

fun parse_hex_bytes :: "string \<Rightarrow> nat \<Rightarrow> u8 list option" where
  "parse_hex_bytes text 0 = Some []"
| "parse_hex_bytes (h # l # text) (Suc n) =
     (case (hex_nibble h, hex_nibble l) of
        (Some high, Some low) \<Rightarrow>
          map_option ((#) (of_nat (16 * high + low))) (parse_hex_bytes text n)
      | _ \<Rightarrow> None)"
| "parse_hex_bytes _ (Suc n) = None"

definition format_hex_byte :: "u8 \<Rightarrow> string" where
  "format_hex_byte value =
     [''0123456789abcdef'' ! unat (drop_bit 4 value), ''0123456789abcdef'' ! unat (value AND 0xf)]"

definition format_hex_u32_le :: "u32 \<Rightarrow> string" where
  "format_hex_u32_le value =
     format_hex_byte (ucast value) @ format_hex_byte (ucast (drop_bit 8 value)) @
     format_hex_byte (ucast (drop_bit 16 value)) @ format_hex_byte (ucast (drop_bit 24 value))"

definition gdb_decode_hex_string :: "string \<Rightarrow> nat \<Rightarrow> string option" where
  "gdb_decode_hex_string hex out_max =
     (if odd (length hex) \<or> out_max = 0 then None
      else if out_max \<le> length hex div 2 then None
      else map_option (map chr_of) (parse_hex_bytes hex (length hex div 2)))"

section \<open>Packets\<close>

definition special :: "char \<Rightarrow> bool" where
  "special c \<longleftrightarrow> c = CHR ''$'' \<or> c = CHR ''#'' \<or> c = CHR ''}'' \<or> c = CHR ''*''"

definition flip32 :: "char \<Rightarrow> char" where
  "flip32 c = chr_of (byte c XOR 0x20)"

fun escaped :: "string \<Rightarrow> string" where
  "escaped [] = []"
| "escaped (c # cs) = (if special c then [CHR ''}'', flip32 c] else [c]) @ escaped cs"

definition checksum :: "string \<Rightarrow> u8" where
  "checksum cs = sum_list (map byte cs)"

text \<open>What \<^verbatim>\<open>gdb_send_packet\<close> puts on the wire; its checksum runs over the payload as given.\<close>

definition framed :: "string \<Rightarrow> string" where
  "framed payload = CHR ''$'' # escaped payload @ CHR ''#'' # format_hex_byte (checksum payload)"

text \<open>
  What a \<^verbatim>\<open>recv\<close> of one byte comes back with: a byte, an interruption by a signal, or another
  error; when nothing is left the peer has closed the connection.
\<close>

datatype recv_event = Arrived char | Interrupted | Broken

fun gdb_recv_byte :: "recv_event list \<Rightarrow> char option \<times> recv_event list" where
  "gdb_recv_byte [] = (None, [])"
| "gdb_recv_byte (Arrived c # es) = (Some c, es)"
| "gdb_recv_byte (Interrupted # es) = gdb_recv_byte es"
| "gdb_recv_byte (Broken # es) = (None, es)"

lemma recv_byte_shorter [termination_simp]:
  "(Some c, es') = gdb_recv_byte es \<Longrightarrow> length es' < length es"
  by (induction es rule: gdb_recv_byte.induct) auto

text \<open>The parts of \<^verbatim>\<open>gdb_recv_packet\<close>: the events left over are handed on in every case.\<close>

fun skip_to_start :: "recv_event list \<Rightarrow> bool \<times> recv_event list" where
  "skip_to_start es =
     (case gdb_recv_byte es of
        (None, es') \<Rightarrow> (False, es')
      | (Some c, es') \<Rightarrow> if c = CHR ''$'' then (True, es') else skip_to_start es')"

fun take_body :: "recv_event list \<Rightarrow> string \<Rightarrow> string option \<times> recv_event list" where
  "take_body es raw =
     (case gdb_recv_byte es of
        (None, es') \<Rightarrow> (None, es')
      | (Some c, es') \<Rightarrow>
          if c = CHR ''#'' then (Some raw, es')
          else take_body es' (if length raw + 1 < GDB_PACKET_MAX then raw @ [c] else raw))"

fun take_checksum :: "nat \<Rightarrow> recv_event list \<Rightarrow> u8 \<Rightarrow> u8 option \<times> recv_event list" where
  "take_checksum 0 es received = (Some received, es)"
| "take_checksum (Suc n) es received =
     (case gdb_recv_byte es of
        (None, es') \<Rightarrow> (None, es')
      | (Some c, es') \<Rightarrow>
          (case hex_nibble c of
             None \<Rightarrow> (None, es')
           | Some nibble \<Rightarrow> take_checksum n es' (push_bit 4 received OR of_nat nibble)))"

declare skip_to_start.simps [simp del] take_body.simps [simp del] take_checksum.simps [simp del]

fun unescaped :: "string \<Rightarrow> string option" where
  "unescaped [] = Some []"
| "unescaped (c # cs) =
     (if c = CHR ''}'' then
        (case cs of [] \<Rightarrow> None | d # ds \<Rightarrow> map_option ((#) (flip32 d)) (unescaped ds))
      else map_option ((#) c) (unescaped cs))"

text \<open>
  The result, the acknowledgement sent if one is, and the input left: \<open>None\<close> is a return of -1.
\<close>

definition receive ::
  "recv_event list \<Rightarrow> nat \<Rightarrow> string option \<times> string \<times> recv_event list" where
  "receive es out_max =
     (case skip_to_start es of
        (False, rest) \<Rightarrow> (None, [], rest)
      | (True, rest) \<Rightarrow>
          (case take_body rest [] of
             (None, rest) \<Rightarrow> (None, [], rest)
           | (Some raw, rest) \<Rightarrow>
               (case take_checksum 2 rest 0 of
                  (None, rest) \<Rightarrow> (None, [], rest)
                | (Some received, rest) \<Rightarrow>
                    if checksum raw \<noteq> received then (None, ''-'', rest)
                    else (map_option (take (out_max - 1)) (unescaped raw), ''+'', rest))))"

section \<open>Words of a monitor command\<close>

definition blank :: "char \<Rightarrow> bool" where
  "blank c \<longleftrightarrow> ascii c \<in> {32, 9, 13, 10}"

text \<open>\<^verbatim>\<open>strtok_r\<close> with blanks as delimiters: the next word and what follows its delimiter.\<close>

definition strtok :: "string \<Rightarrow> (string \<times> string) option" where
  "strtok s =
     (let t = dropWhile blank s in
      if t = [] then None
      else Some (takeWhile (\<lambda>c. \<not> blank c) t, drop 1 (dropWhile (\<lambda>c. \<not> blank c) t)))"

section \<open>Documents\<close>

definition hex8 :: "u32 \<Rightarrow> string" where
  "hex8 v = pad_left CHR ''0'' 8 (hex_str (unat v))"

definition quoted :: "string \<Rightarrow> string" where
  "quoted s = CHR 0x22 # s @ [CHR 0x22]"

definition build_target_xml :: string where
  "build_target_xml =
     ''<?xml version='' @ quoted ''1.0'' @ ''?><!DOCTYPE target SYSTEM '' @ quoted ''gdb-target.dtd'' @
     ''><target><architecture>riscv:rv32</architecture><feature name='' @
     quoted ''org.gnu.gdb.riscv.cpu'' @ ''>'' @
     concat (map (\<lambda>reg. ''<reg name='' @ quoted (CHR ''x'' # dec_str reg) @ '' bitsize='' @ quoted ''32'' @
       '' type='' @ quoted ''uint32'' @ '' regnum='' @ quoted (dec_str reg) @ ''/>'') [0..<GDB_RV32E_GPRS]) @
     ''<reg name='' @ quoted ''pc'' @ '' bitsize='' @ quoted ''32'' @ '' type='' @ quoted ''code_ptr'' @
     '' regnum='' @ quoted (dec_str (unat GDB_REG_PC)) @ ''/></feature></target>''"

definition build_memory_map :: "wl_chip_t \<Rightarrow> string" where
  "build_memory_map chip =
     (let block = (if erase_size chip \<noteq> 0 then erase_size chip else 4096) in
      ''<?xml version='' @ quoted ''1.0'' @ ''?><!DOCTYPE memory-map PUBLIC '' @
      quoted ''+//IDN gnu.org//DTD GDB Memory Map V1.0//EN'' @ '' '' @
      quoted ''http://sourceware.org/gdb/gdb-memory-map.dtd'' @ ''><memory-map>'' @
      ''<memory type='' @ quoted ''flash'' @ '' start='' @ quoted (''0x'' @ hex8 (flash_base chip)) @
      '' length='' @ quoted (''0x'' @ hex_str (unat (flash_size chip))) @
      ''><property name='' @ quoted ''blocksize'' @ ''>'' @ dec_str (unat block) @ ''</property></memory>'' @
      ''<memory type='' @ quoted ''ram'' @ '' start='' @ quoted (''0x'' @ hex8 (ram_offset chip)) @
      '' length='' @ quoted (''0x'' @ hex_str (unat (ram_size chip))) @ ''/></memory-map>'')"

text \<open>The payload of one answer to a request for a part of a document.\<close>

definition qxfer_payload :: "string \<Rightarrow> nat \<Rightarrow> nat \<Rightarrow> string" where
  "qxfer_payload data offset requested =
     (if length data \<le> offset then ''l''
      else
        (let room = (if GDB_PACKET_MAX - 1 < requested then GDB_PACKET_MAX - 1 else requested);
             count = (if room < length data - offset then room else length data - offset)
         in if count = 0 then ''l''
            else (if length data \<le> offset + count then CHR ''l'' else CHR ''m'') #
              take count (drop offset data)))"

section \<open>Numbers and bytes as text\<close>

lemma nibble_table: "list_all (\<lambda>n. hex_nibble (''0123456789abcdef'' ! n) = Some n) [0..<16]"
  by code_simp

lemma hex_nibble_digit [simp]: "n < 16 \<Longrightarrow> hex_nibble (''0123456789abcdef'' ! n) = Some n"
  using nibble_table by (simp add: list_all_iff del: upt_rec_numeral)

lemma digit_table: "list_all (\<lambda>n. digit_char n = ''0123456789abcdef'' ! n) [0..<16]"
  by code_simp

lemma hex_nibble_digit_char [simp]: "n < 16 \<Longrightarrow> hex_nibble (digit_char n) = Some n"
  using digit_table hex_nibble_digit [of n] by (simp add: list_all_iff del: upt_rec_numeral hex_nibble_digit)

lemma hex_nibble_less: "hex_nibble c = Some n \<Longrightarrow> n < 16"
  by (auto simp: hex_nibble_def split: if_splits)

lemma halves:
  "unat (drop_bit 4 (b :: u8)) < 16" "unat (b AND 0xf) < 16"
  "16 * unat (drop_bit 4 b) + unat (b AND 0xf) = unat b"
proof -
  have m: "(0xf :: u8) = mask 4" by (simp add: mask_eq_exp_minus_1)
  have l: "b AND 0xf = take_bit 4 b" unfolding m by (simp add: take_bit_eq_mask)
  have d: "unat (drop_bit 4 b) = unat b div 16" by (simp add: drop_bit_eq_div unat_div)
  have "unat b < 256" using unsigned_less [of b] by simp
  then show "unat (drop_bit 4 b) < 16" unfolding d by simp
  have r: "unat (take_bit 4 b) = unat b mod 16" by (simp add: take_bit_eq_mod unat_mod)
  then show "unat (b AND 0xf) < 16" unfolding l by simp
  show "16 * unat (drop_bit 4 b) + unat (b AND 0xf) = unat b"
    unfolding l d r by simp
qed

lemma parse_format_byte [simp]:
  "parse_hex_bytes (format_hex_byte b @ text) (Suc n) = map_option ((#) b) (parse_hex_bytes text n)"
  by (simp add: format_hex_byte_def halves)

lemma parse_format_bytes:
  "parse_hex_bytes (concat (map format_hex_byte bs) @ text) (length bs) = Some bs"
  by (induction bs) simp_all

lemma length_format [simp]: "length (format_hex_byte b) = 2"
  by (simp add: format_hex_byte_def)

lemma length_format_bytes: "length (concat (map format_hex_byte bs)) = 2 * length bs"
  by (induction bs) simp_all

lemma decode_hex_text:
  "length cs < out_max \<Longrightarrow>
     gdb_decode_hex_string (concat (map (\<lambda>c. format_hex_byte (byte c)) cs)) out_max = Some cs"
  using parse_format_bytes [of "map byte cs" "[]"] length_format_bytes [of "map byte cs"]
  by (simp add: gdb_decode_hex_string_def comp_def)

lemma add_nibble: "nib < 16 \<Longrightarrow> push_bit 4 r OR of_nat nib = 16 * r + (of_nat nib :: u32)"
proof -
  assume "nib < 16"
  then have "take_bit 4 nib = nib" by (simp add: take_bit_eq_mod)
  then have b: "bit nib n \<Longrightarrow> n < 4" for n
    by (metis bit_take_bit_iff)
  have "push_bit 4 r + of_nat nib = push_bit 4 r OR (of_nat nib :: u32)"
    by (rule disjunctive_add_eq_or, rule bit_word_eqI) (auto simp: bit_simps dest: b)
  moreover have "push_bit 4 r = 16 * r" by (simp add: push_bit_eq_mult)
  ultimately show ?thesis by simp
qed

lemma hex_run_digit:
  assumes "nib < 16"
  shows "hex_run (digit_char nib # ys) r any = hex_run ys (16 * r + of_nat nib) True"
  using assms by (simp only: hex_run.simps hex_nibble_digit_char option.case add_nibble)

lemma hex_run_hex_str: "hex_run (hex_str n @ ys) 0 any = hex_run ys (of_nat n) True"
proof (induction n arbitrary: ys any rule: hex_str.induct)
  case (1 n)
  show ?case
  proof (cases "n < 16")
    case True
    then show ?thesis using hex_run_digit [of n ys 0 any] by (simp add: hex_str.simps [of n])
  next
    case False
    have v: "16 * of_nat (n div 16) + of_nat (n mod 16) = (of_nat n :: u32)"
      by (metis of_nat_add of_nat_mult of_nat_numeral mult_div_mod_eq)
    have "hex_run (hex_str n @ ys) 0 any = hex_run (hex_str (n div 16) @ (digit_char (n mod 16) # ys)) 0 any"
      using False by (simp add: hex_str.simps [of n])
    also have "\<dots> = hex_run (digit_char (n mod 16) # ys) (of_nat (n div 16)) True"
      by (rule "1.IH" [OF False])
    also have "\<dots> = hex_run ys (of_nat n) True"
      using hex_run_digit [of "n mod 16"] v by simp
    finally show ?thesis .
  qed
qed

lemma zero_char: "digit_char 0 = CHR ''0''"
  by code_simp

lemma hex_run_zeros: "hex_run (replicate k (CHR ''0'') @ ys) 0 any = hex_run ys 0 (any \<or> 0 < k)"
proof (induction k arbitrary: any)
  case 0
  then show ?case by simp
next
  case (Suc k)
  have "hex_run (replicate (Suc k) (CHR ''0'') @ ys) 0 any = hex_run (replicate k (CHR ''0'') @ ys) 0 True"
    by (simp only: replicate_Suc append_Cons zero_char [symmetric] hex_run_digit [OF zero_less_numeral])
      simp
  with Suc.IH [of True] show ?case by (simp only: simp_thms zero_less_Suc)
qed

lemma parse_hex_number:
  assumes "rest = [] \<or> hex_nibble (hd rest) = None"
  shows "parse_hex_u32 (pad_left (CHR ''0'') k (hex_str n) @ rest) = Some (of_nat n, rest)"
proof -
  have "hex_run rest v True = (v, True, rest)" for v using assms by (cases rest) auto
  then show ?thesis
    by (simp add: parse_hex_u32_def pad_left_def hex_run_zeros hex_run_hex_str)
qed

section \<open>Framing\<close>

lemma skip_arrived [simp]:
  "skip_to_start (map Arrived (c # cs) @ es) =
     (if c = CHR ''$'' then (True, map Arrived cs @ es) else skip_to_start (map Arrived cs @ es))"
  by (subst skip_to_start.simps) simp

lemma body_arrived:
  assumes "CHR ''#'' \<notin> set cs" "length raw + length cs < GDB_PACKET_MAX"
  shows "take_body (map Arrived (cs @ CHR ''#'' # ds) @ es) raw = (Some (raw @ cs), map Arrived ds @ es)"
  using assms
proof (induction cs arbitrary: raw)
  case Nil
  then show ?case by (subst take_body.simps) simp
next
  case (Cons c cs)
  then have "c \<noteq> CHR ''#''" by auto
  with Cons show ?case by (subst take_body.simps) simp
qed

lemma double_nibble: "nib < 16 \<Longrightarrow> push_bit 4 r OR of_nat nib = 16 * r + (of_nat nib :: u8)"
proof -
  assume "nib < 16"
  then have "take_bit 4 nib = nib" by (simp add: take_bit_eq_mod)
  then have b: "bit nib n \<Longrightarrow> n < 4" for n
    by (metis bit_take_bit_iff)
  have "push_bit 4 r + of_nat nib = push_bit 4 r OR (of_nat nib :: u8)"
    by (rule disjunctive_add_eq_or, rule bit_word_eqI) (auto simp: bit_simps dest: b)
  moreover have "push_bit 4 r = 16 * r" by (simp add: push_bit_eq_mult)
  ultimately show ?thesis by simp
qed

lemma checksum_arrived:
  "take_checksum 2 (map Arrived (format_hex_byte b @ ds) @ es) 0 = (Some b, map Arrived ds @ es)"
proof -
  have v: "16 * of_nat (unat (drop_bit 4 b)) + of_nat (unat (b AND 0xf)) = b"
    using halves(3) [of b] by (metis of_nat_add of_nat_mult of_nat_numeral of_nat_unat ucast_id)
  have "push_bit 4 (push_bit 4 (0 :: u8) OR of_nat (unat (drop_bit 4 b))) OR of_nat (unat (b AND 0xf)) = b"
    unfolding double_nibble [OF halves(1)] double_nibble [OF halves(2)] using v by simp
  then show ?thesis
    using halves [of b] by (simp add: format_hex_byte_def take_checksum.simps numeral_2_eq_2)
qed

lemma flip32_flip32 [simp]: "flip32 (flip32 c) = c"
  by (simp add: flip32_def xor.assoc)

lemma flip_table:
  "list_all (\<lambda>c. flip32 c \<noteq> CHR ''#'' \<and> byte (CHR 0x7d) + byte (flip32 c) = byte c + 0x5d) ''$#}*''"
  by code_simp

lemma flip_special:
  assumes "special c"
  shows "flip32 c \<noteq> CHR ''#''" "byte (CHR 0x7d) + byte (flip32 c) = byte c + 0x5d"
  using assms flip_table by (auto simp: special_def)

lemma unescaped_escaped [simp]: "unescaped (escaped p) = Some p"
proof (induction p)
  case (Cons c p)
  have "special (CHR 0x7d)" by (simp add: special_def)
  with Cons show ?case by (cases "special c") auto
qed simp

lemma special_chars: "special c \<longleftrightarrow> c \<in> set ''$#}*''"
  by (auto simp: special_def)

lemma hash_escaped: "CHR ''#'' \<notin> set (escaped p)"
proof (induction p)
  case (Cons c p)
  have "special (CHR ''#'')" by (simp add: special_def)
  with Cons flip_special [of c] show ?case by (cases "special c") auto
qed simp

text \<open>Each escape moves the sum over the bytes on the wire by 0x5d modulo 256.\<close>

lemma checksum_escaped: "checksum (escaped p) = checksum p + 0x5d * of_nat (length (filter special p))"
proof (induction p)
  case Nil
  then show ?case by (simp add: checksum_def)
next
  case (Cons c p)
  show ?case
  proof (cases "special c")
    case True
    have "checksum (escaped (c # p)) = (byte (CHR 0x7d) + byte (flip32 c)) + checksum (escaped p)"
      using True by (simp add: checksum_def)
    also have "\<dots> = (byte c + 0x5d) + checksum (escaped p)" by (simp only: flip_special(2) [OF True])
    finally show ?thesis using Cons True by (simp add: checksum_def algebra_simps)
  qed (use Cons in \<open>simp add: checksum_def\<close>)
qed

lemma odd_shift: "0x5d * (of_nat n :: u8) = 0 \<longleftrightarrow> 256 dvd n"
proof
  assume "0x5d * (of_nat n :: u8) = 0"
  then have "0xf5 * (0x5d * (of_nat n :: u8)) = 0" by (simp only: mult_zero_right)
  moreover have "0xf5 * (0x5d * (of_nat n :: u8)) = (0xf5 * 0x5d) * of_nat n" by (simp only: mult.assoc)
  moreover have "(0xf5 * 0x5d :: u8) = 1" by simp
  ultimately have "(of_nat n :: u8) = 0" by (simp only: mult_1)
  then show "256 dvd n" by (simp add: word_of_nat_eq_0_iff)
next
  assume "256 dvd n"
  then have "(of_nat n :: u8) = 0" by (simp add: word_of_nat_eq_0_iff)
  then show "0x5d * (of_nat n :: u8) = 0" by simp
qed

lemma receive_framed:
  assumes "length (escaped p) < GDB_PACKET_MAX"
  shows "receive (map Arrived (framed p) @ es) GDB_PACKET_MAX =
     (if 256 dvd length (filter special p) then (Some p, ''+'', es) else (None, ''-'', es))"
proof -
  have len: "length p \<le> length (escaped p)"
    by (induction p) auto
  have start: "skip_to_start (map Arrived (framed p) @ es) =
      (True, map Arrived (escaped p @ CHR ''#'' # format_hex_byte (checksum p)) @ es)"
    unfolding framed_def by (subst skip_to_start.simps) simp
  have body: "take_body (map Arrived (escaped p @ CHR ''#'' # format_hex_byte (checksum p)) @ es) [] =
      (Some (escaped p), map Arrived (format_hex_byte (checksum p)) @ es)"
    using body_arrived [OF hash_escaped [of p], of "[]"] assms by simp
  have sum: "take_checksum 2 (map Arrived (format_hex_byte (checksum p)) @ es) 0 = (Some (checksum p), es)"
    using checksum_arrived [of "checksum p" "[]"] by simp
  have "checksum (escaped p) = checksum p \<longleftrightarrow> 256 dvd length (filter special p)"
    unfolding checksum_escaped odd_shift [symmetric] by simp
  then show ?thesis
    using start body sum len assms by (simp add: receive_def GDB_PACKET_MAX_def)
qed

section \<open>Interrupted calls\<close>

definition undisturbed :: "recv_event list \<Rightarrow> recv_event list" where
  "undisturbed es = filter (\<lambda>e. e \<noteq> Interrupted) es"

lemma byte_undisturbed: "gdb_recv_byte (undisturbed es) = apsnd undisturbed (gdb_recv_byte es)"
  by (induction es rule: gdb_recv_byte.induct) (simp_all add: undisturbed_def)

lemma skip_undisturbed: "skip_to_start (undisturbed es) = apsnd undisturbed (skip_to_start es)"
proof (induction es rule: skip_to_start.induct)
  case (1 es)
  show ?case
    by (subst (1 2) skip_to_start.simps)
      (auto simp: byte_undisturbed 1 split: prod.split option.split)
qed

lemma body_undisturbed: "take_body (undisturbed es) raw = apsnd undisturbed (take_body es raw)"
proof (induction es raw rule: take_body.induct)
  case (1 es raw)
  have IH: "take_body (undisturbed es') (if length raw + 1 < GDB_PACKET_MAX then raw @ [c] else raw) =
      apsnd undisturbed (take_body es' (if length raw + 1 < GDB_PACKET_MAX then raw @ [c] else raw))"
    if "gdb_recv_byte es = (Some c, es')" "c \<noteq> CHR ''#''" for c es'
    using 1 [OF sym [OF that(1)] refl that(2)] .
  show ?case
    by (subst (1 2) take_body.simps)
      (use IH in \<open>auto simp: byte_undisturbed split: prod.split option.split\<close>)
qed

lemma checksum_undisturbed: "take_checksum n (undisturbed es) r = apsnd undisturbed (take_checksum n es r)"
  by (induction n arbitrary: es r)
    (auto simp: take_checksum.simps byte_undisturbed split: prod.split option.split)

lemma receive_undisturbed:
  "receive (undisturbed es) n =
     (case receive es n of (r, ack, rest) \<Rightarrow> (r, ack, undisturbed rest))"
  by (auto simp: receive_def skip_undisturbed body_undisturbed checksum_undisturbed
      split: prod.split option.split bool.split)

section \<open>Documents in parts\<close>

text \<open>A client that asks for one part of a document after the other.\<close>

fun gather :: "nat \<Rightarrow> string \<Rightarrow> nat \<Rightarrow> nat \<Rightarrow> string option" where
  "gather 0 data offset requested = None"
| "gather (Suc n) data offset requested =
     (case qxfer_payload data offset requested of
        [] \<Rightarrow> None
      | c # part \<Rightarrow>
          if c = CHR ''l'' then Some part
          else map_option ((@) part) (gather n data (offset + length part) requested))"

lemma gather_all:
  assumes "0 < requested" "length data - offset < n"
  shows "gather n data offset requested = Some (drop offset data)"
  using assms(2)
proof (induction n arbitrary: offset)
  case (Suc n)
  define room where "room = (if GDB_PACKET_MAX - 1 < requested then GDB_PACKET_MAX - 1 else requested)"
  define count where "count = (if room < length data - offset then room else length data - offset)"
  have room: "0 < room" using assms(1) by (simp add: room_def GDB_PACKET_MAX_def)
  have payload: "qxfer_payload data offset requested =
      (if length data \<le> offset then ''l'' else if count = 0 then ''l''
       else (if length data \<le> offset + count then CHR ''l'' else CHR ''m'') # take count (drop offset data))"
    unfolding qxfer_payload_def Let_def room_def [symmetric] count_def [symmetric] ..
  show ?case
  proof (cases "length data \<le> offset + count")
    case True
    then have "take count (drop offset data) = drop offset data" by simp
    moreover have "qxfer_payload data offset requested = CHR ''l'' # take count (drop offset data)"
      using True by (simp add: payload)
    ultimately show ?thesis by simp
  next
    case False
    then have c: "count = room" by (auto simp: count_def split: if_splits)
    have "gather n data (offset + room) requested = Some (drop (offset + room) data)"
      using Suc False room c by (intro Suc.IH) auto
    moreover have "take room (drop offset data) @ drop (offset + room) data = drop offset data"
      by (metis append_take_drop_id drop_drop add.commute)
    moreover have "qxfer_payload data offset requested = CHR ''m'' # take room (drop offset data)"
      using False room c by (simp add: payload)
    moreover have "length (take room (drop offset data)) = room" using False c by simp
    ultimately show ?thesis by simp
  qed
qed simp

lemma target_xml_plain: "length build_target_xml < 2048 \<and> filter special build_target_xml = []"
  by code_simp
lemma plain_digits: "list_all (\<lambda>n. \<not> special (digit_char n)) [0..<16]"
  by code_simp

lemma plain_digit [simp]: "n < 16 \<Longrightarrow> \<not> special (digit_char n)"
  using plain_digits by (simp add: list_all_iff del: upt_rec_numeral)

lemma plain_hex [simp]: "filter special (hex_str n) = []"
  by (induction n rule: hex_str.induct) (subst hex_str.simps, simp)

lemma plain_dec [simp]: "filter special (dec_str n) = []"
  by (induction n rule: dec_str.induct) (subst dec_str.simps, simp)

lemma length_hex: "n < 16 ^ Suc k \<Longrightarrow> length (hex_str n) \<le> Suc k"
proof (induction k arbitrary: n)
  case (Suc k)
  then have "n div 16 < 16 ^ Suc k" by (simp add: less_mult_imp_div_less)
  from Suc.IH [OF this] show ?case by (subst hex_str.simps) simp
qed (subst hex_str.simps, simp)

lemma length_dec: "n < 10 ^ Suc k \<Longrightarrow> length (dec_str n) \<le> Suc k"
proof (induction k arbitrary: n)
  case (Suc k)
  then have "n div 10 < 10 ^ Suc k" by (simp add: less_mult_imp_div_less)
  from Suc.IH [OF this] show ?case by (subst dec_str.simps) simp
qed (subst dec_str.simps, simp)

lemma length_word_text:
  "length (hex_str (unat (v :: u32))) \<le> 8" "length (dec_str (unat v)) \<le> 10"
proof -
  have "unat v < 4294967296" using unsigned_less [of v] by simp
  then show "length (hex_str (unat v)) \<le> 8" "length (dec_str (unat v)) \<le> 10"
    using length_hex [of "unat v" 7] length_dec [of "unat v" 9] by simp_all
qed

lemma plain_pad [simp]: "\<not> special c \<Longrightarrow> filter special (pad_left c n s) = filter special s"
  by (simp add: pad_left_def)

lemma memory_map_plain:
  "length (build_memory_map c) < 2048 \<and> filter special (build_memory_map c) = []"
proof
  note l = length_word_text [of "flash_base c"] length_word_text [of "flash_size c"]
    length_word_text [of "ram_offset c"] length_word_text [of "ram_size c"]
    length_word_text [of "erase_size c"] length_word_text [of 4096]
  show "length (build_memory_map c) < 2048"
    using l by (simp add: build_memory_map_def Let_def quoted_def hex8_def pad_left_def GDB_PACKET_MAX_def)
  show "filter special (build_memory_map c) = []"
    by (simp add: build_memory_map_def Let_def quoted_def hex8_def special_def)
qed

lemma escaped_plain: "filter special p = [] \<Longrightarrow> escaped p = p"
  by (induction p) (auto split: if_splits)

lemma payload_plain:
  assumes "filter special doc = []" "length doc < 2048"
  shows "filter special (qxfer_payload doc offset requested) = []"
    and "length (qxfer_payload doc offset requested) \<le> 2048"
proof -
  have sub: "set (take k (drop offset doc)) \<subseteq> set doc" for k
    by (meson order_trans set_drop_subset set_take_subset)
  have "\<not> special (CHR ''l'')" "\<not> special (CHR ''m'')" by (simp_all add: special_def)
  with assms sub set_drop_subset [of offset doc] show "filter special (qxfer_payload doc offset requested) = []"
    by (auto simp: qxfer_payload_def Let_def filter_empty_conv)
  show "length (qxfer_payload doc offset requested) \<le> 2048"
    using assms(2) by (auto simp: qxfer_payload_def Let_def)
qed

section \<open>Properties of the text side\<close>

text \<open>C31: a packet as the server frames it is taken by the server's own receive routine exactly
  when the number of escaped characters is a multiple of 256, and is otherwise answered with
  a negative acknowledgement: the checksum is summed over the unescaped payload on one side
  and over the escaped text on the other.\<close>

theorem frame_accepted:
  assumes "length (escaped p) < GDB_PACKET_MAX"
  shows "receive (map Arrived (framed p) @ es) GDB_PACKET_MAX =
     (if 256 dvd length (filter special p) then (Some p, ''+'', es) else (None, ''-'', es))"
  using assms by (rule receive_framed)

theorem frame_accepted_witness:
  "receive (map Arrived (framed ''OK'') @ []) GDB_PACKET_MAX = (Some ''OK'', ''+'', []) \<and>
   receive (map Arrived (framed ''}'') @ []) GDB_PACKET_MAX = (None, ''-'', [])"
  using frame_accepted [of "''OK''" "[]"] frame_accepted [of "''}''" "[]"]
  by (simp add: special_def GDB_PACKET_MAX_def)

text \<open>C32: receiving a packet gives the same packet, the same acknowledgement and the same rest of
  the stream whether or not reads of the socket are interrupted.\<close>

theorem interruptions_unseen:
  "receive (undisturbed es) n = (case receive es n of (r, ack, rest) \<Rightarrow> (r, ack, undisturbed rest))"
  by (rule receive_undisturbed)

text \<open>C33: a debugger that asks for the target description or the memory map of a part in pieces
  of any positive size puts the whole document back together, and every piece survives the
  framing.\<close>

theorem documents_reassemble:
  assumes "0 < requested" "doc = build_target_xml \<or> doc = build_memory_map c"
  shows "gather (Suc (length doc)) doc 0 requested = Some doc \<and>
     receive (map Arrived (framed (qxfer_payload doc offset requested)) @ es) GDB_PACKET_MAX =
       (Some (qxfer_payload doc offset requested), ''+'', es)"
proof -
  have doc: "filter special doc = []" "length doc < 2048"
    using assms(2) target_xml_plain memory_map_plain [of c] by auto
  note pl = payload_plain [OF doc, of offset requested]
  have "gather (Suc (length doc)) doc 0 requested = Some doc"
    using gather_all [OF assms(1), of doc 0 "Suc (length doc)"] by simp
  then show ?thesis
    using receive_framed [of "qxfer_payload doc offset requested" es] pl escaped_plain [OF pl(1)]
    by (simp add: GDB_PACKET_MAX_def)
qed

theorem documents_reassemble_witness:
  "gather (Suc (length build_target_xml)) build_target_xml 0 100 = Some build_target_xml"
  using documents_reassemble [of 100 build_target_xml "hd chips" 0 "[]"] by simp

theorem hex_text_roundtrip:
  assumes "length cs < out_max"
  shows "gdb_decode_hex_string (concat (map (\<lambda>c. format_hex_byte (byte c)) cs)) out_max = Some cs \<and>
     parse_hex_bytes (concat (map format_hex_byte bs) @ rest) (length bs) = Some bs \<and>
     parse_hex_bytes (format_hex_u32_le v @ rest) 4 = Some (le_bytes v)"
proof -
  have "format_hex_u32_le v = concat (map format_hex_byte (le_bytes v))"
    by (simp add: format_hex_u32_le_def le_bytes_def byte_of_def)
  then show ?thesis
    using decode_hex_text [OF assms] parse_format_bytes [of bs rest] parse_format_bytes [of "le_bytes v" rest]
    by simp
qed

theorem hex_text_roundtrip_witness:
  "gdb_decode_hex_string (concat (map (\<lambda>c. format_hex_byte (byte c)) ''halt'')) 256 = Some ''halt''"
  using hex_text_roundtrip [of "''halt''" 256 "[]" "[]" 0] by simp

end
