(* ===== verification/Linke.thy ===== *)
theory Linke
  imports Target
begin

text \<open>
  The request layer of \<^verbatim>\<open>src/linke.c\<close>: framing of requests, the classification of replies,
  the control commands, chip detection, the interface setting with its cache, and access to
  debug-module registers.  The transport is the vtable of \<^verbatim>\<open>src/transport.h\<close>, a parameter
  held in the open link; what lies behind it is the \<open>world\<close>.  Text written to stderr by
  \<^verbatim>\<open>wl_error\<close>, \<^verbatim>\<open>wl_warn\<close> and \<^verbatim>\<open>wl_debug\<close> is not part of the state.
\<close>

section \<open>Status codes\<close>

datatype wl_status =
    WL_OK
  | WL_ERR_USAGE
  | WL_ERR_NO_DEVICE
  | WL_ERR_ACCESS
  | WL_ERR_USB
  | WL_ERR_IO
  | WL_ERR_TARGET
  | WL_ERR_VERIFY
  | WL_ERR_NOT_IMPLEMENTED

fun wl_status_str :: "wl_status \<Rightarrow> string" where
  "wl_status_str WL_OK = ''ok''"
| "wl_status_str WL_ERR_USAGE = ''bad command line''"
| "wl_status_str WL_ERR_NO_DEVICE = ''no programmer found''"
| "wl_status_str WL_ERR_ACCESS = ''programmer not accessible''"
| "wl_status_str WL_ERR_USB = ''USB error''"
| "wl_status_str WL_ERR_IO = ''programmer error''"
| "wl_status_str WL_ERR_TARGET = ''target error''"
| "wl_status_str WL_ERR_VERIFY = ''verification failed''"
| "wl_status_str WL_ERR_NOT_IMPLEMENTED = ''not implemented yet''"

text \<open>The status a function returns, for a caller that looks at nothing else.\<close>

fun status_of :: "wl_status + 'a \<Rightarrow> wl_status" where
  "status_of (Inl e) = e"
| "status_of (Inr x) = WL_OK"

section \<open>The link\<close>

datatype wl_usb_mode = WL_USB_MODE_RV | WL_USB_MODE_ARM | WL_USB_MODE_IAP | WL_USB_MODE_UNKNOWN

record wl_usb_info_t =
  ui_mode :: wl_usb_mode
  ui_vid :: u16
  ui_pid :: u16
  ui_bus :: u8
  ui_address :: u8
  ui_accessible :: bool
  ui_serial :: string
  ui_product :: string

text \<open>
  The two functions of the transport get the private context, the bytes and the world;
  \<open>tr_command\<close> also gets the size of the reply buffer, and answers with its return code and the
  bytes it has put into that buffer.
\<close>

record ('x, 'w) wl_transport =
  tr_command :: "'x option \<Rightarrow> u8 list \<Rightarrow> nat \<Rightarrow> 'w \<Rightarrow> (int \<times> u8 list) \<times> 'w"
  tr_bulk_out :: "'x option \<Rightarrow> u8 list \<Rightarrow> 'w \<Rightarrow> int \<times> 'w"

record ('x, 'w) wl_linke_t =
  lk_transport :: "('x, 'w) wl_transport option"
  lk_ctx :: "'x option"
  lk_info :: wl_usb_info_t
  lk_open :: bool
  lk_chip_id :: u8
  lk_configured :: bool

text \<open>
  The state of a session: the link, what is behind its transport, and the calls made through the
  progress callbacks so far, in order, each with its two arguments.  A callback pointer is an
  option; a caller has at most two of them.
\<close>

datatype progress_fn = Write_progress | Verify_progress

record ('x, 'w) sess =
  link :: "('x, 'w) wl_linke_t"
  world :: 'w
  calls :: "(progress_fn \<times> nat \<times> nat) list"

lemma world_inject [simp]: "s\<lparr>world := a\<rparr> = s\<lparr>world := b\<rparr> \<longleftrightarrow> a = b"
  by (cases s) simp

type_synonym ('x, 'w, 'a) lprog = "(('x, 'w) sess, wl_status, 'a) prog"

definition no_usb_info :: wl_usb_info_t where
  "no_usb_info =
     \<lparr>ui_mode = WL_USB_MODE_RV, ui_vid = 0, ui_pid = 0, ui_bus = 0, ui_address = 0,
      ui_accessible = False, ui_serial = [], ui_product = []\<rparr>"

definition wl_linke_attach_transport :: "('x, 'w) wl_transport \<Rightarrow> 'x option \<Rightarrow> ('x, 'w) wl_linke_t" where
  "wl_linke_attach_transport tr cx =
     \<lparr>lk_transport = Some tr, lk_ctx = cx, lk_info = no_usb_info, lk_open = True,
      lk_chip_id = 0, lk_configured = False\<rparr>"

section \<open>Requests and replies\<close>

definition WL_CMD_REG :: u8 where "WL_CMD_REG = 0x08"
definition WL_CMD_IFACE :: u8 where "WL_CMD_IFACE = 0x0c"
definition WL_CMD_CONTROL :: u8 where "WL_CMD_CONTROL = 0x0d"
definition WL_CMD_RUN :: u8 where "WL_CMD_RUN = 0x0b"
definition WL_CTL_STATUS :: u8 where "WL_CTL_STATUS = 0x01"
definition WL_CTL_ATTACH :: u8 where "WL_CTL_ATTACH = 0x02"
definition WL_CTL_RESET_LOW :: u8 where "WL_CTL_RESET_LOW = 0x13"
definition WL_CTL_RELEASE :: u8 where "WL_CTL_RELEASE = 0xff"
definition WL_REG_OP_READ :: u8 where "WL_REG_OP_READ = 0x01"
definition WL_REG_OP_WRITE :: u8 where "WL_REG_OP_WRITE = 0x02"
definition WL_REPLY_HEADER :: u8 where "WL_REPLY_HEADER = 0x82"
definition WL_REPLY_MAX :: nat where "WL_REPLY_MAX = 64"

lemmas wire_consts =
  WL_CMD_REG_def WL_CMD_IFACE_def WL_CMD_CONTROL_def WL_CMD_RUN_def WL_CTL_STATUS_def
  WL_CTL_ATTACH_def WL_CTL_RESET_LOW_def WL_CTL_RELEASE_def WL_REG_OP_READ_def
  WL_REG_OP_WRITE_def WL_REPLY_HEADER_def WL_REPLY_MAX_def

text \<open>A reply buffer of size 0 stands for a \<^verbatim>\<open>NULL\<close> one, replaced by the local scratch buffer.\<close>

definition wl_linke_command :: "u8 list \<Rightarrow> nat \<Rightarrow> ('x, 'w, u8 list) lprog" where
  "wl_linke_command request reply_max s =
     (case lk_transport (link s) of
        None \<Rightarrow> Some (Inl WL_ERR_USB, s)
      | Some tr \<Rightarrow>
          if \<not> lk_open (link s) then Some (Inl WL_ERR_USB, s)
          else
            (let mx = (if reply_max = 0 then WL_REPLY_MAX else reply_max);
                 ((rc, reply), w) = tr_command tr (lk_ctx (link s)) request mx (world s)
             in Some (if rc < 0 then Inl WL_ERR_USB else Inr reply, s\<lparr>world := w\<rparr>)))"

definition reply_ok :: "u8 list \<Rightarrow> bool" where
  "reply_ok reply =
     (if length reply = 0 then False
      else if reply ! 0 \<noteq> WL_REPLY_HEADER then False
      else if length reply = 9 \<and> (reply ! 8 = 0x02 \<or> reply ! 8 = 0x03) then False
      else True)"

definition send_control :: "u8 \<Rightarrow> u8 \<Rightarrow> nat \<Rightarrow> ('x, 'w, u8 list) lprog" where
  "send_control cmd argument reply_max =
     wl_linke_command [0x81, cmd, 0x01, argument] reply_max"

section \<open>Halt, resume, reset\<close>

definition wl_linke_halt :: "('x, 'w, unit) lprog" where
  "wl_linke_halt = andDo (send_control WL_CMD_CONTROL WL_CTL_ATTACH 0) (ret ())"

definition wl_linke_resume :: "('x, 'w, unit) lprog" where
  "wl_linke_resume =
     andDo (send_control WL_CMD_RUN 0x01 WL_REPLY_MAX)
    (andDo (send_control WL_CMD_CONTROL WL_CTL_ATTACH WL_REPLY_MAX)
    (andDo (send_control WL_CMD_CONTROL WL_CTL_RELEASE WL_REPLY_MAX)
    (ret ())))"

definition wl_linke_reset :: "('x, 'w, unit) lprog" where
  "wl_linke_reset =
     andDo wl_linke_halt
    (andDo (send_control WL_CMD_CONTROL WL_CTL_RESET_LOW WL_REPLY_MAX)
     wl_linke_resume)"

definition wl_linke_unbrick :: "('x, 'w, unit) lprog" where
  "wl_linke_unbrick = wl_linke_reset"

section \<open>Version\<close>

definition programmer_name :: "nat \<Rightarrow> string" where
  "programmer_name ty =
     (if ty = 1 then ''WCH-Link (CH549)''
      else if ty = 2 then ''WCH-Link (CH32V307)''
      else if ty = 3 then ''WCH-Link (CH32V203)''
      else if ty = 4 then ''WCH-LinkB''
      else if ty = 5 then ''WCH-LinkW''
      else if ty = 18 then ''WCH-LinkE''
      else ''WCH programmer'')"

definition wl_linke_get_version :: "nat \<Rightarrow> ('x, 'w, string) lprog" where
  "wl_linke_get_version out_len =
     (if out_len = 0 then fail WL_ERR_USAGE
      else andThen (send_control WL_CMD_CONTROL WL_CTL_STATUS WL_REPLY_MAX) (\<lambda>reply.
        if length reply < 6 then fail WL_ERR_IO
        else ret (take (out_len - 1)
               (programmer_name (unat (reply ! 5)) @ '' '' @ dec_str (unat (reply ! 3)) @ ''.'' @
                dec_str (unat (reply ! 4))))))"

section \<open>Interface setting and chip detection\<close>

definition set_interface_raw :: "u8 \<Rightarrow> u8 \<Rightarrow> ('x, 'w, unit) lprog" where
  "set_interface_raw family_id speed =
     andThen (wl_linke_command [0x81, WL_CMD_IFACE, 0x02, family_id, speed] WL_REPLY_MAX)
       (\<lambda>reply. if \<not> reply_ok reply then fail WL_ERR_TARGET else ret ())"

definition identify_chip_once :: "('x, 'w, wl_chip_t) lprog" where
  "identify_chip_once =
     andDo (set_interface_raw 0x01 0x02)
    (andDo (updates (\<lambda>s. s\<lparr>link := (link s)\<lparr>lk_configured := False\<rparr>\<rparr>))
    (andThen (send_control WL_CMD_CONTROL WL_CTL_ATTACH WL_REPLY_MAX) (\<lambda>reply.
       if length reply < 6 \<or> reply ! 0 \<noteq> WL_REPLY_HEADER \<or> reply ! 1 \<noteq> WL_CMD_CONTROL
       then fail WL_ERR_TARGET
       else
         (let family_id = reply ! 3;
              mid = push_bit 8 (ucast (reply ! 4)) OR ucast (reply ! 5)
          in case wl_chip_by_detect_id family_id mid of
               None \<Rightarrow> fail WL_ERR_TARGET
             | Some found \<Rightarrow> ret found))))"

definition wl_linke_identify_chip :: "('x, 'w, wl_chip_t) lprog" where
  "wl_linke_identify_chip =
     attempt identify_chip_once (\<lambda>r. case r of
         Inr c \<Rightarrow> ret c
       | Inl e \<Rightarrow>
           andDo (ignoring (send_control WL_CMD_RUN 0x01 0))
          (andDo (ignoring (send_control WL_CMD_CONTROL WL_CTL_RELEASE 0))
           identify_chip_once))"

definition wl_linke_set_interface :: "wl_chip_t option \<Rightarrow> ('x, 'w, unit) lprog" where
  "wl_linke_set_interface chip =
     (case chip of
        None \<Rightarrow> fail WL_ERR_USAGE
      | Some c \<Rightarrow>
          andThen (reads link) (\<lambda>l.
            if lk_configured l \<and> lk_chip_id l = linke_id c then ret ()
            else
              andDo (set_interface_raw (linke_id c) (interface_speed c))
                (updates (\<lambda>s. s\<lparr>link := (link s)\<lparr>lk_chip_id := linke_id c, lk_configured := True\<rparr>\<rparr>))))"

section \<open>Debug-module registers\<close>

definition reg_request :: "u8 \<Rightarrow> u32 \<Rightarrow> u8 \<Rightarrow> u8 list" where
  "reg_request reg value operation =
     [0x81, WL_CMD_REG, 0x06, reg, byte_of 3 value, byte_of 2 value, byte_of 1 value,
      byte_of 0 value, operation]"

definition reg_access :: "u8 \<Rightarrow> u32 \<Rightarrow> u8 \<Rightarrow> ('x, 'w, u32) lprog" where
  "reg_access reg value operation =
     andThen (wl_linke_command (reg_request reg value operation) WL_REPLY_MAX) (\<lambda>reply.
       if length reply \<noteq> 9 then fail WL_ERR_TARGET
       else if \<not> reply_ok reply then fail WL_ERR_TARGET
       else ret (word_of (reply ! 7) (reply ! 6) (reply ! 5) (reply ! 4)))"

definition wl_linke_dmi_read :: "u8 \<Rightarrow> ('x, 'w, u32) lprog" where
  "wl_linke_dmi_read reg = reg_access reg 0 WL_REG_OP_READ"

definition wl_linke_dmi_write :: "u8 \<Rightarrow> u32 \<Rightarrow> ('x, 'w, unit) lprog" where
  "wl_linke_dmi_write reg value = andDo (reg_access reg value WL_REG_OP_WRITE) (ret ())"

section \<open>Detach\<close>

definition wl_linke_detach :: "('x, 'w, unit) lprog" where
  "wl_linke_detach =
     andThen (reads link) (\<lambda>l.
       andDo (if lk_open l \<and> lk_transport l \<noteq> None
              then ignoring (send_control WL_CMD_CONTROL WL_CTL_RELEASE WL_REPLY_MAX)
              else ret ())
         (updates (\<lambda>s. s\<lparr>link := (link s)\<lparr>lk_open := False, lk_transport := None, lk_ctx := None\<rparr>\<rparr>)))"

section \<open>What every request leaves alone\<close>

text \<open>
  No request changes which programmer the link talks to, and requests reach what is behind the
  transport through the transport only: \<open>served L w w'\<close> says that commands sent over the
  transport of \<open>L\<close> lead from \<open>w\<close> to \<open>w'\<close>.
\<close>

inductive served :: "('x, 'w) wl_linke_t \<Rightarrow> 'w \<Rightarrow> 'w \<Rightarrow> bool" for L w0 where
  served_start: "served L w0 w0"
| served_command:
    "served L w0 w \<Longrightarrow> lk_transport L = Some tr \<Longrightarrow> tr_command tr (lk_ctx L) request mx w = (answer, w') \<Longrightarrow>
       served L w0 w'"

declare served_start [simp, intro]

text \<open>What a link and the world it was opened in fix for the rest of a session.\<close>

type_synonym ('x, 'w) origin = "('x, 'w) wl_linke_t \<times> 'w"

definition same_link :: "('x, 'w) origin \<Rightarrow> ('x, 'w) sess \<Rightarrow> bool" where
  "same_link L s \<longleftrightarrow>
     lk_transport (link s) = lk_transport (fst L) \<and> lk_ctx (link s) = lk_ctx (fst L) \<and>
     lk_info (link s) = lk_info (fst L) \<and> lk_open (link s) = lk_open (fst L) \<and>
     served (fst L) (snd L) (world s)"

lemma same_link_start [simp]: "same_link (link s, world s) s"
  by (simp add: same_link_def)

lemma safe_command [safe_intro]:
  "H WL_ERR_USB \<Longrightarrow> safe (same_link L) H (wl_linke_command request mx)"
  by (auto simp: safe_def wl_linke_command_def same_link_def Let_def
      intro: served_command split: option.split prod.split)

lemma safe_send_control [safe_intro]:
  "H WL_ERR_USB \<Longrightarrow> safe (same_link L) H (send_control c a mx)"
  unfolding send_control_def by (rule safe_command)

lemma safe_halt [safe_intro]: "H WL_ERR_USB \<Longrightarrow> safe (same_link L) H wl_linke_halt"
  unfolding wl_linke_halt_def by (intro safe_intro)

lemma safe_resume [safe_intro]: "H WL_ERR_USB \<Longrightarrow> safe (same_link L) H wl_linke_resume"
  unfolding wl_linke_resume_def by (intro safe_intro)

lemma safe_reset [safe_intro]: "H WL_ERR_USB \<Longrightarrow> safe (same_link L) H wl_linke_reset"
  unfolding wl_linke_reset_def by (intro safe_intro)

lemma safe_set_interface_raw [safe_intro]:
  "H WL_ERR_USB \<Longrightarrow> H WL_ERR_TARGET \<Longrightarrow> safe (same_link L) H (set_interface_raw f v)"
  unfolding set_interface_raw_def by (intro safe_intro)

lemma safe_set_interface [safe_intro]:
  "H WL_ERR_USB \<Longrightarrow> H WL_ERR_TARGET \<Longrightarrow>
     safe (same_link L) H (wl_linke_set_interface (Some c))"
  unfolding wl_linke_set_interface_def
  by (auto intro!: safe_intro simp: same_link_def)

lemma safe_reg_access [safe_intro]:
  "H WL_ERR_USB \<Longrightarrow> H WL_ERR_TARGET \<Longrightarrow> safe (same_link L) H (reg_access r v op)"
  unfolding reg_access_def by (intro safe_intro)

lemma safe_dmi_read [safe_intro]:
  "H WL_ERR_USB \<Longrightarrow> H WL_ERR_TARGET \<Longrightarrow> safe (same_link L) H (wl_linke_dmi_read r)"
  unfolding wl_linke_dmi_read_def by (intro safe_intro)

lemma safe_dmi_write [safe_intro]:
  "H WL_ERR_USB \<Longrightarrow> H WL_ERR_TARGET \<Longrightarrow> safe (same_link L) H (wl_linke_dmi_write r v)"
  unfolding wl_linke_dmi_write_def by (intro safe_intro)

lemma safe_identify_once [safe_intro]:
  assumes "H WL_ERR_USB" "H WL_ERR_TARGET"
  shows "safe (same_link L) H identify_chip_once"
  unfolding identify_chip_once_def Let_def using assms
  by (auto intro!: safe_intro simp: same_link_def)

lemma safe_identify [safe_intro]:
  assumes "H WL_ERR_USB" "H WL_ERR_TARGET"
  shows "safe (same_link L) H wl_linke_identify_chip"
proof -
  have "safe (same_link L) H (case r of Inr c \<Rightarrow> ret c | Inl e \<Rightarrow>
     andDo (ignoring (send_control WL_CMD_RUN 0x01 0))
    (andDo (ignoring (send_control WL_CMD_CONTROL WL_CTL_RELEASE 0)) identify_chip_once))" for r
    using assms by (auto intro!: safe_intro)
  then show ?thesis
    unfolding wl_linke_identify_chip_def
    using assms by (intro safe_attempt [where H' = H] safe_identify_once) auto
qed

section \<open>The programmer's side of the protocol, as a contract\<close>

text \<open>
  What the request layer relies on in a programmer that works: a control command and an interface
  setting are acknowledged, and once an interface is set (\<open>ready\<close>) a register request is answered
  by a nine-byte reply that carries the register's value.  \<open>ctl\<close>, \<open>iface\<close>, \<open>rd\<close> and \<open>wr\<close> are the
  effects on the world; nothing is said about what they do.
\<close>

locale linke_programmer =
  fixes tr :: "('x, 'w) wl_transport"
    and cx :: "'x option"
    and ready :: "'w \<Rightarrow> bool"
    and ctl :: "u8 \<Rightarrow> u8 \<Rightarrow> 'w \<Rightarrow> 'w"
    and iface :: "u8 \<Rightarrow> u8 \<Rightarrow> 'w \<Rightarrow> 'w"
    and rd :: "u8 \<Rightarrow> 'w \<Rightarrow> u32 \<times> 'w"
    and wr :: "u8 \<Rightarrow> u32 \<Rightarrow> 'w \<Rightarrow> 'w"
  assumes control_law:
      "c \<in> {0x0b, 0x0d} \<Longrightarrow> \<exists>reply. tr_command tr cx [0x81, c, 0x01, a] 64 w = ((0, reply), ctl c a w)"
    and setting_law:
      "\<exists>reply. tr_command tr cx [0x81, 0x0c, 0x02, f, sp] 64 w = ((0, reply), iface f sp w) \<and> reply_ok reply"
    and read_law:
      "ready w \<Longrightarrow> \<exists>st. st \<notin> {2, 3} \<and> tr_command tr cx (reg_request r 0 0x01) 64 w =
         ((0, [0x82, 0x08, 0x06, r] @ be_bytes (fst (rd r w)) @ [st]), snd (rd r w))"
    and write_law:
      "ready w \<Longrightarrow> \<exists>b st. st \<notin> {2, 3} \<and> tr_command tr cx (reg_request r v 0x02) 64 w =
         ((0, [0x82, 0x08, 0x06, r] @ be_bytes b @ [st]), wr r v w)"
    and ready_ctl: "ready w \<Longrightarrow> ready (ctl c a w)"
    and ready_iface: "ready (iface f sp w)"
    and ready_rd: "ready w \<Longrightarrow> ready (snd (rd r w))"
    and ready_wr: "ready w \<Longrightarrow> ready (wr r v w)"
begin

definition plugged :: "('x, 'w) sess \<Rightarrow> bool" where
  "plugged s \<longleftrightarrow> lk_transport (link s) = Some tr \<and> lk_ctx (link s) = cx \<and> lk_open (link s)"

lemma plugged_world [simp]: "plugged (s\<lparr>world := w\<rparr>) = plugged s"
  by (simp add: plugged_def)

lemma plugged_calls [simp]: "plugged (s\<lparr>calls := cs\<rparr>) = plugged s"
  by (simp add: plugged_def)

lemma command_plugged:
  assumes "plugged s" and "tr_command tr cx request 64 (world s) = ((rc, reply), w)"
    and "mx = 0 \<or> mx = 64"
  shows "wl_linke_command request mx s =
     Some (if rc < 0 then Inl WL_ERR_USB else Inr reply, s\<lparr>world := w\<rparr>)"
  using assms by (auto simp: wl_linke_command_def plugged_def WL_REPLY_MAX_def)

lemma control_ok:
  assumes "plugged s" "c \<in> {0x0b, 0x0d}" "mx = 0 \<or> mx = 64"
  shows "\<exists>reply. send_control c a mx s = Some (Inr reply, s\<lparr>world := ctl c a (world s)\<rparr>)"
  using control_law [OF assms(2), of a "world s"] assms
  by (auto simp: send_control_def command_plugged)

lemma halt_ok: "plugged s \<Longrightarrow> wl_linke_halt s = Some (Inr (), s\<lparr>world := ctl 0x0d 0x02 (world s)\<rparr>)"
  using control_ok [of s "0x0d" 0 "0x02"]
  by (auto simp: wl_linke_halt_def run wire_consts)

lemma resume_ok:
  assumes p: "plugged s"
  shows "wl_linke_resume s =
     Some (Inr (), s\<lparr>world := ctl 0x0d 0xff (ctl 0x0d 0x02 (ctl 0x0b 0x01 (world s)))\<rparr>)"
proof -
  let ?s1 = "s\<lparr>world := ctl 0x0b 0x01 (world s)\<rparr>"
  let ?s2 = "?s1\<lparr>world := ctl 0x0d 0x02 (world ?s1)\<rparr>"
  obtain r1 where "send_control 0x0b 0x01 64 s = Some (Inr r1, ?s1)"
    using control_ok [OF p, of "0x0b" 64 "0x01"] by auto
  moreover obtain r2 where "send_control 0x0d 0x02 64 ?s1 = Some (Inr r2, ?s2)"
    using control_ok [of ?s1 "0x0d" 64 "0x02"] p by auto
  moreover obtain r3 where
    "send_control 0x0d 0xff 64 ?s2 = Some (Inr r3, ?s2\<lparr>world := ctl 0x0d 0xff (world ?s2)\<rparr>)"
    using control_ok [of ?s2 "0x0d" 64 "0xff"] p by auto
  ultimately show ?thesis
    by (simp add: wl_linke_resume_def run wire_consts)
qed

lemma reset_ok:
  assumes p: "plugged s"
  shows "wl_linke_reset s =
     Some (Inr (), s\<lparr>world := ctl 0x0d 0xff (ctl 0x0d 0x02 (ctl 0x0b 0x01
        (ctl 0x0d 0x13 (ctl 0x0d 0x02 (world s)))))\<rparr>)"
proof -
  let ?s1 = "s\<lparr>world := ctl 0x0d 0x02 (world s)\<rparr>"
  have "\<exists>r. send_control 0x0d 0x13 64 ?s1 = Some (Inr r, ?s1\<lparr>world := ctl 0x0d 0x13 (world ?s1)\<rparr>)"
    using control_ok [of ?s1 "0x0d" 64 "0x13"] p by auto
  then show ?thesis
    using p by (auto simp: wl_linke_reset_def run halt_ok resume_ok wire_consts)
qed

text \<open>The interface setting: skipped when the link remembers the same part.\<close>

lemma set_interface_ok:
  assumes p: "plugged s"
  shows "wl_linke_set_interface (Some c) s =
     (if lk_configured (link s) \<and> lk_chip_id (link s) = linke_id c then Some (Inr (), s)
      else Some (Inr (), s\<lparr>link := (link s)\<lparr>lk_chip_id := linke_id c, lk_configured := True\<rparr>,
                           world := iface (linke_id c) (interface_speed c) (world s)\<rparr>))"
proof -
  obtain reply where "reply_ok reply"
    "tr_command tr cx [0x81, 0x0c, 0x02, linke_id c, interface_speed c] 64 (world s) =
       ((0, reply), iface (linke_id c) (interface_speed c) (world s))"
    using setting_law by blast
  then have "set_interface_raw (linke_id c) (interface_speed c) s =
      Some (Inr (), s\<lparr>world := iface (linke_id c) (interface_speed c) (world s)\<rparr>)"
    using p by (simp add: set_interface_raw_def run command_plugged wire_consts)
  then show ?thesis
    by (simp add: wl_linke_set_interface_def run)
qed

lemma dmi_read_ok:
  assumes p: "plugged s" and r: "ready (world s)"
  shows "wl_linke_dmi_read reg s =
     Some (Inr (fst (rd reg (world s))), s\<lparr>world := snd (rd reg (world s))\<rparr>)"
proof -
  obtain st where "st \<notin> {2, 3}" "tr_command tr cx (reg_request reg 0 0x01) 64 (world s) =
       ((0, [0x82, 0x08, 0x06, reg] @ be_bytes (fst (rd reg (world s))) @ [st]),
        snd (rd reg (world s)))"
    using read_law [OF r] by blast
  then show ?thesis
    using p by (simp add: wl_linke_dmi_read_def reg_access_def run command_plugged wire_consts
      be_bytes_def reply_ok_def)
qed

lemma dmi_write_ok:
  assumes p: "plugged s" and r: "ready (world s)"
  shows "wl_linke_dmi_write reg v s = Some (Inr (), s\<lparr>world := wr reg v (world s)\<rparr>)"
proof -
  obtain b st where "st \<notin> {2, 3}" "tr_command tr cx (reg_request reg v 0x02) 64 (world s) =
       ((0, [0x82, 0x08, 0x06, reg] @ be_bytes b @ [st]), wr reg v (world s))"
    using write_law [OF r] by blast
  then show ?thesis
    using p by (simp add: wl_linke_dmi_write_def reg_access_def run command_plugged wire_consts
      be_bytes_def reply_ok_def)
qed

end

end
