(* ===== verification/Dm.thy ===== *)
theory Dm
  imports Linke
begin

text \<open>
  The RISC-V debug module layer of \<^verbatim>\<open>src/dm.c\<close>: abstract commands with their polling loop and
  error report, register access, the instruction encoder, the two-instruction programs that
  reach target memory, and the block reader.
\<close>

section \<open>Addresses and command encodings\<close>

definition WL_DMI_DATA0 :: u8 where "WL_DMI_DATA0 = 0x04"
definition WL_DMI_DATA1 :: u8 where "WL_DMI_DATA1 = 0x05"
definition WL_DMI_DMCONTROL :: u8 where "WL_DMI_DMCONTROL = 0x10"
definition WL_DMI_DMSTATUS :: u8 where "WL_DMI_DMSTATUS = 0x11"
definition WL_DMI_DMABSTRACTCS :: u8 where "WL_DMI_DMABSTRACTCS = 0x16"
definition WL_DMI_DMCOMMAND :: u8 where "WL_DMI_DMCOMMAND = 0x17"
definition WL_DMI_DMABSTRACTAUTO :: u8 where "WL_DMI_DMABSTRACTAUTO = 0x18"
definition WL_DMI_DMPROGBUF0 :: u8 where "WL_DMI_DMPROGBUF0 = 0x20"
definition WL_DMI_DCSR :: u32 where "WL_DMI_DCSR = 0x7b0"
definition WL_DMI_DPC :: u32 where "WL_DMI_DPC = 0x7b1"
definition WL_DM_PROGBUF_WORDS :: nat where "WL_DM_PROGBUF_WORDS = 8"

definition WL_DM_CMD_GPR_BASE :: u32 where "WL_DM_CMD_GPR_BASE = 0x00200000"
definition WL_DM_CMD_TRANSFER :: u32 where "WL_DM_CMD_TRANSFER = 0x00020000"
definition WL_DM_CMD_WRITE :: u32 where "WL_DM_CMD_WRITE = 0x00010000"
definition WL_DM_CMD_POSTEXEC :: u32 where "WL_DM_CMD_POSTEXEC = 0x00040000"

definition WL_DM_GPR_REGNO :: "u32 \<Rightarrow> u32" where
  "WL_DM_GPR_REGNO n = 0x1000 + (n AND 0x1f)"

definition WL_DM_ABSTRACTCS_BUSY :: u32 where "WL_DM_ABSTRACTCS_BUSY = 0x1000"
definition WL_DM_ABSTRACTCS_CMDMASK :: u32 where "WL_DM_ABSTRACTCS_CMDMASK = 0x700"
definition WL_DM_ABSTRACTCS_CLEAR :: u32 where "WL_DM_ABSTRACTCS_CLEAR = 0x700"
definition WL_DM_TIMEOUT_US :: nat where "WL_DM_TIMEOUT_US = 2000000"

lemmas dmi_regs =
  WL_DMI_DATA0_def WL_DMI_DATA1_def WL_DMI_DMCONTROL_def WL_DMI_DMSTATUS_def
  WL_DMI_DMABSTRACTCS_def WL_DMI_DMCOMMAND_def WL_DMI_DMABSTRACTAUTO_def WL_DMI_DMPROGBUF0_def
  WL_DMI_DCSR_def WL_DMI_DPC_def

lemmas dm_cmds =
  WL_DM_CMD_GPR_BASE_def WL_DM_CMD_TRANSFER_def WL_DM_CMD_WRITE_def WL_DM_CMD_POSTEXEC_def
  WL_DM_GPR_REGNO_def

lemmas dm_cs_bits =
  WL_DM_ABSTRACTCS_BUSY_def WL_DM_ABSTRACTCS_CMDMASK_def WL_DM_ABSTRACTCS_CLEAR_def

section \<open>Abstract commands\<close>

text \<open>
  The polling loop: \<open>n\<close> spins are left and \<open>cs\<close> is the value of \<^verbatim>\<open>abstractcs\<close>, the last one read
  or the initial 0.
\<close>

fun dm_poll :: "nat \<Rightarrow> u32 \<Rightarrow> ('x, 'w, u32) lprog" where
  "dm_poll 0 cs = ret cs"
| "dm_poll (Suc n) cs =
     andThen (wl_linke_dmi_read WL_DMI_DMABSTRACTCS) (\<lambda>cs'.
       if cs' AND WL_DM_ABSTRACTCS_BUSY = 0 then ret cs' else dm_poll n cs')"

definition dm_wait :: "('x, 'w, unit) lprog" where
  "dm_wait =
     andThen (dm_poll WL_DM_TIMEOUT_US 0) (\<lambda>cs.
       if cs AND WL_DM_ABSTRACTCS_BUSY \<noteq> 0 then fail WL_ERR_TARGET
       else if cs AND WL_DM_ABSTRACTCS_CMDMASK \<noteq> 0 then
         andDo (ignoring (wl_linke_dmi_write WL_DMI_DMABSTRACTCS WL_DM_ABSTRACTCS_CLEAR))
           (fail WL_ERR_TARGET)
       else ret ())"

text \<open>
  \<open>want\<close> says whether the result pointer is not \<^verbatim>\<open>NULL\<close>; without it the value handed back is 0 and
  no caller uses it.
\<close>

definition dm_command :: "u32 \<Rightarrow> u32 \<Rightarrow> bool \<Rightarrow> bool \<Rightarrow> ('x, 'w, u32) lprog" where
  "dm_command cmd value transfer_in want =
     andDo (if transfer_in then wl_linke_dmi_write WL_DMI_DATA0 value else ret ())
    (andDo (wl_linke_dmi_write WL_DMI_DMCOMMAND cmd)
    (andDo dm_wait
       (if want then wl_linke_dmi_read WL_DMI_DATA0 else ret 0)))"

section \<open>Registers\<close>

definition wl_dm_gpr_write :: "u32 \<Rightarrow> u32 \<Rightarrow> ('x, 'w, unit) lprog" where
  "wl_dm_gpr_write reg value =
     (if 31 < reg then fail WL_ERR_USAGE
      else andDo (dm_command (WL_DM_CMD_GPR_BASE OR WL_DM_CMD_TRANSFER OR WL_DM_CMD_WRITE OR
                              WL_DM_GPR_REGNO reg) value True False) (ret ()))"

definition wl_dm_gpr_read :: "u32 \<Rightarrow> ('x, 'w, u32) lprog" where
  "wl_dm_gpr_read reg =
     (if 31 < reg then fail WL_ERR_USAGE
      else dm_command (WL_DM_CMD_GPR_BASE OR WL_DM_CMD_TRANSFER OR WL_DM_GPR_REGNO reg)
             0 False True)"

definition wl_dm_pc_read :: "('x, 'w, u32) lprog" where
  "wl_dm_pc_read = dm_command (WL_DM_CMD_GPR_BASE OR WL_DM_CMD_TRANSFER OR WL_DMI_DPC) 0 False True"

definition wl_dm_pc_write :: "u32 \<Rightarrow> ('x, 'w, unit) lprog" where
  "wl_dm_pc_write value =
     andDo (dm_command (WL_DM_CMD_GPR_BASE OR WL_DM_CMD_TRANSFER OR WL_DM_CMD_WRITE OR WL_DMI_DPC)
              value True False) (ret ())"

definition dm_csr_access :: "u32 \<Rightarrow> u32 \<Rightarrow> bool \<Rightarrow> bool \<Rightarrow> ('x, 'w, u32) lprog" where
  "dm_csr_access regno value wr want =
     (let cmd = WL_DM_CMD_GPR_BASE OR WL_DM_CMD_TRANSFER OR regno;
          cmd' = (if wr then cmd OR WL_DM_CMD_WRITE else cmd)
      in dm_command cmd' value wr want)"

definition wl_dm_dcsr_read :: "('x, 'w, u32) lprog" where
  "wl_dm_dcsr_read = dm_csr_access WL_DMI_DCSR 0 False True"

definition wl_dm_dcsr_write :: "u32 \<Rightarrow> ('x, 'w, unit) lprog" where
  "wl_dm_dcsr_write value = andDo (dm_csr_access WL_DMI_DCSR value True False) (ret ())"

definition wl_dm_csr_read :: "u32 \<Rightarrow> ('x, 'w, u32) lprog" where
  "wl_dm_csr_read csr = dm_csr_access csr 0 False True"

definition wl_dm_csr_write :: "u32 \<Rightarrow> u32 \<Rightarrow> ('x, 'w, unit) lprog" where
  "wl_dm_csr_write csr value = andDo (dm_csr_access csr value True False) (ret ())"

section \<open>The program buffer\<close>

text \<open>The loop that stores the words of a program one after the other.\<close>

fun dm_load_words :: "nat \<Rightarrow> u32 list \<Rightarrow> ('x, 'w, unit) lprog" where
  "dm_load_words i [] = ret ()"
| "dm_load_words i (x # xs) =
     andDo (wl_linke_dmi_write (WL_DMI_DMPROGBUF0 + of_nat i) x) (dm_load_words (Suc i) xs)"

definition dm_load_program :: "u32 list \<Rightarrow> ('x, 'w, unit) lprog" where
  "dm_load_program prog =
     (if WL_DM_PROGBUF_WORDS < length prog then fail WL_ERR_USAGE
      else andDo (wl_linke_dmi_write WL_DMI_DMABSTRACTAUTO 0) (dm_load_words 0 prog))"

definition dm_run :: "u32 list \<Rightarrow> u32 \<Rightarrow> u32 \<Rightarrow> bool \<Rightarrow> ('x, 'w, u32) lprog" where
  "dm_run prog addr value want =
     andDo (dm_load_program prog)
    (andDo (wl_dm_gpr_write 9 addr)
    (andDo (dm_command (WL_DM_CMD_GPR_BASE OR WL_DM_CMD_TRANSFER OR WL_DM_CMD_WRITE OR
                        WL_DM_CMD_POSTEXEC OR WL_DM_GPR_REGNO 8) value True False)
       (if want then wl_dm_gpr_read 8 else ret 0)))"

definition wl_dm_run_write :: "u32 list \<Rightarrow> u32 \<Rightarrow> u32 \<Rightarrow> ('x, 'w, unit) lprog" where
  "wl_dm_run_write prog addr value = andDo (dm_run prog addr value False) (ret ())"

definition wl_dm_run_read :: "u32 list \<Rightarrow> u32 \<Rightarrow> ('x, 'w, u32) lprog" where
  "wl_dm_run_read prog addr = dm_run prog addr 0 True"

section \<open>Instruction encoding\<close>

definition wl_rv_store :: "u32 \<Rightarrow> u32 \<Rightarrow> u32 \<Rightarrow> u32" where
  "wl_rv_store size_log2 src base =
     (let funct3 = size_log2 AND 0x7;
          opcode = 0x23;
          rs2 = push_bit 20 (src AND 0x1f);
          rs1 = push_bit 15 (base AND 0x1f)
      in push_bit 12 funct3 OR rs2 OR rs1 OR opcode)"

definition wl_rv_load :: "u32 \<Rightarrow> u32 \<Rightarrow> u32 \<Rightarrow> u32" where
  "wl_rv_load funct3 dest base =
     (let rs1 = push_bit 15 (base AND 0x1f);
          rd = push_bit 7 (dest AND 0x1f);
          opcode = 0x03
      in push_bit 12 (funct3 AND 0x7) OR rs1 OR rd OR opcode)"

text \<open>The signed immediates are given as their 32-bit two's complement patterns.\<close>

definition wl_rv_addi :: "u32 \<Rightarrow> u32 \<Rightarrow> u32 \<Rightarrow> u32" where
  "wl_rv_addi dest src immediate =
     (let imm = immediate AND 0xfff;
          rs1 = push_bit 15 (src AND 0x1f);
          rd = push_bit 7 (dest AND 0x1f)
      in push_bit 20 imm OR rs1 OR rd OR 0x13)"

definition wl_rv_bne :: "u32 \<Rightarrow> u32 \<Rightarrow> u32 \<Rightarrow> u32" where
  "wl_rv_bne src1 src2 immediate =
     (let imm12 = drop_bit 12 immediate AND 0x1;
          imm11 = drop_bit 11 immediate AND 0x1;
          imm10_5 = drop_bit 5 immediate AND 0x3f;
          imm4_1 = drop_bit 1 immediate AND 0xf;
          rs1 = push_bit 15 (src1 AND 0x1f);
          rs2 = push_bit 20 (src2 AND 0x1f)
      in push_bit 31 imm12 OR push_bit 25 imm10_5 OR rs2 OR rs1 OR push_bit 12 0x1 OR
         push_bit 8 imm4_1 OR push_bit 7 imm11 OR 0x63)"

definition wl_rv_ebreak :: u32 where
  "wl_rv_ebreak = 0x00100073"

section \<open>Memory access\<close>

text \<open>The program tables, indexed by the access size as a log2; the code fills them once.\<close>

definition write_programs :: "u32 \<Rightarrow> u32 list" where
  "write_programs size_log2 = [wl_rv_store size_log2 8 9, wl_rv_ebreak]"

definition read_programs :: "u32 \<Rightarrow> u32 list" where
  "read_programs size_log2 =
     [wl_rv_load (if size_log2 = 2 then 0x2 else if size_log2 = 1 then 0x1 else 0x4) 8 9,
      wl_rv_ebreak]"

definition wl_dm_write32 :: "u32 \<Rightarrow> u32 \<Rightarrow> ('x, 'w, unit) lprog" where
  "wl_dm_write32 addr value = wl_dm_run_write (write_programs 2) addr value"

definition wl_dm_write16 :: "u32 \<Rightarrow> u16 \<Rightarrow> ('x, 'w, unit) lprog" where
  "wl_dm_write16 addr value = wl_dm_run_write (write_programs 1) addr (ucast value)"

definition wl_dm_write8 :: "u32 \<Rightarrow> u8 \<Rightarrow> ('x, 'w, unit) lprog" where
  "wl_dm_write8 addr value = wl_dm_run_write (write_programs 0) addr (ucast value)"

definition dm_read_sized :: "u32 \<Rightarrow> u32 \<Rightarrow> ('x, 'w, u32) lprog" where
  "dm_read_sized size_log2 addr = wl_dm_run_read (read_programs size_log2) addr"

definition wl_dm_read32 :: "u32 \<Rightarrow> ('x, 'w, u32) lprog" where
  "wl_dm_read32 addr = dm_read_sized 2 addr"

definition wl_dm_read16 :: "u32 \<Rightarrow> ('x, 'w, u16) lprog" where
  "wl_dm_read16 addr =
     andThen (dm_read_sized 1 addr) (\<lambda>word. ret (ucast (word AND 0xffff)))"

text \<open>
  The three loops of the block reader; each hands on the address, the length left and the bytes
  stored so far.  The destination is never \<^verbatim>\<open>NULL\<close> here: the bytes are the result.
\<close>

fun read_head :: "nat \<Rightarrow> u32 \<Rightarrow> u8 list \<Rightarrow> ('x, 'w, u32 \<times> nat \<times> u8 list) lprog" where
  "read_head 0 addr out = ret (addr, 0, out)"
| "read_head (Suc n) addr out =
     (if addr AND 0x3 \<noteq> 0 then
        andThen (dm_read_sized 0 addr)
          (\<lambda>word. read_head n (addr + 1) (out @ [ucast (word AND 0xff)]))
      else ret (addr, Suc n, out))"

fun read_words :: "nat \<Rightarrow> u32 \<Rightarrow> u8 list \<Rightarrow> ('x, 'w, u32 \<times> nat \<times> u8 list) lprog" where
  "read_words n addr out =
     (if 4 \<le> n then
        andThen (wl_dm_read32 addr)
          (\<lambda>word. read_words (n - 4) (addr + 4)
             (out @ map (\<lambda>i. ucast (drop_bit (8 * i) word AND 0xff)) [0, 1, 2, 3]))
      else ret (addr, n, out))"

fun read_tail :: "nat \<Rightarrow> u32 \<Rightarrow> u8 list \<Rightarrow> ('x, 'w, u8 list) lprog" where
  "read_tail 0 addr out = ret out"
| "read_tail (Suc n) addr out =
     andThen (dm_read_sized 0 addr)
       (\<lambda>word. read_tail n (addr + 1) (out @ [ucast (word AND 0xff)]))"

definition wl_dm_read_block :: "u32 \<Rightarrow> nat \<Rightarrow> ('x, 'w, u8 list) lprog" where
  "wl_dm_read_block addr n =
     andThen (read_head n addr []) (\<lambda>(addr, n, out).
     andThen (read_words n addr out) (\<lambda>(addr, n, out).
     read_tail n addr out))"

declare read_words.simps [simp del]

section \<open>Every operation returns, keeps the link and reports a real error\<close>

lemma safe_dm_poll [safe_intro]:
  "H WL_ERR_USB \<Longrightarrow> H WL_ERR_TARGET \<Longrightarrow> safe (same_link L) H (dm_poll n cs)"
  by (induction n arbitrary: cs) (auto intro!: safe_intro)

lemma safe_dm_wait [safe_intro]:
  "H WL_ERR_USB \<Longrightarrow> H WL_ERR_TARGET \<Longrightarrow> safe (same_link L) H dm_wait"
  unfolding dm_wait_def by (auto intro!: safe_intro)

lemma safe_dm_command [safe_intro]:
  "H WL_ERR_USB \<Longrightarrow> H WL_ERR_TARGET \<Longrightarrow> safe (same_link L) H (dm_command c v b want)"
  unfolding dm_command_def by (auto intro!: safe_intro)

lemma safe_gpr_write [safe_intro]:
  "H WL_ERR_USB \<Longrightarrow> H WL_ERR_TARGET \<Longrightarrow> (31 < r \<Longrightarrow> H WL_ERR_USAGE) \<Longrightarrow>
     safe (same_link L) H (wl_dm_gpr_write r v)"
  unfolding wl_dm_gpr_write_def by (auto intro!: safe_intro)

lemma safe_gpr_read [safe_intro]:
  "H WL_ERR_USB \<Longrightarrow> H WL_ERR_TARGET \<Longrightarrow> (31 < r \<Longrightarrow> H WL_ERR_USAGE) \<Longrightarrow>
     safe (same_link L) H (wl_dm_gpr_read r)"
  unfolding wl_dm_gpr_read_def by (auto intro!: safe_intro)

lemma safe_pc [safe_intro]:
  assumes "H WL_ERR_USB" "H WL_ERR_TARGET"
  shows "safe (same_link L) H wl_dm_pc_read" and "safe (same_link L) H (wl_dm_pc_write v)"
  using assms by (auto simp: wl_dm_pc_read_def wl_dm_pc_write_def intro!: safe_intro)

lemma safe_csr [safe_intro]:
  assumes "H WL_ERR_USB" "H WL_ERR_TARGET"
  shows "safe (same_link L) H (dm_csr_access r v b want)"
    and "safe (same_link L) H wl_dm_dcsr_read" and "safe (same_link L) H (wl_dm_dcsr_write v)"
    and "safe (same_link L) H (wl_dm_csr_read c)" and "safe (same_link L) H (wl_dm_csr_write c v)"
  using assms
  by (auto simp: dm_csr_access_def wl_dm_dcsr_read_def wl_dm_dcsr_write_def wl_dm_csr_read_def
      wl_dm_csr_write_def Let_def intro!: safe_intro)

lemma safe_load_words [safe_intro]:
  "H WL_ERR_USB \<Longrightarrow> H WL_ERR_TARGET \<Longrightarrow> safe (same_link L) H (dm_load_words i xs)"
  by (induction i xs rule: dm_load_words.induct) (auto intro!: safe_intro)

lemma safe_run [safe_intro]:
  "H WL_ERR_USB \<Longrightarrow> H WL_ERR_TARGET \<Longrightarrow> length p \<le> 8 \<Longrightarrow> safe (same_link L) H (dm_run p a v want)"
  unfolding dm_run_def dm_load_program_def WL_DM_PROGBUF_WORDS_def by (auto intro!: safe_intro)

lemma safe_memory [safe_intro]:
  assumes "H WL_ERR_USB" "H WL_ERR_TARGET"
  shows "safe (same_link L) H (dm_read_sized k a)" and "safe (same_link L) H (wl_dm_read32 a)"
    and "safe (same_link L) H (wl_dm_read16 a)" and "safe (same_link L) H (wl_dm_write32 a v)"
    and "safe (same_link L) H (wl_dm_write16 a v16)" and "safe (same_link L) H (wl_dm_write8 a v8)"
  using assms
  by (auto simp: dm_read_sized_def wl_dm_read32_def wl_dm_read16_def wl_dm_write32_def
      wl_dm_write16_def wl_dm_write8_def wl_dm_run_read_def wl_dm_run_write_def
      read_programs_def write_programs_def intro!: safe_intro)

lemma safe_read_head [safe_intro]:
  "H WL_ERR_USB \<Longrightarrow> H WL_ERR_TARGET \<Longrightarrow> safe (same_link L) H (read_head n a out)"
  by (induction n arbitrary: a out) (auto intro!: safe_intro)

lemma safe_read_tail [safe_intro]:
  "H WL_ERR_USB \<Longrightarrow> H WL_ERR_TARGET \<Longrightarrow> safe (same_link L) H (read_tail n a out)"
  by (induction n arbitrary: a out) (auto intro!: safe_intro)

lemma safe_read_words [safe_intro]:
  assumes "H WL_ERR_USB" "H WL_ERR_TARGET"
  shows "safe (same_link L) H (read_words n a out)"
proof (induction n a out rule: read_words.induct)
  case (1 n a out)
  show ?case
    unfolding read_words.simps [of n a out] using assms 1 by (auto intro!: safe_intro)
qed

lemma safe_read_block [safe_intro]:
  "H WL_ERR_USB \<Longrightarrow> H WL_ERR_TARGET \<Longrightarrow> safe (same_link L) H (wl_dm_read_block a n)"
  unfolding wl_dm_read_block_def by (auto intro!: safe_intro)

section \<open>Commands on a programmer that keeps its contract\<close>

lemma dm_poll_once:
  "0 < n \<Longrightarrow> wl_linke_dmi_read WL_DMI_DMABSTRACTCS s = Some (Inr v, s') \<Longrightarrow>
     v AND WL_DM_ABSTRACTCS_BUSY = 0 \<Longrightarrow> dm_poll n cs s = Some (Inr v, s')"
  by (cases n) (simp_all add: run)

context linke_programmer
begin

text \<open>The abstract command register reports neither busy nor an error.\<close>

definition clean :: "'w \<Rightarrow> bool" where
  "clean w \<longleftrightarrow>
     fst (rd WL_DMI_DMABSTRACTCS w) AND WL_DM_ABSTRACTCS_BUSY = 0 \<and>
     fst (rd WL_DMI_DMABSTRACTCS w) AND WL_DM_ABSTRACTCS_CMDMASK = 0"

definition settled :: "'w \<Rightarrow> 'w" where
  "settled w = snd (rd WL_DMI_DMABSTRACTCS w)"

lemma dm_wait_clean:
  assumes "plugged s" "ready (world s)" "clean (world s)"
  shows "dm_wait s = Some (Inr (), s\<lparr>world := settled (world s)\<rparr>)"
  using assms dm_poll_once [OF _ dmi_read_ok]
  by (simp add: dm_wait_def run clean_def settled_def WL_DM_TIMEOUT_US_def)

text \<open>A command error is cleared in the module before it is reported.\<close>

lemma dm_wait_error:
  assumes "plugged s" "ready (world s)"
    and "fst (rd WL_DMI_DMABSTRACTCS (world s)) AND WL_DM_ABSTRACTCS_BUSY = 0"
    and "fst (rd WL_DMI_DMABSTRACTCS (world s)) AND WL_DM_ABSTRACTCS_CMDMASK \<noteq> 0"
  shows "dm_wait s = Some (Inl WL_ERR_TARGET,
     s\<lparr>world := wr WL_DMI_DMABSTRACTCS WL_DM_ABSTRACTCS_CLEAR (settled (world s))\<rparr>)"
  using assms dm_poll_once [OF _ dmi_read_ok] ready_rd
  by (simp add: dm_wait_def run settled_def WL_DM_TIMEOUT_US_def dmi_write_ok)

text \<open>A module that stays busy is given up on after the last poll.\<close>

lemma dm_poll_busy:
  assumes "plugged s" "ready (world s)" "stuck (world s)" "0 < n"
    and stuck: "\<And>w. stuck w \<Longrightarrow> stuck (settled w) \<and>
       fst (rd WL_DMI_DMABSTRACTCS w) AND WL_DM_ABSTRACTCS_BUSY \<noteq> 0"
  shows "\<exists>w v. dm_poll n cs s = Some (Inr v, s\<lparr>world := w\<rparr>) \<and> v AND WL_DM_ABSTRACTCS_BUSY \<noteq> 0"
  using assms(1-4)
proof (induction n arbitrary: cs s)
  case 0
  then show ?case by simp
next
  case (Suc n)
  let ?s' = "s\<lparr>world := settled (world s)\<rparr>"
  have here: "dm_poll (Suc n) cs s = dm_poll n (fst (rd WL_DMI_DMABSTRACTCS (world s))) ?s'"
    using Suc.prems stuck by (simp add: run dmi_read_ok settled_def)
  show ?case
  proof (cases n)
    case 0
    with here Suc.prems stuck show ?thesis by auto
  next
    case (Suc m)
    have "plugged ?s'" "ready (world ?s')" "stuck (world ?s')" "0 < n"
      using Suc.prems Suc ready_rd stuck by (simp_all add: settled_def)
    from Suc.IH [OF this] here show ?thesis by (metis (no_types, lifting) sess.surjective sess.update_convs(2))
  qed
qed

lemma dm_wait_busy:
  assumes "plugged s" "ready (world s)" "stuck (world s)"
    and "\<And>w. stuck w \<Longrightarrow> stuck (settled w) \<and>
       fst (rd WL_DMI_DMABSTRACTCS w) AND WL_DM_ABSTRACTCS_BUSY \<noteq> 0"
  shows "\<exists>s'. dm_wait s = Some (Inl WL_ERR_TARGET, s')"
  using dm_poll_busy [OF assms(1-3) _ assms(4), of WL_DM_TIMEOUT_US 0]
  by (auto simp: dm_wait_def run WL_DM_TIMEOUT_US_def)

definition issued :: "u32 \<Rightarrow> u32 \<Rightarrow> bool \<Rightarrow> 'w \<Rightarrow> 'w" where
  "issued c v transfer_in w =
     wr WL_DMI_DMCOMMAND c (if transfer_in then wr WL_DMI_DATA0 v w else w)"

lemma ready_issued [simp]: "ready w \<Longrightarrow> ready (issued c v b w)"
  by (simp add: issued_def ready_wr)

lemma ready_settled [simp]: "ready w \<Longrightarrow> ready (settled w)"
  by (simp add: settled_def ready_rd)

lemma dm_command_done:
  assumes "plugged s" "ready (world s)" "clean (issued c v b (world s))"
  shows "dm_command c v b False s =
     Some (Inr 0, s\<lparr>world := settled (issued c v b (world s))\<rparr>)"
  using assms
  by (cases b) (simp_all add: dm_command_def run dmi_write_ok ready_wr dm_wait_clean issued_def)

lemma dm_command_result:
  assumes "plugged s" "ready (world s)" "clean (issued c v b (world s))"
  shows "dm_command c v b True s =
     (let p = rd WL_DMI_DATA0 (settled (issued c v b (world s)))
      in Some (Inr (fst p), s\<lparr>world := snd p\<rparr>))"
  using assms
  by (cases b)
    (simp_all add: dm_command_def run dmi_write_ok dmi_read_ok ready_wr dm_wait_clean issued_def
      Let_def)

end

section \<open>Target memory, as a contract\<close>

text \<open>
  What the layers above rely on in a target that can be debugged: while the programmer is set up
  and no command error is pending (\<open>live\<close>), loads and stores complete.  \<open>obs\<close> is what can be
  observed of the target, \<open>mem\<close> the addresses that behave as plain memory there: reading them
  gives their bytes, the least significant first, and changes nothing that can be observed.
\<close>

locale debug_target = linke_programmer +
  fixes idle :: "'b \<Rightarrow> bool"
    and obs :: "'b \<Rightarrow> 'o"
    and mem :: "'o \<Rightarrow> u32 \<Rightarrow> u8 option"
    and r32 :: "u32 \<Rightarrow> 'b \<Rightarrow> u32 \<times> 'b"
    and r8 :: "u32 \<Rightarrow> 'b \<Rightarrow> u32 \<times> 'b"
    and w32 :: "u32 \<Rightarrow> u32 \<Rightarrow> 'b \<Rightarrow> 'b"
  assumes read32: "plugged s \<Longrightarrow> ready (world s) \<Longrightarrow> idle (world s) \<Longrightarrow>
       wl_dm_read32 a s = Some (Inr (fst (r32 a (world s))), s\<lparr>world := snd (r32 a (world s))\<rparr>)"
    and read8: "plugged s \<Longrightarrow> ready (world s) \<Longrightarrow> idle (world s) \<Longrightarrow>
       dm_read_sized 0 a s = Some (Inr (fst (r8 a (world s))), s\<lparr>world := snd (r8 a (world s))\<rparr>)"
    and write32: "plugged s \<Longrightarrow> ready (world s) \<Longrightarrow> idle (world s) \<Longrightarrow>
       wl_dm_write32 a v s = Some (Inr (), s\<lparr>world := w32 a v (world s)\<rparr>)"
    and live_r32: "ready w \<Longrightarrow> idle w \<Longrightarrow> ready (snd (r32 a w)) \<and> idle (snd (r32 a w))"
    and live_r8: "ready w \<Longrightarrow> idle w \<Longrightarrow> ready (snd (r8 a w)) \<and> idle (snd (r8 a w))"
    and live_w32: "ready w \<Longrightarrow> idle w \<Longrightarrow> ready (w32 a v w) \<and> idle (w32 a v w)"
    and mem32: "ready w \<Longrightarrow> idle w \<Longrightarrow> a AND 3 = 0 \<Longrightarrow> mem (obs w) a = Some b0 \<Longrightarrow> mem (obs w) (a + 1) = Some b1 \<Longrightarrow>
       mem (obs w) (a + 2) = Some b2 \<Longrightarrow> mem (obs w) (a + 3) = Some b3 \<Longrightarrow>
       fst (r32 a w) = word_of b0 b1 b2 b3 \<and> obs (snd (r32 a w)) = obs w"
    and mem8: "ready w \<Longrightarrow> idle w \<Longrightarrow> mem (obs w) a = Some b \<Longrightarrow>
       ucast (fst (r8 a w)) = b \<and> obs (snd (r8 a w)) = obs w"
    and idle_ctl: "idle (ctl c k w) = idle w"
    and idle_iface: "idle (iface f sp w) = idle w"
    and obs_ctl: "c \<noteq> 0x0d \<or> k \<noteq> 0x13 \<Longrightarrow> obs (ctl c k w) = obs w"
    and obs_iface: "obs (iface f sp w) = obs w"
begin

definition live :: "'b \<Rightarrow> bool" where
  "live w \<longleftrightarrow> ready w \<and> idle w"

definition holds :: "'o \<Rightarrow> u32 \<Rightarrow> u8 list \<Rightarrow> bool" where
  "holds t a bs \<longleftrightarrow> (\<forall>i < length bs. mem t (a + of_nat i) = Some (bs ! i))"

lemma live_simps [simp]:
  "live w \<Longrightarrow> live (snd (r32 a w))" "live w \<Longrightarrow> live (snd (r8 a w))" "live w \<Longrightarrow> live (w32 a v w)"
  by (simp_all add: live_def live_r32 live_r8 live_w32)

lemma access_ok:
  assumes "plugged s" "live (world s)"
  shows "wl_dm_read32 a s =
       Some (Inr (fst (r32 a (world s))), s\<lparr>world := snd (r32 a (world s))\<rparr>)"
    and "dm_read_sized 0 a s =
       Some (Inr (fst (r8 a (world s))), s\<lparr>world := snd (r8 a (world s))\<rparr>)"
    and "wl_dm_write32 a v s = Some (Inr (), s\<lparr>world := w32 a v (world s)\<rparr>)"
  using assms by (simp_all add: live_def read32 read8 write32)

lemma cells:
  "live w \<Longrightarrow> mem (obs w) a = Some b \<Longrightarrow> ucast (fst (r8 a w)) = b \<and> obs (snd (r8 a w)) = obs w"
  "live w \<Longrightarrow> a AND 3 = 0 \<Longrightarrow> mem (obs w) a = Some b0 \<Longrightarrow> mem (obs w) (a + 1) = Some b1 \<Longrightarrow>
     mem (obs w) (a + 2) = Some b2 \<Longrightarrow> mem (obs w) (a + 3) = Some b3 \<Longrightarrow>
     fst (r32 a w) = word_of b0 b1 b2 b3 \<and> obs (snd (r32 a w)) = obs w"
  by (simp_all add: live_def mem8 mem32)

lemma holds_Cons: "holds t a (b # bs) \<longleftrightarrow> mem t a = Some b \<and> holds t (a + 1) bs"
  by (auto simp: holds_def less_Suc_eq_0_disj ac_simps)

lemma holds_drop: "holds t a bs \<Longrightarrow> k \<le> length bs \<Longrightarrow> holds t (a + of_nat k) (drop k bs)"
  by (auto simp: holds_def add.assoc simp flip: of_nat_add)

lemma read_head_ok:
  assumes "plugged s" "live (world s)" "holds (obs (world s)) a bs" "length bs = n"
  shows "\<exists>k w. k \<le> n \<and> (k = n \<or> (a + of_nat k) AND 3 = 0) \<and> live w \<and> obs w = obs (world s) \<and>
     read_head n a out s = Some (Inr (a + of_nat k, n - k, out @ take k bs), s\<lparr>world := w\<rparr>)"
  using assms
proof (induction n arbitrary: a out s bs)
  case 0
  then show ?case by (intro exI [of _ 0] exI [of _ "world s"]) simp
next
  case (Suc n)
  then obtain b bs' where bs: "bs = b # bs'" "length bs' = n" by (cases bs) auto
  show ?case
  proof (cases "a AND 3 = 0")
    case True
    then show ?thesis using Suc.prems
      by (intro exI [of _ 0] exI [of _ "world s"]) simp
  next
    case False
    let ?s' = "s\<lparr>world := snd (r8 a (world s))\<rparr>"
    have m: "mem (obs (world s)) a = Some b" and rest: "holds (obs (world s)) (a + 1) bs'"
      using Suc.prems bs by (simp_all add: holds_Cons)
    note cell = cells(1) [OF _ m]
    obtain k w where k: "k \<le> n" "k = n \<or> (a + 1 + of_nat k) AND 3 = 0" "live w"
      "obs w = obs (world s)"
      "read_head n (a + 1) (out @ [b]) ?s' =
         Some (Inr (a + 1 + of_nat k, n - k, (out @ [b]) @ take k bs'), s\<lparr>world := w\<rparr>)"
      using Suc.IH [of ?s' "a + 1" bs' "out @ [b]"] Suc.prems bs rest cell by auto
    have "read_head (Suc n) a out s = read_head n (a + 1) (out @ [b]) ?s'"
      using False Suc.prems cell by (simp add: run access_ok)
    with k bs show ?thesis
      by (intro exI [of _ "Suc k"] exI [of _ w]) (simp add: add.commute add.left_commute)
  qed
qed

lemma read_tail_ok:
  assumes "plugged s" "live (world s)" "holds (obs (world s)) a bs" "length bs = n"
  shows "\<exists>w. live w \<and> obs w = obs (world s) \<and>
     read_tail n a out s = Some (Inr (out @ bs), s\<lparr>world := w\<rparr>)"
  using assms
proof (induction n arbitrary: a out s bs)
  case 0
  then show ?case by (intro exI [of _ "world s"]) simp
next
  case (Suc n)
  then obtain b bs' where bs: "bs = b # bs'" "length bs' = n" by (cases bs) auto
  have m: "mem (obs (world s)) a = Some b" and rest: "holds (obs (world s)) (a + 1) bs'"
    using Suc.prems bs by (simp_all add: holds_Cons)
  note cell = cells(1) [OF _ m]
  show ?case
    using Suc.IH [of "s\<lparr>world := snd (r8 a (world s))\<rparr>" "a + 1" bs' "out @ [b]"] Suc.prems bs rest cell
    by (auto simp: run access_ok)
qed

lemma word_bytes:
  "map (\<lambda>i. ucast (drop_bit (8 * i) (word_of b0 b1 b2 b3) AND 0xff)) [0, 1, 2, 3] = [b0, b1, b2, b3]"
  using byte_of_word_of [of b0 b1 b2 b3] by (simp add: byte_of_def)

lemma read_words_ok:
  assumes "plugged s" "live (world s)" "holds (obs (world s)) a bs" "length bs = n" "a AND 3 = 0"
  shows "\<exists>k w. k \<le> n \<and> live w \<and> obs w = obs (world s) \<and>
     read_words n a out s = Some (Inr (a + of_nat k, n - k, out @ take k bs), s\<lparr>world := w\<rparr>)"
  using assms
proof (induction n a out arbitrary: s bs rule: read_words.induct)
  case (1 n a out)
  show ?case
  proof (cases "4 \<le> n")
    case False
    then show ?thesis using "1.prems"
      by (intro exI [of _ 0] exI [of _ "world s"]) (simp add: read_words.simps)
  next
    case True
    then obtain b0 b1 b2 b3 bs' where bs: "bs = b0 # b1 # b2 # b3 # bs'"
      using "1.prems"(4) by (cases bs rule: list.exhaust; auto simp: Suc_le_length_iff numeral_eq_Suc)
    let ?s' = "s\<lparr>world := snd (r32 a (world s))\<rparr>"
    let ?out = "out @ [b0, b1, b2, b3]"
    have w: "fst (r32 a (world s)) = word_of b0 b1 b2 b3 \<and> obs (snd (r32 a (world s))) = obs (world s)"
      using "1.prems"(2,3,5) bs by (intro cells(2)) (simp_all add: holds_Cons add.assoc)
    have al: "(a + 4) AND 3 = 0" using "1.prems"(5) by (simp add: aligned4_add)
    have h: "holds (obs (world ?s')) (a + 4) bs'"
      using holds_drop [OF "1.prems"(3), of 4] bs w by simp
    have step: "read_words n a out s = read_words (n - 4) (a + 4) ?out ?s'"
      using True "1.prems" w word_bytes [of b0 b1 b2 b3]
      by (simp add: read_words.simps [of n a out] run access_ok)
    have bytes: "?out = out @ map (\<lambda>i. ucast (drop_bit (8 * i) (word_of b0 b1 b2 b3) AND 0xff)) [0, 1, 2, 3]"
      using word_bytes by simp
    obtain k w' where "k \<le> n - 4" "live w'" "obs w' = obs (world ?s')"
      "read_words (n - 4) (a + 4) ?out ?s' =
        Some (Inr (a + 4 + of_nat k, n - 4 - k, ?out @ take k bs'), ?s'\<lparr>world := w'\<rparr>)"
      using "1.IH" [OF True, of ?s' bs' "word_of b0 b1 b2 b3"] "1.prems" h al bs
      unfolding bytes [symmetric] by auto
    moreover have "take (k + 4) bs = b0 # b1 # b2 # b3 # take k bs'"
      unfolding bs by (simp add: numeral_eq_Suc)
    ultimately show ?thesis
      using step w True bs
      by (intro exI [of _ "k + 4"] exI [of _ w']) (auto simp: ac_simps)
  qed
qed

text \<open>Reading a block of plain memory returns its bytes and disturbs nothing.\<close>

lemma read_block_ok:
  assumes p: "plugged s" and l: "live (world s)" and h: "holds (obs (world s)) a bs"
    and n: "length bs = n"
  shows "\<exists>w. live w \<and> obs w = obs (world s) \<and>
     wl_dm_read_block a n s = Some (Inr bs, s\<lparr>world := w\<rparr>)"
proof -
  obtain k w1 where k: "k \<le> n" "k = n \<or> (a + of_nat k) AND 3 = 0" and w1: "live w1"
    "obs w1 = obs (world s)"
    "read_head n a [] s = Some (Inr (a + of_nat k, n - k, take k bs), s\<lparr>world := w1\<rparr>)"
    using read_head_ok [OF p l h n, of "[]"] by auto
  let ?a1 = "a + of_nat k" and ?s1 = "s\<lparr>world := w1\<rparr>"
  have h1: "holds (obs w1) ?a1 (drop k bs)" and n1: "length (drop k bs) = n - k"
    using holds_drop [OF h] k n w1 by simp_all
  obtain j w2 where j: "j \<le> n - k" and w2: "live w2" "obs w2 = obs w1"
    "read_words (n - k) ?a1 (take k bs) ?s1 =
      Some (Inr (?a1 + of_nat j, n - k - j, take k bs @ take j (drop k bs)), s\<lparr>world := w2\<rparr>)"
  proof (cases "k = n")
    case True
    then show ?thesis using that [of 0 w1] w1 by (simp add: read_words.simps)
  next
    case False
    then show ?thesis
      using read_words_ok [of ?s1 ?a1 "drop k bs" "n - k" "take k bs"] p w1 h1 n1 k that by auto
  qed
  have h2: "holds (obs w2) (?a1 + of_nat j) (drop j (drop k bs))"
    using holds_drop [OF h1, of j] j n1 w2 by simp
  have n2: "length (drop j (drop k bs)) = n - k - j" using n by simp
  have "plugged (s\<lparr>world := w2\<rparr>)" "live (world (s\<lparr>world := w2\<rparr>))"
    "holds (obs (world (s\<lparr>world := w2\<rparr>))) (?a1 + of_nat j) (drop j (drop k bs))"
    using p w2 h2 by simp_all
  from read_tail_ok [OF this n2, of "take k bs @ take j (drop k bs)"]
  obtain w3 where "live w3" "obs w3 = obs w2"
    "read_tail (n - k - j) (?a1 + of_nat j) (take k bs @ take j (drop k bs)) (s\<lparr>world := w2\<rparr>) =
      Some (Inr ((take k bs @ take j (drop k bs)) @ drop j (drop k bs)), s\<lparr>world := w3\<rparr>)"
    by auto
  moreover have "take k bs @ take j (drop k bs) @ drop (j + k) bs = bs"
    by (metis append_take_drop_id drop_drop)
  ultimately show ?thesis
    using w1 w2 by (intro exI [of _ w3]) (simp add: wl_dm_read_block_def run)
qed

end

end
