(* ===== verification/FlashCh32v0.thy ===== *)
theory FlashCh32v0
  imports Dm
begin

text \<open>
  The CH32V00x flash sequence of \<^verbatim>\<open>src/flash_ch32v0.c\<close>: unlock, page erase, the page buffer, page
  program, and the loop over the pages of an image with its read-merge-write of partly covered
  pages.  Everything is a sequence of 32-bit accesses through the debug module.
\<close>

section \<open>The controller's registers\<close>

definition FLASH_R_BASE :: u32 where "FLASH_R_BASE = 0x40022000"
definition FLASH_KEYR :: u32 where "FLASH_KEYR = FLASH_R_BASE + 0x04"
definition FLASH_STATR :: u32 where "FLASH_STATR = FLASH_R_BASE + 0x0c"
definition FLASH_CTLR :: u32 where "FLASH_CTLR = FLASH_R_BASE + 0x10"
definition FLASH_ADDR :: u32 where "FLASH_ADDR = FLASH_R_BASE + 0x14"
definition FLASH_MODEKEYR :: u32 where "FLASH_MODEKEYR = FLASH_R_BASE + 0x24"

definition FLASH_KEY1 :: u32 where "FLASH_KEY1 = 0x45670123"
definition FLASH_KEY2 :: u32 where "FLASH_KEY2 = 0xcdef89ab"

definition FLASH_CTLR_STRT :: u32 where "FLASH_CTLR_STRT = 0x00000040"
definition FLASH_CTLR_LOCK :: u32 where "FLASH_CTLR_LOCK = 0x00000080"
definition FLASH_CTLR_PAGE_PG :: u32 where "FLASH_CTLR_PAGE_PG = 0x00010000"
definition FLASH_CTLR_PAGE_ER :: u32 where "FLASH_CTLR_PAGE_ER = 0x00020000"
definition FLASH_CTLR_BUF_LOAD :: u32 where "FLASH_CTLR_BUF_LOAD = 0x00040000"
definition FLASH_CTLR_BUF_RST :: u32 where "FLASH_CTLR_BUF_RST = 0x00080000"

definition FLASH_STATR_BSY :: u32 where "FLASH_STATR_BSY = 0x00000001"
definition FLASH_STATR_WRPRTERR :: u32 where "FLASH_STATR_WRPRTERR = 0x00000010"

definition FLASH_POLL_LIMIT :: nat where "FLASH_POLL_LIMIT = 200000"
definition FLASH_MERGE_MAX :: u32 where "FLASH_MERGE_MAX = 256"

lemmas flash_regs =
  FLASH_R_BASE_def FLASH_KEYR_def FLASH_STATR_def FLASH_CTLR_def FLASH_ADDR_def
  FLASH_MODEKEYR_def FLASH_KEY1_def FLASH_KEY2_def

lemmas flash_bits =
  FLASH_CTLR_STRT_def FLASH_CTLR_LOCK_def FLASH_CTLR_PAGE_PG_def FLASH_CTLR_PAGE_ER_def
  FLASH_CTLR_BUF_LOAD_def FLASH_CTLR_BUF_RST_def FLASH_STATR_BSY_def FLASH_STATR_WRPRTERR_def

section \<open>Waiting and read-modify-write\<close>

fun poll_statr :: "nat \<Rightarrow> u32 \<Rightarrow> ('x, 'w, u32) lprog" where
  "poll_statr 0 st = ret st"
| "poll_statr (Suc n) st =
     andThen (wl_dm_read32 FLASH_STATR) (\<lambda>st'.
       if st' AND FLASH_STATR_BSY = 0 then ret st' else poll_statr n st')"

definition wait_ready :: "('x, 'w, unit) lprog" where
  "wait_ready =
     andThen (poll_statr FLASH_POLL_LIMIT 0) (\<lambda>st.
       if st AND FLASH_STATR_BSY \<noteq> 0 then fail WL_ERR_TARGET
       else if st AND FLASH_STATR_WRPRTERR \<noteq> 0 then fail WL_ERR_TARGET
       else ret ())"

definition ctlr_update :: "u32 \<Rightarrow> u32 \<Rightarrow> ('x, 'w, unit) lprog" where
  "ctlr_update set_bits clear_bits =
     andThen (wl_dm_read32 FLASH_CTLR) (\<lambda>ctlr.
       wl_dm_write32 FLASH_CTLR ((ctlr OR set_bits) AND NOT clear_bits))"

definition unlock :: "('x, 'w, unit) lprog" where
  "unlock =
     andDo (wl_dm_write32 FLASH_KEYR FLASH_KEY1)
    (andDo (wl_dm_write32 FLASH_KEYR FLASH_KEY2)
    (andDo (wl_dm_write32 FLASH_MODEKEYR FLASH_KEY1)
    (andDo (wl_dm_write32 FLASH_MODEKEYR FLASH_KEY2)
    (andThen (wl_dm_read32 FLASH_CTLR) (\<lambda>ctlr.
       if ctlr AND FLASH_CTLR_LOCK \<noteq> 0 then fail WL_ERR_TARGET else ret ())))))"

section \<open>Page operations\<close>

definition erase_page_fast :: "u32 \<Rightarrow> ('x, 'w, unit) lprog" where
  "erase_page_fast page =
     cleanup
       (andDo wait_ready
       (andDo (ctlr_update FLASH_CTLR_PAGE_ER 0)
       (andDo (wl_dm_write32 FLASH_ADDR page)
       (andDo (ctlr_update FLASH_CTLR_STRT 0)
        wait_ready))))
       (ctlr_update 0 (FLASH_CTLR_PAGE_ER OR FLASH_CTLR_STRT))"

definition buffer_reset :: "('x, 'w, unit) lprog" where
  "buffer_reset =
     cleanup
       (andDo (ctlr_update FLASH_CTLR_PAGE_PG 0)
       (andDo (ctlr_update FLASH_CTLR_BUF_RST 0)
        wait_ready))
       (ctlr_update 0 (FLASH_CTLR_PAGE_PG OR FLASH_CTLR_BUF_RST))"

definition buffer_load :: "u32 \<Rightarrow> u32 \<Rightarrow> ('x, 'w, unit) lprog" where
  "buffer_load addr word =
     cleanup
       (andDo (ctlr_update FLASH_CTLR_PAGE_PG 0)
       (andDo (wl_dm_write32 addr word)
       (andDo (ctlr_update FLASH_CTLR_BUF_LOAD 0)
        wait_ready)))
       (ctlr_update 0 (FLASH_CTLR_PAGE_PG OR FLASH_CTLR_BUF_LOAD))"

definition program_page_fast :: "u32 \<Rightarrow> ('x, 'w, unit) lprog" where
  "program_page_fast page =
     cleanup
       (andDo (ctlr_update FLASH_CTLR_PAGE_PG 0)
       (andDo (wl_dm_write32 FLASH_ADDR page)
       (andDo (ctlr_update FLASH_CTLR_STRT 0)
        wait_ready)))
       (ctlr_update 0 (FLASH_CTLR_PAGE_PG OR FLASH_CTLR_STRT))"

section \<open>Writing an img\<close>

text \<open>The page's new content: the image where it covers the page, the old bytes elsewhere.\<close>

definition merge_page :: "u32 \<Rightarrow> u32 \<Rightarrow> u32 \<Rightarrow> u8 list \<Rightarrow> u32 \<Rightarrow> u8 list \<Rightarrow> u8 list" where
  "merge_page page_size start stop img page merged =
     map (\<lambda>i. let at = page + of_nat i in
              if start \<le> at \<and> at < stop then img ! unat (at - start) else merged ! i)
       [0..<unat page_size]"

text \<open>The loop that loads a page into the controller's buffer, one word at a time.\<close>

function load_buffer :: "u32 \<Rightarrow> nat \<Rightarrow> u8 list \<Rightarrow> nat \<Rightarrow> ('x, 'w, unit) lprog" where
  "load_buffer page page_size merged i =
     (if i < page_size then
        andDo (buffer_load (page + of_nat i)
                 (word_of (merged ! i) (merged ! (i + 1)) (merged ! (i + 2)) (merged ! (i + 3))))
          (load_buffer page page_size merged (i + 4))
      else ret ())"
  by pat_completeness auto
termination
  by (relation "measure (\<lambda>(page, page_size, merged, i). page_size - i)") auto

declare load_buffer.simps [simp del]

text \<open>A callback, unless the pointer is \<^verbatim>\<open>NULL\<close>, is called with the bytes done and their total.\<close>

definition called :: "progress_fn option \<Rightarrow> nat \<Rightarrow> nat \<Rightarrow> (progress_fn \<times> nat \<times> nat) list" where
  "called progress doneb tot = (case progress of None \<Rightarrow> [] | Some f \<Rightarrow> [(f, doneb, tot)])"

definition report :: "progress_fn option \<Rightarrow> nat \<Rightarrow> nat \<Rightarrow> ('x, 'w, unit) lprog" where
  "report progress doneb tot = updates (\<lambda>s. s\<lparr>calls := calls s @ called progress doneb tot\<rparr>)"

text \<open>One turn of the page loop.\<close>

definition write_page :: "progress_fn option \<Rightarrow> u32 \<Rightarrow> u32 \<Rightarrow> u32 \<Rightarrow> u8 list \<Rightarrow> u32 \<Rightarrow> ('x, 'w, unit) lprog" where
  "write_page progress page_size start stop img page =
     (let whole_page = (start \<le> page \<and> page + page_size \<le> stop) in
      andThen (if whole_page then ret (replicate (unat page_size) 0xff)
               else wl_dm_read_block page (unat page_size)) (\<lambda>old.
      (let merged = merge_page page_size start stop img page old in
       andDo (erase_page_fast page)
      (andDo buffer_reset
      (andDo (load_buffer page (unat page_size) merged 0)
      (andDo (program_page_fast page)
        (report progress
           (if stop \<le> page + page_size then length img else unat (page + page_size - start))
           (length img))))))))"

text \<open>
  The page loop.  The counter is a 32-bit one, and if \<open>stop\<close> lies in the last page of the address
  space the loop never ends: that is the value \<open>None\<close>.
\<close>

partial_function (option) write_pages ::
  "progress_fn option \<Rightarrow> u32 \<Rightarrow> u32 \<Rightarrow> u32 \<Rightarrow> u8 list \<Rightarrow> u32 \<Rightarrow> ('x, 'w) sess
     \<Rightarrow> ((wl_status + unit) \<times> ('x, 'w) sess) option" where
  "write_pages progress page_size start stop img page s =
     (if page < stop then
        andThen (write_page progress page_size start stop img page)
          (\<lambda>_. write_pages progress page_size start stop img (page + page_size)) s
      else Some (Inr (), s))"

declare write_pages.simps [code]

definition wl_flash_ch32v0_write ::
  "wl_chip_t \<Rightarrow> u32 \<Rightarrow> u8 list \<Rightarrow> progress_fn option \<Rightarrow> ('x, 'w, unit) lprog" where
  "wl_flash_ch32v0_write chip addr img progress =
     (let page_size = erase_size chip;
          start = addr;
          stop = addr + of_nat (length img)
      in if page_size = 0 \<or> page_size AND (page_size - 1) \<noteq> 0 \<or> page_size AND 3 \<noteq> 0 \<or>
            FLASH_MERGE_MAX < page_size
         then fail WL_ERR_USAGE
         else andDo unlock
           (write_pages progress page_size start stop img (start AND NOT (page_size - 1))))"

section \<open>Every operation returns and reports a real error\<close>

lemma safe_poll_statr [safe_intro]:
  "H WL_ERR_USB \<Longrightarrow> H WL_ERR_TARGET \<Longrightarrow> safe (same_link L) H (poll_statr n st)"
  by (induction n arbitrary: st) (auto intro!: safe_intro)

lemma safe_flash_steps [safe_intro]:
  assumes "H WL_ERR_USB" "H WL_ERR_TARGET"
  shows "safe (same_link L) H wait_ready" and "safe (same_link L) H (ctlr_update a b)"
    and "safe (same_link L) H unlock"
  using assms unfolding wait_ready_def ctlr_update_def unlock_def by (auto intro!: safe_intro)

lemma safe_flash_pages [safe_intro]:
  assumes "H WL_ERR_USB" "H WL_ERR_TARGET"
  shows "safe (same_link L) H (erase_page_fast p)" and "safe (same_link L) H buffer_reset"
    and "safe (same_link L) H (buffer_load p x)" and "safe (same_link L) H (program_page_fast p)"
  using assms unfolding erase_page_fast_def buffer_reset_def buffer_load_def program_page_fast_def
  by (auto intro!: safe_intro)

lemma safe_load_buffer [safe_intro]:
  assumes "H WL_ERR_USB" "H WL_ERR_TARGET"
  shows "safe (same_link L) H (load_buffer p n m i)"
proof (induction p n m i rule: load_buffer.induct)
  case (1 page page_size merged i)
  then show ?case
    unfolding load_buffer.simps [of page page_size merged i] using assms by (auto intro!: safe_intro)
qed

lemma safe_report [safe_intro]: "safe (same_link L) H (report p d t)"
  unfolding report_def by (auto intro!: safe_intro simp: same_link_def)

lemma safe_write_page [safe_intro]:
  "H WL_ERR_USB \<Longrightarrow> H WL_ERR_TARGET \<Longrightarrow>
     safe (same_link L) H (write_page pr ps start stop img page)"
  unfolding write_page_def by (auto intro!: safe_intro)

text \<open>The page loop ends as long as the end of the image is not in the last page of the address space.\<close>

lemma safe_write_pages:
  fixes L :: "('x, 'w) origin"
  assumes H: "H WL_ERR_USB" "H WL_ERR_TARGET" and ps: "0 < ps"
    and room: "unat stop + unat ps < 2 ^ 32"
  shows "safe (same_link L) H (write_pages pr ps start stop img page)"
proof (induction "unat stop - unat page" arbitrary: page rule: less_induct)
  case less
  show ?case
  proof (cases "page < stop")
    case False
    then show ?thesis by (simp add: safe_def write_pages.simps [of _ _ _ _ _ page])
  next
    case True
    then have lt: "unat page < unat stop" by (simp add: word_less_nat_alt)
    have "unat (page + ps) = unat page + unat ps"
      using lt room by (simp add: unat_word_ariths)
    moreover have "0 < unat ps" using ps by (simp add: word_less_nat_alt)
    ultimately have "safe (same_link L) H (write_pages pr ps start stop img (page + ps))"
      using lt by (intro less) simp
    then have "safe (same_link L) H (andDo (write_page pr ps start stop img page)
        (write_pages pr ps start stop img (page + ps)))"
      using H by (auto intro!: safe_intro)
    moreover have "(write_pages pr ps start stop img page :: ('x, 'w, unit) lprog) = andDo (write_page pr ps start stop img page)
        (write_pages pr ps start stop img (page + ps))"
      using True by (intro ext) (simp add: write_pages.simps [of _ _ _ _ _ page])
    ultimately show ?thesis by simp
  qed
qed

end
