(* ===== verification/Flash.thy ===== *)
theory Flash
  imports FlashCh32v0
begin

text \<open>
  \<^verbatim>\<open>src/flash.c\<close> (address normalisation, the range check, the dispatch to a family's writer, the
  read-back comparison) and the memory and flash entry points of \<^verbatim>\<open>src/linke.c\<close> that are built on
  it.  A chip or image pointer is an option, \<open>None\<close> for \<^verbatim>\<open>NULL\<close>; an image carries its length.
\<close>

section \<open>Addresses\<close>

definition normalise :: "wl_chip_t \<Rightarrow> u32 \<Rightarrow> u32" where
  "normalise chip addr =
     (if flash_base chip = 0x08000000 \<and> addr AND 0xff000000 = 0 then addr OR 0x08000000 else addr)"

text \<open>The sum is computed in 64 bits and wraps there, as in the code.\<close>

definition range_ok64 :: "wl_chip_t option \<Rightarrow> u32 \<Rightarrow> u64 \<Rightarrow> bool" where
  "range_ok64 chip addr n =
     (case chip of
        None \<Rightarrow> False
      | Some c \<Rightarrow>
          if flash_size c = 0 then False
          else
            (let start = normalise c addr in
             flash_base c \<le> start \<and>
             ucast start + n \<le> (ucast (flash_base c) + ucast (flash_size c) :: u64)))"

text \<open>The callers pass the size of an object that exists, which is less than half of the address
  space; it is a natural number here.  For such sizes the sum does not wrap
  (\<open>range_ok_unfold\<close> below).\<close>

definition wl_flash_range_ok :: "wl_chip_t option \<Rightarrow> u32 \<Rightarrow> nat \<Rightarrow> bool" where
  "wl_flash_range_ok chip addr n \<longleftrightarrow> n < 2 ^ 63 \<and> range_ok64 chip addr (of_nat n)"

lemma unat_plus64: "unat (x + y :: u64) = (unat x + unat y) mod 2 ^ 64"
  by (simp add: unat_word_ariths)

lemma u32_bound: "unat (x :: u32) < 2 ^ 32"
  using unsigned_less [of x] by simp

lemma unat_ucast64: "unat (ucast (x :: u32) :: u64) = unat x"
  using u32_bound [of x] by (simp add: unsigned_ucast_eq take_bit_nat_eq_self)

lemma sum_of_two_words: "unat (ucast (x :: u32) + ucast (y :: u32) :: u64) = unat x + unat y"
  using u32_bound [of x] u32_bound [of y] unfolding unat_plus64 unat_ucast64 by simp

lemma range_ok64_unat:
  "range_ok64 (Some c) addr n \<longleftrightarrow> flash_size c \<noteq> 0 \<and> flash_base c \<le> normalise c addr \<and>
     (unat (normalise c addr) + unat n) mod 2 ^ 64 \<le> unat (flash_base c) + unat (flash_size c)"
  unfolding range_ok64_def Let_def option.case word_le_nat_alt [where 'a = 64]
    sum_of_two_words by (simp add: unat_plus64 unat_ucast64)

lemma range_ok_unfold:
  "wl_flash_range_ok chip addr n =
     (case chip of
        None \<Rightarrow> False
      | Some c \<Rightarrow>
          if flash_size c = 0 then False
          else
            (let start = normalise c addr in
             flash_base c \<le> start \<and>
             unat start + n \<le> unat (flash_base c) + unat (flash_size c)))"
proof (cases chip)
  case None
  then show ?thesis by (simp add: wl_flash_range_ok_def range_ok64_def)
next
  case (Some c)
  let ?s = "unat (normalise c addr)" and ?e = "unat (flash_base c) + unat (flash_size c)"
  have b: "?s < 2 ^ 32" "?e < 2 ^ 33"
    using u32_bound [of "normalise c addr"] u32_bound [of "flash_base c"] u32_bound [of "flash_size c"]
    by simp_all
  show ?thesis
  proof (cases "n < 2 ^ 63")
    case True
    then have "unat (of_nat n :: u64) = n" by (simp add: unat_of_nat)
    moreover have "(?s + n) mod 2 ^ 64 = ?s + n" using True b(1) by simp
    ultimately show ?thesis using True
      by (simp add: Some wl_flash_range_ok_def range_ok64_unat Let_def)
  next
    case False
    then have "\<not> ?s + n \<le> ?e" using b(2) by simp
    then show ?thesis using False by (simp add: Some wl_flash_range_ok_def Let_def)
  qed
qed

section \<open>Reading memory\<close>

definition wl_linke_read_memory :: "wl_chip_t option \<Rightarrow> u32 \<Rightarrow> nat \<Rightarrow> ('x, 'w, u8 list) lprog" where
  "wl_linke_read_memory chip addr n =
     andDo (if chip \<noteq> None then andDo (wl_linke_set_interface chip) wl_linke_halt else ret ())
       (wl_dm_read_block addr n)"

definition wl_linke_can_flash :: "wl_chip_t option \<Rightarrow> bool" where
  "wl_linke_can_flash chip =
     (case chip of None \<Rightarrow> False | Some c \<Rightarrow> algo c \<noteq> WL_FLASH_UNSUPPORTED)"

section \<open>Writing and verifying\<close>

definition wl_flash_write ::
  "wl_chip_t option \<Rightarrow> u32 \<Rightarrow> u8 list option \<Rightarrow> progress_fn option \<Rightarrow> ('x, 'w, unit) lprog" where
  "wl_flash_write chip addr im progress =
     (case (chip, im) of
        (Some c, Some img) \<Rightarrow>
          if length img = 0 then fail WL_ERR_USAGE
          else if algo c = WL_FLASH_UNSUPPORTED then fail WL_ERR_NOT_IMPLEMENTED
          else
            (let start = normalise c addr in
             if \<not> wl_flash_range_ok chip addr (length img) then fail WL_ERR_USAGE
             else
               (case algo c of
                  WL_FLASH_CH32V0 \<Rightarrow> wl_flash_ch32v0_write c start img progress
                | WL_FLASH_UNSUPPORTED \<Rightarrow> fail WL_ERR_NOT_IMPLEMENTED))
      | _ \<Rightarrow> fail WL_ERR_USAGE)"

text \<open>The comparison loop, in chunks of the 256-byte buffer.\<close>

function verify_loop ::
  "wl_chip_t option \<Rightarrow> u32 \<Rightarrow> u8 list \<Rightarrow> progress_fn option \<Rightarrow> nat \<Rightarrow> ('x, 'w, unit) lprog" where
  "verify_loop chip start expected progress doneb =
     (if doneb < length expected then
        (let chunk = min (length expected - doneb) 256 in
         andThen (wl_linke_read_memory chip (start + of_nat doneb) chunk) (\<lambda>buffer.
           if buffer \<noteq> take chunk (drop doneb expected) then fail WL_ERR_VERIFY
           else andDo (report progress (doneb + chunk) (length expected))
                  (verify_loop chip start expected progress (doneb + chunk))))
      else ret ())"
  by pat_completeness auto
termination
  by (relation "measure (\<lambda>(chip, start, expected, progress, doneb). length expected - doneb)") auto

declare verify_loop.simps [simp del]

definition wl_flash_verify ::
  "wl_chip_t option \<Rightarrow> u32 \<Rightarrow> u8 list option \<Rightarrow> progress_fn option \<Rightarrow> ('x, 'w, unit) lprog" where
  "wl_flash_verify chip addr im progress =
     (case (chip, im) of
        (Some c, Some img) \<Rightarrow> verify_loop chip (normalise c addr) img progress 0
      | _ \<Rightarrow> fail WL_ERR_USAGE)"

text \<open>
  The whole flash command: set up, halt, write, verify when asked to, and let the target run again
  after the write, whatever verification said.
\<close>

definition wl_linke_write_flash ::
  "wl_chip_t option \<Rightarrow> u32 \<Rightarrow> u8 list option \<Rightarrow> bool \<Rightarrow> progress_fn option \<Rightarrow> progress_fn option
     \<Rightarrow> ('x, 'w, unit) lprog" where
  "wl_linke_write_flash chip addr im verify wprogress vprogress =
     (if chip = None then fail WL_ERR_USAGE
      else
        andDo (wl_linke_set_interface chip)
       (andDo wl_linke_halt
       (andDo (wl_flash_write chip addr im wprogress)
       (cleanup (if verify then wl_flash_verify chip addr im vprogress else ret ())
          wl_linke_resume))))"

section \<open>Every command returns and reports a real error\<close>

lemma safe_flash_write:
  fixes L :: "('x, 'w) origin"
  assumes H: "H WL_ERR_USB" "H WL_ERR_TARGET" "H WL_ERR_USAGE" "H WL_ERR_NOT_IMPLEMENTED"
    and c: "chip_ok c"
  shows "safe (same_link L) H (wl_flash_write (Some c) addr im pr)"
proof (cases "\<exists>img. im = Some img \<and> img \<noteq> [] \<and> algo c = WL_FLASH_CH32V0 \<and>
    wl_flash_range_ok (Some c) addr (length img)")
  case False
  then show ?thesis using H
    by (auto simp: wl_flash_write_def Let_def intro!: safe_intro split: option.split wl_flash_algo.split)
next
  case True
  then obtain img where img: "im = Some img" "img \<noteq> []" "algo c = WL_FLASH_CH32V0"
    "wl_flash_range_ok (Some c) addr (length img)" by blast
  have ok: "erase_size c = 64" "flash_base c = FB_V" "unat (flash_size c) \<le> 0x10000"
    using c img by (auto simp: chip_ok_def)
  let ?a = "normalise c addr"
  have "unat ?a + length img \<le> unat FB_V + unat (flash_size c)"
    using img(4) ok by (auto simp: range_ok_unfold Let_def split: if_splits)
  then have "unat ?a + length img \<le> 0x08010000" using ok(3) by (simp add: FB_V_def)
  then have "unat (?a + of_nat (length img)) \<le> 0x08010000"
    by (simp add: unat_word_ariths unat_of_nat)
  then have "unat (?a + of_nat (length img)) + unat (64 :: u32) < 2 ^ 32" by simp
  then have "safe (same_link L) H (wl_flash_ch32v0_write c ?a img pr)"
    unfolding wl_flash_ch32v0_write_def Let_def ok
    using H by (intro safe_intro safe_write_pages) (simp_all add: FLASH_MERGE_MAX_def)
  moreover have "(wl_flash_write (Some c) addr im pr :: ('x, 'w, unit) lprog) = wl_flash_ch32v0_write c ?a img pr"
    using img by (simp add: wl_flash_write_def)
  ultimately show ?thesis by simp
qed

lemma safe_read_memory [safe_intro]:
  "H WL_ERR_USB \<Longrightarrow> H WL_ERR_TARGET \<Longrightarrow> safe (same_link L) H (wl_linke_read_memory ch a n)"
  unfolding wl_linke_read_memory_def by (cases ch) (auto intro!: safe_intro)

lemma safe_verify_loop [safe_intro]:
  assumes "H WL_ERR_USB" "H WL_ERR_TARGET" "H WL_ERR_VERIFY"
  shows "safe (same_link L) H (verify_loop ch start e pr d)"
proof (induction ch start e pr d rule: verify_loop.induct)
  case (1 ch start e pr d)
  then show ?case
    unfolding verify_loop.simps [of ch start e pr d] using assms by (auto intro!: safe_intro)
qed

lemma safe_verify [safe_intro]:
  "H WL_ERR_USB \<Longrightarrow> H WL_ERR_TARGET \<Longrightarrow> H WL_ERR_VERIFY \<Longrightarrow> H WL_ERR_USAGE \<Longrightarrow>
     safe (same_link L) H (wl_flash_verify ch a im pr)"
  unfolding wl_flash_verify_def by (cases ch; cases im) (auto intro!: safe_intro)

lemma safe_write_flash:
  assumes H: "H WL_ERR_USB" "H WL_ERR_TARGET" "H WL_ERR_USAGE" "H WL_ERR_NOT_IMPLEMENTED" "H WL_ERR_VERIFY"
    and c: "chip_ok c"
  shows "safe (same_link L) H (wl_linke_write_flash (Some c) addr im v wp vp)"
  unfolding wl_linke_write_flash_def using H c
  by (auto intro!: safe_intro safe_flash_write)

section \<open>Reading and comparing on a target that keeps its contract\<close>

text \<open>The link remembers that the programmer is set up for the part.\<close>

definition set_for :: "wl_chip_t \<Rightarrow> ('x, 'w) sess \<Rightarrow> bool" where
  "set_for c s \<longleftrightarrow> lk_configured (link s) \<and> lk_chip_id (link s) = linke_id c"

definition verify_calls ::
  "progress_fn option \<Rightarrow> nat \<Rightarrow> nat \<Rightarrow> (progress_fn \<times> nat \<times> nat) list" where
  "verify_calls progress n doneb =
     concat (map (\<lambda>j. called progress (min (doneb + 256 * j + 256) n) n) [0..<(n - doneb + 255) div 256])"

lemma verify_calls_step:
  assumes "doneb < n"
  shows "verify_calls progress n doneb =
     called progress (doneb + min (n - doneb) 256) n @
      verify_calls progress n (doneb + min (n - doneb) 256)"
proof (cases "n - doneb \<le> 256")
  case True
  with assms have "(n - doneb + 255) div 256 = 1" by simp
  with True assms show ?thesis by (simp add: verify_calls_def)
next
  case False
  then have "(n - doneb + 255) div 256 = Suc ((n - (doneb + 256) + 255) div 256)" by simp
  with False show ?thesis
    by (simp add: verify_calls_def upt_conv_Cons map_Suc_upt [symmetric] comp_def ac_simps del: upt_Suc)
qed

context debug_target
begin

lemma set_and_halt:
  assumes "plugged s" "idle (world s)" "set_for c s \<Longrightarrow> ready (world s)"
  shows "\<exists>s'. andDo (wl_linke_set_interface (Some c)) wl_linke_halt s = Some (Inr (), s') \<and>
     plugged s' \<and> live (world s') \<and> obs (world s') = obs (world s) \<and> calls s' = calls s \<and>
     set_for c s' \<and> (set_for c s \<longrightarrow> link s' = link s)"
  using assms set_interface_ok [OF assms(1), of c]
  by (auto simp: andThen_def halt_ok plugged_def set_for_def live_def ready_ctl ready_iface idle_ctl
      idle_iface obs_ctl obs_iface)

lemma read_memory_ok:
  assumes "plugged s" "idle (world s)" "set_for c s \<Longrightarrow> ready (world s)"
    and "holds (obs (world s)) a bs" "length bs = n"
  shows "\<exists>s'. wl_linke_read_memory (Some c) a n s = Some (Inr bs, s') \<and>
     plugged s' \<and> live (world s') \<and> obs (world s') = obs (world s) \<and> calls s' = calls s \<and>
     set_for c s' \<and> (set_for c s \<longrightarrow> link s' = link s)"
proof -
  obtain s1 where s1: "andDo (wl_linke_set_interface (Some c)) wl_linke_halt s = Some (Inr (), s1)"
    "plugged s1" "live (world s1)" "obs (world s1) = obs (world s)" "calls s1 = calls s"
    "set_for c s1" "set_for c s \<longrightarrow> link s1 = link s"
    using set_and_halt [OF assms(1-3)] by auto
  obtain w where "live w" "obs w = obs (world s)"
    "wl_dm_read_block a n s1 = Some (Inr bs, s1\<lparr>world := w\<rparr>)"
    using read_block_ok [of s1 a bs n] s1 assms by auto
  with s1 show ?thesis
    by (intro exI [of _ "s1\<lparr>world := w\<rparr>"])
      (simp add: wl_linke_read_memory_def andThen_def [of "andThen _ _"] set_for_def)
qed

lemma verify_loop_ok:
  assumes "plugged s" "idle (world s)" "set_for c s \<Longrightarrow> ready (world s)"
    and "holds (obs (world s)) (start + of_nat doneb) (drop doneb actual)"
    and "length actual = length expected" "doneb \<le> length expected"
  shows "\<exists>s'. verify_loop (Some c) start expected progress doneb s =
       Some (if drop doneb actual = drop doneb expected then Inr () else Inl WL_ERR_VERIFY, s') \<and>
     plugged s' \<and> idle (world s') \<and> (set_for c s' \<longrightarrow> ready (world s')) \<and> obs (world s') = obs (world s) \<and>
     (set_for c s \<longrightarrow> link s' = link s) \<and>
     (drop doneb actual = drop doneb expected \<longrightarrow>
        calls s' = calls s @ verify_calls progress (length expected) doneb)"
  using assms
proof (induction "length expected - doneb" arbitrary: doneb s rule: less_induct)
  case less
  let ?n = "length expected"
  show ?case
  proof (cases "doneb < ?n")
    case False
    have stop: "verify_loop (Some c) start expected progress doneb s = Some (Inr (), s)"
      using False by (subst verify_loop.simps) simp
    have "drop doneb actual = drop doneb expected" "verify_calls progress ?n doneb = []"
      using False less.prems(5) by (simp_all add: verify_calls_def)
    then show ?thesis using less.prems(1-3) stop by (intro exI [of _ s]) simp
  next
    case True
    define chunk where "chunk = min (?n - doneb) 256"
    have chunk: "0 < chunk" "doneb + chunk \<le> ?n" using True by (auto simp: chunk_def)
    have "holds (obs (world s)) (start + of_nat doneb) (take chunk (drop doneb actual))"
      using less.prems(4) by (auto simp: holds_def)
    moreover have "length (take chunk (drop doneb actual)) = chunk"
      using chunk less.prems(5) by simp
    ultimately obtain s1 where s1: "wl_linke_read_memory (Some c) (start + of_nat doneb) chunk s =
        Some (Inr (take chunk (drop doneb actual)), s1)"
      "plugged s1" "live (world s1)" "obs (world s1) = obs (world s)" "calls s1 = calls s"
      "set_for c s1" "set_for c s \<longrightarrow> link s1 = link s"
      using read_memory_ok [OF less.prems(1-3)] by blast
    have split: "drop doneb actual = drop doneb expected \<longleftrightarrow>
        take chunk (drop doneb actual) = take chunk (drop doneb expected) \<and>
        drop (doneb + chunk) actual = drop (doneb + chunk) expected"
      by (metis append_take_drop_id drop_drop add.commute)
    show ?thesis
    proof (cases "take chunk (drop doneb actual) = take chunk (drop doneb expected)")
      case False
      then show ?thesis using True s1 split
        by (simp add: verify_loop.simps [of _ _ _ _ doneb] andThen_def chunk_def [symmetric] Let_def live_def)
    next
      case same: True
      let ?s = "s1\<lparr>calls := calls s1 @ called progress (doneb + chunk) ?n\<rparr>"
      have "verify_loop (Some c) start expected progress doneb s =
          verify_loop (Some c) start expected progress (doneb + chunk) ?s"
        using True s1(1) same
        by (simp add: verify_loop.simps [of _ _ _ _ doneb] andThen_def chunk_def [symmetric] Let_def report_def)
      moreover have "holds (obs (world ?s)) (start + of_nat (doneb + chunk)) (drop (doneb + chunk) actual)"
        using holds_drop [OF less.prems(4), of chunk] less.prems(5) chunk s1
        by (simp add: add.assoc add.commute [of chunk])
      moreover have "?n - (doneb + chunk) < ?n - doneb" using chunk by simp
      moreover have "verify_calls progress ?n doneb =
          called progress (doneb + chunk) ?n @ verify_calls progress ?n (doneb + chunk)"
        using verify_calls_step [OF True] by (simp add: chunk_def)
      ultimately show ?thesis
        using less.hyps [of "doneb + chunk" ?s] less.prems s1 chunk split same
        by (auto simp: live_def set_for_def)
    qed
  qed
qed

lemma verify_ok:
  assumes "plugged s" "idle (world s)" "set_for c s \<Longrightarrow> ready (world s)"
    and "holds (obs (world s)) (normalise c addr) actual" "length actual = length expected"
  shows "\<exists>s'. wl_flash_verify (Some c) addr (Some expected) progress s =
       Some (if actual = expected then Inr () else Inl WL_ERR_VERIFY, s') \<and>
     plugged s' \<and> idle (world s') \<and> (set_for c s' \<longrightarrow> ready (world s')) \<and> obs (world s') = obs (world s) \<and>
     (set_for c s \<longrightarrow> link s' = link s) \<and>
     (actual = expected \<longrightarrow> calls s' = calls s @ verify_calls progress (length expected) 0)"
  using verify_loop_ok [of s c "normalise c addr" 0 actual expected progress] assms
  by (simp add: wl_flash_verify_def)

end

section \<open>The flash command always returns\<close>

text \<open>C8: on any transport, whatever it answers, the flash command for a part of the table
  returns: the page loop, the polling loops and the verification loop all end, the
  programmer has been reached only through the link's own transport, and a failure is one of
  the five documented error statuses.\<close>

theorem flash_write_returns:
  assumes "c \<in> set chips"
  shows "safe (same_link L)
     (\<lambda>e. e \<in> {WL_ERR_USB, WL_ERR_TARGET, WL_ERR_USAGE, WL_ERR_NOT_IMPLEMENTED, WL_ERR_VERIFY})
     (wl_linke_write_flash (Some c) addr im verify wp vp)"
  using assms by (intro safe_write_flash chip_okD) simp_all

text \<open>A programmer that never answers.\<close>

definition dead_transport :: "(unit, unit) wl_transport" where
  "dead_transport =
     \<lparr>tr_command = (\<lambda>cx request mx w. ((-1, []), w)), tr_bulk_out = (\<lambda>cx bs w. (-1, w))\<rparr>"

theorem flash_write_returns_witness:
  "\<exists>r s'. wl_linke_write_flash (Some (hd chips)) 0 (Some [1, 2, 3]) True (Some Write_progress) (Some Verify_progress)
       \<lparr>link = wl_linke_attach_transport dead_transport None, world = (), calls = []\<rparr> = Some (r, s')"
proof -
  have "hd chips \<in> set chips" by (simp add: chips_def chip_table)
  from flash_write_returns [OF this, where addr = 0 and im = "Some [1, 2, 3]" and verify = True
      and wp = "Some Write_progress" and vp = "Some Verify_progress" and L = "(wl_linke_attach_transport dead_transport None, ())"]
  show ?thesis by (rule safeE) (auto simp: same_link_def)
qed

end
