(* ===== verification/GdbTarget.thy ===== *)
theory GdbTarget
  imports GdbText Flash
begin

text \<open>
  The state of a debugging connection of \<^verbatim>\<open>src/gdb_server.c\<close> and what the server does to the
  target: the socket calls, halting and stepping through the debug module, memory patches and the
  table of software breakpoints.  Delays (\<^verbatim>\<open>nanosleep\<close>) have no effect on the state, and
  \<^verbatim>\<open>malloc\<close> is taken to succeed.
\<close>

section \<open>The connection\<close>

definition GDB_DMCONTROL_HALT :: u32 where "GDB_DMCONTROL_HALT = 0x80000001"
definition GDB_DMCONTROL_RESUME :: u32 where "GDB_DMCONTROL_RESUME = 0x40000001"
definition GDB_DMSTATUS_ANYRUNNING :: u32 where "GDB_DMSTATUS_ANYRUNNING = push_bit 10 1"
definition GDB_DCSR_STEP :: u32 where "GDB_DCSR_STEP = push_bit 2 1"
definition GDB_DCSR_EBREAK_BITS :: u32 where "GDB_DCSR_EBREAK_BITS = 0xb600"
definition GDB_MAX_BREAKPOINTS :: nat where "GDB_MAX_BREAKPOINTS = 8"

record gdb_breakpoint =
  bp_used :: bool
  bp_address :: u32
  bp_kind :: u32
  bp_original :: "u8 list"

text \<open>What a \<^verbatim>\<open>send\<close> comes back with: the number of bytes it took, an interruption, an error.\<close>

datatype send_event = Moved nat | Send_interrupted | Send_failed

text \<open>
  The connection is the C structure together with the link it points to and with the socket:
  \<open>g_in\<close> is what will still be received, \<open>g_sends\<close> how the next sends will go (each takes
  everything once the list is used up), \<open>g_polls\<close> the next answers of \<^verbatim>\<open>poll\<close> (not readable once
  used up), and \<open>g_out\<close> what has been sent.
\<close>

record ('x, 'w) gdb_conn =
  g_sess :: "('x, 'w) sess"
  g_chip :: wl_chip_t
  g_quit :: bool
  g_bps :: "gdb_breakpoint list"
  g_in :: "recv_event list"
  g_sends :: "send_event list"
  g_polls :: "bool list"
  g_out :: string

type_synonym ('x, 'w, 'a) gprog = "(('x, 'w) gdb_conn, wl_status, 'a) prog"

text \<open>A call on the link, made from the server.\<close>

definition on_link :: "('x, 'w, 'a) lprog \<Rightarrow> ('x, 'w, 'a) gprog" where
  "on_link m c = (case m (g_sess c) of None \<Rightarrow> None | Some (r, s) \<Rightarrow> Some (r, c\<lparr>g_sess := s\<rparr>))"

section \<open>The socket\<close>

text \<open>The answer is whether everything was sent, what was sent, and how later sends will go.\<close>

fun gdb_send_all :: "send_event list \<Rightarrow> string \<Rightarrow> bool \<times> string \<times> send_event list" where
  "gdb_send_all [] p = (True, p, [])"
| "gdb_send_all (e # es) p =
     (if p = [] then (True, [], e # es)
      else case e of
          Send_failed \<Rightarrow> (False, [], es)
        | Send_interrupted \<Rightarrow> gdb_send_all es p
        | Moved n \<Rightarrow>
            (case gdb_send_all es (drop n p) of (ok, sent, es') \<Rightarrow> (ok, take n p @ sent, es')))"

text \<open>
  The loop of \<^verbatim>\<open>gdb_send_packet\<close> that waits for the acknowledgement; the answer is whether the
  connection is to be given up, what was sent again, and what is left of the two event lists.  It ends
  because the events are a finite list, after which the connection is closed; \<open>ack_loop\<close> of the theory
  \<^verbatim>\<open>GdbAck\<close> is the same loop on a peer that need not stop.
\<close>

function await_ack ::
  "string \<Rightarrow> recv_event list \<Rightarrow> send_event list
     \<Rightarrow> bool \<times> string \<times> recv_event list \<times> send_event list" where
  "await_ack frame es ss =
     (case gdb_recv_byte es of
        (None, es') \<Rightarrow> (True, [], es', ss)
      | (Some reply, es') \<Rightarrow>
          if reply = CHR ''+'' then (False, [], es', ss)
          else if reply = CHR ''-'' then
            (case gdb_send_all ss frame of (ok, sent, ss') \<Rightarrow>
              (case await_ack frame es' ss' of (quit, out, rest) \<Rightarrow>
                (\<not> ok \<or> quit, sent @ out, rest)))
          else await_ack frame es' ss)"
  by pat_completeness auto
termination
  by (relation "measure (\<lambda>(frame, es, ss). length es)") (auto simp: recv_byte_shorter)

declare await_ack.simps [simp del]

definition gdb_send_packet :: "string \<Rightarrow> ('x, 'w, unit) gprog" where
  "gdb_send_packet payload =
     updates (\<lambda>c.
       case gdb_send_all (g_sends c) (framed payload) of (ok, sent, ss) \<Rightarrow>
         if \<not> ok then c\<lparr>g_quit := True, g_sends := ss, g_out := g_out c @ sent\<rparr>
         else
           (case await_ack (framed payload) (g_in c) ss of (quit, again, es, ss') \<Rightarrow>
              c\<lparr>g_quit := g_quit c \<or> quit, g_in := es, g_sends := ss',
                g_out := g_out c @ sent @ again\<rparr>))"

definition gdb_send_text :: "string \<Rightarrow> ('x, 'w, unit) gprog" where
  "gdb_send_text t = gdb_send_packet t"

definition gdb_recv_packet :: "nat \<Rightarrow> ('x, 'w, string option) gprog" where
  "gdb_recv_packet out_max c =
     (case receive (g_in c) out_max of (r, ack, es) \<Rightarrow>
       (case gdb_send_all (g_sends c) ack of (ok, sent, ss) \<Rightarrow>
         Some (Inr r, c\<lparr>g_in := es, g_sends := ss, g_out := g_out c @ sent\<rparr>)))"

section \<open>Running and stopping the target\<close>

definition gdb_dm_halt :: "('x, 'w, unit) lprog" where
  "gdb_dm_halt = wl_linke_dmi_write WL_DMI_DMCONTROL GDB_DMCONTROL_HALT"

definition gdb_dm_is_halted :: "('x, 'w, bool) lprog" where
  "gdb_dm_is_halted =
     attempt (wl_linke_dmi_read WL_DMI_DMSTATUS) (\<lambda>r. case r of
         Inl e \<Rightarrow> ret True
       | Inr st \<Rightarrow> ret (st AND GDB_DMSTATUS_ANYRUNNING = 0))"

fun wait_halted :: "nat \<Rightarrow> ('x, 'w, unit) lprog" where
  "wait_halted 0 = fail WL_ERR_TARGET"
| "wait_halted (Suc n) =
     andThen gdb_dm_is_halted (\<lambda>halted. if halted then ret () else wait_halted n)"

definition gdb_dm_wait_halted :: "('x, 'w, unit) lprog" where
  "gdb_dm_wait_halted = wait_halted 2000"

definition gdb_dm_enable_ebreak :: "('x, 'w, unit) lprog" where
  "gdb_dm_enable_ebreak =
     andThen wl_dm_dcsr_read (\<lambda>dcsr. wl_dm_dcsr_write (dcsr OR GDB_DCSR_EBREAK_BITS))"

definition gdb_resume :: "('x, 'w, unit) lprog" where
  "gdb_resume =
     andDo (ignoring gdb_dm_enable_ebreak)
       (wl_linke_dmi_write WL_DMI_DMCONTROL GDB_DMCONTROL_RESUME)"

definition gdb_step :: "('x, 'w, unit) lprog" where
  "gdb_step =
     andThen wl_dm_dcsr_read (\<lambda>dcsr0.
       (let dcsr = dcsr0 OR (GDB_DCSR_EBREAK_BITS OR GDB_DCSR_STEP) in
        andDo (wl_dm_dcsr_write dcsr)
         (cleanup (andDo gdb_resume gdb_dm_wait_halted)
           (wl_dm_dcsr_write (dcsr AND NOT GDB_DCSR_STEP)))))"

section \<open>Memory\<close>

definition gdb_addr_is_flash :: "wl_chip_t \<Rightarrow> u32 \<Rightarrow> bool" where
  "gdb_addr_is_flash chip address = wl_flash_range_ok (Some chip) address 1"

definition gdb_normalise_flash :: "wl_chip_t \<Rightarrow> u32 \<Rightarrow> u32" where
  "gdb_normalise_flash chip address =
     (if flash_base chip = 0x08000000 \<and> address AND 0xff000000 = 0 then address OR 0x08000000
      else address)"

definition gdb_mem_read :: "u32 \<Rightarrow> nat \<Rightarrow> ('x, 'w, u8 list) lprog" where
  "gdb_mem_read address n = wl_dm_read_block address n"

definition gdb_mem_patch :: "wl_chip_t \<Rightarrow> u32 \<Rightarrow> u8 list \<Rightarrow> ('x, 'w, unit) lprog" where
  "gdb_mem_patch chip address bytes =
     (if gdb_addr_is_flash chip address then
        (let page_size = erase_size chip in
         if page_size = 0 \<or> 4096 < page_size then fail WL_ERR_USAGE
         else
           (let page_start = address AND NOT (page_size - 1) in
            andThen (wl_dm_read_block page_start (unat page_size)) (\<lambda>page.
              wl_flash_write (Some chip) (gdb_normalise_flash chip page_start)
                (Some (write_at (unat (address - page_start)) bytes page)) None)))
      else if length bytes = 2 then
        wl_dm_write16 address (ucast (bytes ! 0) OR push_bit 8 (ucast (bytes ! 1)))
      else if length bytes = 4 then
        wl_dm_write32 address (word_of (bytes ! 0) (bytes ! 1) (bytes ! 2) (bytes ! 3))
      else fail WL_ERR_USAGE)"

section \<open>Breakpoints\<close>

definition no_breakpoint :: gdb_breakpoint where
  "no_breakpoint = \<lparr>bp_used = False, bp_address = 0, bp_kind = 0, bp_original = [0, 0, 0, 0]\<rparr>"

text \<open>The index of the first slot with a property.\<close>

fun first_slot :: "(gdb_breakpoint \<Rightarrow> bool) \<Rightarrow> gdb_breakpoint list \<Rightarrow> nat option" where
  "first_slot P [] = None"
| "first_slot P (b # bs) = (if P b then Some 0 else map_option Suc (first_slot P bs))"

definition set_slot :: "nat \<Rightarrow> (gdb_breakpoint \<Rightarrow> gdb_breakpoint) \<Rightarrow> ('x, 'w, unit) gprog" where
  "set_slot i f = updates (\<lambda>c. c\<lparr>g_bps := (g_bps c)[i := f (g_bps c ! i)]\<rparr>)"

definition replacement :: "u32 \<Rightarrow> u8 list" where
  "replacement kind = (if kind = 4 then [0x73, 0x00, 0x10, 0x00] else [0x02, 0x90, 0x00, 0x00])"

text \<open>
  The bytes read go straight into the slot, used or not; nobody looks at them as long as the slot
  is free.  What a failed read leaves there is not modelled.
\<close>

definition gdb_breakpoint_insert :: "u32 \<Rightarrow> u32 \<Rightarrow> ('x, 'w, bool) gprog" where
  "gdb_breakpoint_insert address kind =
     (if (kind \<noteq> 2 \<and> kind \<noteq> 4) \<or> address mod kind \<noteq> 0 then ret False
      else andThen (reads (\<lambda>c. (g_chip c, first_slot (\<lambda>b. \<not> bp_used b) (g_bps c)))) (\<lambda>(chip, slot).
        case slot of
          None \<Rightarrow> ret False
        | Some i \<Rightarrow>
            attempt (on_link (gdb_mem_read address (unat kind))) (\<lambda>r. case r of
                Inl e \<Rightarrow> ret False
              | Inr original \<Rightarrow>
                  andDo (set_slot i (\<lambda>b. b\<lparr>bp_original := write_at 0 original (bp_original b)\<rparr>))
                    (attempt (on_link (gdb_mem_patch chip address (take (unat kind) (replacement kind))))
                      (\<lambda>r. case r of
                         Inl e \<Rightarrow> ret False
                       | Inr _ \<Rightarrow>
                           andDo (set_slot i (\<lambda>b. b\<lparr>bp_used := True, bp_address := address, bp_kind := kind\<rparr>))
                             (ret True))))))"

definition gdb_breakpoint_remove :: "u32 \<Rightarrow> u32 \<Rightarrow> ('x, 'w, bool) gprog" where
  "gdb_breakpoint_remove address kind =
     andThen (reads (\<lambda>c. (g_chip c, g_bps c))) (\<lambda>(chip, bps).
       case first_slot (\<lambda>b. bp_used b \<and> bp_address b = address \<and> bp_kind b = kind) bps of
         None \<Rightarrow> ret False
       | Some i \<Rightarrow>
           attempt (on_link (gdb_mem_patch chip address (take (unat (bp_kind (bps ! i))) (bp_original (bps ! i)))))
             (\<lambda>r. case r of
                Inl e \<Rightarrow> ret False
              | Inr _ \<Rightarrow> andDo (set_slot i (\<lambda>b. b\<lparr>bp_used := False\<rparr>)) (ret True)))"

text \<open>One turn of the loop over the table, and the loop.\<close>

definition clear_slot :: "nat \<Rightarrow> ('x, 'w, unit) gprog" where
  "clear_slot i =
     andThen (reads (\<lambda>c. (g_chip c, g_bps c ! i))) (\<lambda>(chip, b).
       if bp_used b then
         andDo (ignoring (on_link (gdb_mem_patch chip (bp_address b) (take (unat (bp_kind b)) (bp_original b)))))
           (set_slot i (\<lambda>b. b\<lparr>bp_used := False\<rparr>))
       else ret ())"

fun clear_slots :: "nat list \<Rightarrow> ('x, 'w, unit) gprog" where
  "clear_slots [] = ret ()"
| "clear_slots (i # is) = andDo (clear_slot i) (clear_slots is)"

definition gdb_breakpoints_clear :: "('x, 'w, unit) gprog" where
  "gdb_breakpoints_clear = clear_slots [0..<GDB_MAX_BREAKPOINTS]"

end
