(* ===== verification/GdbMonitor.thy ===== *)
theory GdbMonitor
  imports GdbTarget
begin

text \<open>
  The monitor commands of \<^verbatim>\<open>src/gdb_server.c\<close>: output packets, the command words and what each of
  them does, and the stop replies.  Texts are those of the source, the newline being character 10.
\<close>

section \<open>Output\<close>

text \<open>The C string that starts a buffer.\<close>

definition cstr :: "string \<Rightarrow> string" where
  "cstr s = takeWhile (\<lambda>c. c \<noteq> CHR 0x00) s"

definition line :: "string \<Rightarrow> string" where
  "line s = s @ [CHR 0x0a]"

function send_chunks :: "string \<Rightarrow> ('x, 'w, unit) gprog" where
  "send_chunks t =
     (if t = [] then ret ()
      else
        (let count = min (length t) ((GDB_PACKET_MAX - 1) div 2) in
         andDo (gdb_send_packet (CHR ''O'' # concat (map (\<lambda>c. format_hex_byte (byte c)) (take count t))))
           (send_chunks (drop count t))))"
  by pat_completeness auto
termination
  by (relation "measure length") (auto simp: GDB_PACKET_MAX_def)

declare send_chunks.simps [simp del]

definition gdb_send_output :: "string \<Rightarrow> ('x, 'w, unit) gprog" where
  "gdb_send_output t = send_chunks (cstr t)"

section \<open>The commands\<close>

definition gdb_monitor_help :: "('x, 'w, unit) gprog" where
  "gdb_monitor_help = gdb_send_output (concat (map line
     [''wchlink monitor commands:'',
      ''  help                     this text'',
      ''  reset                    reset and halt'',
      ''  halt                     halt the core'',
      ''  resume                   resume the core'',
      ''  info                     dmstatus/dcsr/pc'',
      ''  regs                     x0-x15 and pc'',
      ''  read32 <addr>            read one word'',
      ''  write32 <addr> <value>   write one word'',
      ''  getcsr <csr>             read a CSR'',
      ''  setcsr <csr> <value>     write a CSR'']))"

text \<open>The conversion \<^verbatim>\<open>%-2u\<close>.\<close>

definition left2 :: "nat \<Rightarrow> string" where
  "left2 n = dec_str n @ replicate (2 - length (dec_str n)) (CHR '' '')"

fun monitor_gprs :: "u32 list \<Rightarrow> ('x, 'w, unit) gprog \<Rightarrow> ('x, 'w, unit) gprog" where
  "monitor_gprs [] rest = rest"
| "monitor_gprs (reg # regs) rest =
     attempt (on_link (wl_dm_gpr_read reg)) (\<lambda>r. case r of
         Inl e \<Rightarrow> gdb_send_output (line ''register read failed'')
       | Inr value \<Rightarrow>
           andDo (gdb_send_output (line (CHR ''x'' # left2 (unat reg) @ '' = 0x'' @ hex8 value)))
             (monitor_gprs regs rest))"

definition gdb_monitor_regs :: "('x, 'w, unit) gprog" where
  "gdb_monitor_regs =
     monitor_gprs (map of_nat [0..<GDB_RV32E_GPRS])
       (attempt (on_link wl_dm_pc_read) (\<lambda>r. case r of
          Inl e \<Rightarrow> ret ()
        | Inr pc \<Rightarrow> gdb_send_output (line (''pc  = 0x'' @ hex8 pc))))"

text \<open>A value that is reported when it can be read.\<close>

definition show_value :: "string \<Rightarrow> ('x, 'w, u32) lprog \<Rightarrow> ('x, 'w, unit) gprog" where
  "show_value label m =
     attempt (on_link m) (\<lambda>r. case r of
         Inl e \<Rightarrow> ret ()
       | Inr v \<Rightarrow> gdb_send_output (line (label @ '' = 0x'' @ hex8 v)))"

definition gdb_monitor_info :: "('x, 'w, unit) gprog" where
  "gdb_monitor_info =
     andDo (show_value ''dmstatus'' (wl_linke_dmi_read WL_DMI_DMSTATUS))
    (andDo (show_value ''dcsr    '' wl_dm_dcsr_read)
       (show_value ''pc      '' wl_dm_pc_read))"

definition monitor_reset :: "('x, 'w, unit) gprog" where
  "monitor_reset =
     andDo (on_link (ignoring (wl_linke_dmi_write WL_DMI_DMCONTROL 0x80000003)))
    (andDo (on_link (ignoring (wl_linke_dmi_write WL_DMI_DMCONTROL 0x80000001)))
    (andDo (on_link (ignoring (wl_linke_dmi_write WL_DMI_DMCONTROL 0x80000001)))
    (andDo (on_link (ignoring gdb_dm_wait_halted))
    (andDo (on_link (ignoring gdb_dm_enable_ebreak))
       (gdb_send_output (line ''reset/halt''))))))"

definition monitor_halt :: "('x, 'w, unit) gprog" where
  "monitor_halt =
     andDo (on_link (ignoring gdb_dm_halt))
    (andDo (on_link (ignoring gdb_dm_wait_halted))
    (andDo (on_link (ignoring gdb_dm_enable_ebreak))
       (gdb_send_output (line ''halted''))))"

text \<open>
  The commands with arguments: hexadecimal numbers, then one access whose failure, like a malformed
  number, is reported in the text.
\<close>

definition number :: "string \<Rightarrow> u32 option" where
  "number t = map_option fst (parse_hex_u32 t)"

definition monitor_get ::
  "string \<Rightarrow> string \<Rightarrow> (u32 \<Rightarrow> ('x, 'w, u32) lprog) \<Rightarrow> (u32 \<Rightarrow> string) \<Rightarrow> ('x, 'w, unit) gprog" where
  "monitor_get word arg access label =
     (case number arg of
        None \<Rightarrow> gdb_send_output (line (word @ '' failed''))
      | Some n \<Rightarrow>
          attempt (on_link (access n)) (\<lambda>r. case r of
              Inl e \<Rightarrow> gdb_send_output (line (word @ '' failed''))
            | Inr v \<Rightarrow> gdb_send_output (line (label n @ '' = 0x'' @ hex8 v))))"

definition monitor_set ::
  "string \<Rightarrow> string \<Rightarrow> string \<Rightarrow> (u32 \<Rightarrow> u32 \<Rightarrow> ('x, 'w, unit) lprog) \<Rightarrow> ('x, 'w, unit) gprog" where
  "monitor_set word arg1 arg2 access =
     (case (number arg1, number arg2) of
        (Some n, Some v) \<Rightarrow>
          attempt (on_link (access n v)) (\<lambda>r. case r of
              Inl e \<Rightarrow> gdb_send_output (line (word @ '' failed''))
            | Inr _ \<Rightarrow> gdb_send_output (line ''OK''))
      | _ \<Rightarrow> gdb_send_output (line (word @ '' failed'')))"

text \<open>\<^verbatim>\<open>strtok_r\<close> called again on what the last call left.\<close>

definition next_word :: "(string \<times> string) option \<Rightarrow> (string \<times> string) option" where
  "next_word w = (case w of None \<Rightarrow> None | Some (_, rest) \<Rightarrow> strtok rest)"

definition gdb_monitor_command :: "string \<Rightarrow> ('x, 'w, unit) gprog" where
  "gdb_monitor_command command =
     (let w0 = strtok (cstr command); w1 = next_word w0; w2 = next_word w1;
          word = map_option fst w0; arg1 = map_option fst w1; arg2 = map_option fst w2 in
      if word = None \<or> word = Some ''help'' then gdb_monitor_help
      else if word = Some ''reset'' then monitor_reset
      else if word = Some ''halt'' then monitor_halt
      else if word = Some ''resume'' \<or> word = Some ''continue'' then
        andDo (on_link (ignoring gdb_resume)) (gdb_send_output (line ''running''))
      else if word = Some ''info'' \<or> word = Some ''status'' then gdb_monitor_info
      else if word = Some ''regs'' then gdb_monitor_regs
      else if word = Some ''read32'' \<and> arg1 \<noteq> None then
        monitor_get ''read32'' (the arg1) wl_dm_read32 (\<lambda>n. ''0x'' @ hex8 n)
      else if word = Some ''write32'' \<and> arg1 \<noteq> None \<and> arg2 \<noteq> None then
        monitor_set ''write32'' (the arg1) (the arg2) wl_dm_write32
      else if word = Some ''getcsr'' \<and> arg1 \<noteq> None then
        monitor_get ''getcsr'' (the arg1) wl_dm_csr_read
          (\<lambda>n. ''csr 0x'' @ pad_left (CHR ''0'') 3 (hex_str (unat n)))
      else if word = Some ''setcsr'' \<and> arg1 \<noteq> None \<and> arg2 \<noteq> None then
        monitor_set ''setcsr'' (the arg1) (the arg2) wl_dm_csr_write
      else gdb_send_output (line ''unknown monitor command''))"

definition gdb_handle_qRcmd :: "string \<Rightarrow> ('x, 'w, unit) gprog" where
  "gdb_handle_qRcmd payload =
     (case gdb_decode_hex_string (cstr (drop 6 payload)) 256 of
        None \<Rightarrow> gdb_send_text ''E01''
      | Some command \<Rightarrow> andDo (gdb_monitor_command command) (gdb_send_text ''OK''))"

section \<open>Stops\<close>

definition gdb_send_stop :: "nat \<Rightarrow> ('x, 'w, unit) gprog" where
  "gdb_send_stop sig =
     gdb_send_text (CHR ''T'' # pad_left (CHR ''0'') 2 (hex_str sig) @ ''thread:1;'')"

text \<open>What the server finds when it polls the socket: nothing, or the next byte if one can be read.\<close>

definition poll_socket :: "('x, 'w, char option) gprog" where
  "poll_socket c =
     (let c' = c\<lparr>g_polls := tl (g_polls c)\<rparr> in
      if g_polls c \<noteq> [] \<and> hd (g_polls c) then
        (case gdb_recv_byte (g_in c) of (b, es) \<Rightarrow> Some (Inr b, c'\<lparr>g_in := es\<rparr>))
      else Some (Inr None, c'))"

text \<open>The loop that waits for the target or the user to stop it; it may wait forever.\<close>

partial_function (option) gdb_wait_for_stop ::
  "('x, 'w) gdb_conn \<Rightarrow> ((wl_status + unit) \<times> ('x, 'w) gdb_conn) option" where
  "gdb_wait_for_stop c =
     andThen poll_socket (\<lambda>b c1.
       if b = Some (CHR 0x03) then
         andDo (on_link (ignoring gdb_dm_halt))
        (andDo (on_link (ignoring gdb_dm_wait_halted))
           (gdb_send_stop 2)) c1
       else
         andThen (on_link gdb_dm_is_halted) (\<lambda>halted c2.
           if halted then gdb_send_stop 5 c2 else gdb_wait_for_stop c2) c1) c"

declare gdb_wait_for_stop.simps [code]

end
