(* ===== verification/GdbPacket.thy ===== *)
theory GdbPacket
  imports GdbMonitor
begin

text \<open>
  The packets of \<^verbatim>\<open>src/gdb_server.c\<close>: registers, memory, queries, and the dispatch.  A payload is
  the packet buffer with everything in it, because one handler looks past the terminating NUL: a
  text at an offset is the C string that starts there.
\<close>

section \<open>Characters in a text\<close>

text \<open>\<^verbatim>\<open>strchr\<close> and \<^verbatim>\<open>strrchr\<close>: the rest of the text from the first or the last occurrence on.\<close>

fun strchr :: "char \<Rightarrow> string \<Rightarrow> string option" where
  "strchr x [] = None"
| "strchr x (c # cs) = (if c = x then Some (c # cs) else strchr x cs)"

fun strrchr :: "char \<Rightarrow> string \<Rightarrow> string option" where
  "strrchr x [] = None"
| "strrchr x (c # cs) =
     (case strrchr x cs of Some t \<Rightarrow> Some t | None \<Rightarrow> if c = x then Some (c # cs) else None)"

text \<open>A number that has to be followed by a given character; the rest starts after it.\<close>

definition number_then :: "char \<Rightarrow> string \<Rightarrow> (u32 \<times> string) option" where
  "number_then x t =
     (case parse_hex_u32 t of
        Some (v, c # rest) \<Rightarrow> if c = x then Some (v, rest) else None
      | _ \<Rightarrow> None)"

section \<open>Documents\<close>

definition gdb_qxfer_reply :: "string \<Rightarrow> u32 \<Rightarrow> u32 \<Rightarrow> ('x, 'w, unit) gprog" where
  "gdb_qxfer_reply data offset requested =
     gdb_send_packet (qxfer_payload data (unat offset) (unat requested))"

text \<open>A request is \<^verbatim>\<open>qXfer:object:read:annex:offset,length\<close>.\<close>

definition qxfer_request :: "string \<Rightarrow> (string \<times> string \<times> u32 \<times> u32) option" where
  "qxfer_request object_start =
     (case strchr (CHR '':'') object_start of
        None \<Rightarrow> None
      | Some colon1 \<Rightarrow>
          (case strchr (CHR '':'') (tl colon1) of
             None \<Rightarrow> None
           | Some colon2 \<Rightarrow>
               (case strrchr (CHR '':'') (tl colon2) of
                  None \<Rightarrow> None
                | Some last_colon \<Rightarrow>
                    (let object_len = length object_start - length colon1;
                         annex_start = tl colon2;
                         annex_len = length annex_start - length last_colon in
                     if 64 \<le> object_len \<or> take 5 (tl colon1) \<noteq> ''read:'' \<or> 64 \<le> annex_len then None
                     else
                       (case number_then (CHR '','') (tl last_colon) of
                          None \<Rightarrow> None
                        | Some (offset, rest) \<Rightarrow>
                            map_option
                              (\<lambda>n. (take object_len object_start, take annex_len annex_start, offset, n))
                              (number rest))))))"

definition gdb_handle_qxfer :: "string \<Rightarrow> ('x, 'w, unit) gprog" where
  "gdb_handle_qxfer payload =
     (case qxfer_request (cstr (drop 6 payload)) of
        None \<Rightarrow> gdb_send_text []
      | Some (object, annex, offset, n) \<Rightarrow>
          if object = ''features'' \<and> annex = ''target.xml'' then gdb_qxfer_reply build_target_xml offset n
          else if object = ''memory-map'' \<and> annex = [] then
            andThen (reads g_chip) (\<lambda>chip. gdb_qxfer_reply (build_memory_map chip) offset n)
          else gdb_send_text [])"

section \<open>Registers\<close>

text \<open>The registers one after the other, until one cannot be read.\<close>

fun read_gprs :: "u32 list \<Rightarrow> ('x, 'w, u32 list) lprog" where
  "read_gprs [] = ret []"
| "read_gprs (r # rs) =
     andThen (wl_dm_gpr_read r) (\<lambda>v. andThen (read_gprs rs) (\<lambda>vs. ret (v # vs)))"

definition gdb_handle_g :: "('x, 'w, unit) gprog" where
  "gdb_handle_g =
     attempt (on_link (andThen (read_gprs (map of_nat [0..<GDB_RV32E_GPRS])) (\<lambda>vs.
                andThen wl_dm_pc_read (\<lambda>pc. ret (vs @ [pc])))))
       (\<lambda>r. case r of
          Inl e \<Rightarrow> gdb_send_text ''E01''
        | Inr vs \<Rightarrow> gdb_send_packet (concat (map format_hex_u32_le vs)))"

definition gdb_handle_p :: "string \<Rightarrow> ('x, 'w, unit) gprog" where
  "gdb_handle_p payload =
     (case number (cstr (drop 1 payload)) of
        None \<Rightarrow> gdb_send_text ''E01''
      | Some reg \<Rightarrow>
          if GDB_REG_PC < reg then gdb_send_text ''E01''
          else
            (case strchr (CHR ''='') (cstr payload) of
               None \<Rightarrow>
                 attempt (on_link (if reg = GDB_REG_PC then wl_dm_pc_read else wl_dm_gpr_read reg))
                   (\<lambda>r. case r of
                      Inl e \<Rightarrow> gdb_send_text ''E01''
                    | Inr value \<Rightarrow> gdb_send_text (format_hex_u32_le value))
             | Some eq \<Rightarrow>
                 (case number (tl eq) of
                    None \<Rightarrow> gdb_send_text ''E01''
                  | Some value \<Rightarrow>
                      attempt (on_link (if reg = GDB_REG_PC then wl_dm_pc_write value
                                        else wl_dm_gpr_write reg value))
                        (\<lambda>r. case r of
                           Inl e \<Rightarrow> gdb_send_text ''E01''
                         | Inr _ \<Rightarrow> gdb_send_text ''OK''))))"

section \<open>Memory\<close>

definition gdb_handle_m :: "string \<Rightarrow> ('x, 'w, unit) gprog" where
  "gdb_handle_m payload =
     (case number_then (CHR '','') (cstr (drop 1 payload)) of
        None \<Rightarrow> gdb_send_text ''E01''
      | Some (address, rest) \<Rightarrow>
          (case number rest of
             None \<Rightarrow> gdb_send_text ''E01''
           | Some n \<Rightarrow>
               if GDB_MEMORY_MAX < unat n then gdb_send_text ''E01''
               else
                 attempt (on_link (wl_dm_read_block address (unat n))) (\<lambda>r. case r of
                     Inl e \<Rightarrow> gdb_send_text ''E01''
                   | Inr buffer \<Rightarrow> gdb_send_packet (concat (map format_hex_byte buffer)))))"

fun write_bytes :: "u32 \<Rightarrow> u8 list \<Rightarrow> ('x, 'w, unit) lprog" where
  "write_bytes address [] = ret ()"
| "write_bytes address (b # bs) = andDo (wl_dm_write8 address b) (write_bytes (address + 1) bs)"

definition gdb_handle_M :: "string \<Rightarrow> ('x, 'w, unit) gprog" where
  "gdb_handle_M payload =
     (case number_then (CHR '','') (cstr (drop 1 payload)) of
        None \<Rightarrow> gdb_send_text ''E01''
      | Some (address, rest) \<Rightarrow>
          (case number_then (CHR '':'') rest of
             None \<Rightarrow> gdb_send_text ''E01''
           | Some (n, hex) \<Rightarrow>
               if GDB_MEMORY_MAX < unat n then gdb_send_text ''E01''
               else
                 (case parse_hex_bytes hex (unat n) of
                    None \<Rightarrow> gdb_send_text ''E01''
                  | Some buffer \<Rightarrow>
                      attempt (on_link (write_bytes address buffer)) (\<lambda>r. case r of
                          Inl e \<Rightarrow> gdb_send_text ''E01''
                        | Inr _ \<Rightarrow> gdb_send_text ''OK''))))"

section \<open>Queries\<close>

definition gdb_handle_query :: "string \<Rightarrow> ('x, 'w, unit) gprog" where
  "gdb_handle_query payload =
     (let q = cstr payload in
      if q = ''qSupported'' then
        gdb_send_text (''PacketSize=1000;'' @ ''qXfer:features:read+;'' @
          ''qXfer:memory-map:read+;'' @ ''vContSupported+'')
      else if q = ''qAttached'' then gdb_send_text ''1''
      else if q = ''qC'' then gdb_send_text ''QC1''
      else if q = ''qfThreadInfo'' then gdb_send_text ''m1''
      else if q = ''qsThreadInfo'' then gdb_send_text ''l''
      else if q = ''qTStatus'' then gdb_send_text []
      else if take 6 q = ''qRcmd,'' then gdb_handle_qRcmd payload
      else if take 6 q = ''qXfer:'' then gdb_handle_qxfer payload
      else gdb_send_text [])"

section \<open>The dispatch\<close>

definition continue_target :: "('x, 'w, unit) gprog" where
  "continue_target =
     attempt (on_link gdb_resume) (\<lambda>r. case r of
         Inl e \<Rightarrow> gdb_send_text ''E01''
       | Inr _ \<Rightarrow> gdb_wait_for_stop)"

definition step_target :: "('x, 'w, unit) gprog" where
  "step_target =
     attempt (on_link gdb_step) (\<lambda>r. case r of
         Inl e \<Rightarrow> gdb_send_text ''E01''
       | Inr _ \<Rightarrow> gdb_send_stop 5)"

text \<open>The text of the address starts at index 3 whatever the payload's length is.\<close>

definition breakpoint_packet :: "string \<Rightarrow> ('x, 'w, unit) gprog" where
  "breakpoint_packet payload =
     (if payload ! 1 \<noteq> CHR ''0'' then gdb_send_text []
      else
        (case number_then (CHR '','') (cstr (drop 3 payload)) of
           None \<Rightarrow> gdb_send_text []
         | Some (address, rest) \<Rightarrow>
             (case number rest of
                None \<Rightarrow> gdb_send_text []
              | Some kind \<Rightarrow>
                  andThen (if payload ! 0 = CHR ''Z'' then gdb_breakpoint_insert address kind
                           else gdb_breakpoint_remove address kind)
                    (\<lambda>ok. gdb_send_text (if ok then ''OK'' else [])))))"

definition gdb_handle_packet :: "string \<Rightarrow> ('x, 'w, bool) gprog" where
  "gdb_handle_packet payload =
     (let c0 = payload ! 0 in
      if c0 = CHR ''?'' then andDo (gdb_send_stop 5) (ret True)
      else if c0 = CHR ''g'' then andDo gdb_handle_g (ret True)
      else if c0 = CHR ''p'' \<or> c0 = CHR ''P'' then andDo (gdb_handle_p payload) (ret True)
      else if c0 = CHR ''m'' then andDo (gdb_handle_m payload) (ret True)
      else if c0 = CHR ''M'' then andDo (gdb_handle_M payload) (ret True)
      else if c0 = CHR ''c'' then andDo continue_target (ret True)
      else if c0 = CHR ''s'' then andDo step_target (ret True)
      else if c0 = CHR ''Z'' \<or> c0 = CHR ''z'' then andDo (breakpoint_packet payload) (ret True)
      else if c0 = CHR ''D'' then
        andDo gdb_breakpoints_clear
       (andDo (on_link (ignoring gdb_resume))
       (andDo (gdb_send_text ''OK'')
       (andDo (updates (\<lambda>c. c\<lparr>g_quit := True\<rparr>)) (ret False))))
      else if c0 = CHR ''k'' then
        andDo gdb_breakpoints_clear
       (andDo (updates (\<lambda>c. c\<lparr>g_quit := True\<rparr>)) (ret False))
      else if c0 = CHR ''H'' then andDo (gdb_send_text ''OK'') (ret True)
      else if c0 = CHR ''q'' then andDo (gdb_handle_query payload) (ret True)
      else if c0 = CHR ''v'' then
        (if cstr payload = ''vCont?'' then andDo (gdb_send_text ''vCont;c;C;s;S'') (ret True)
         else if take 6 (cstr payload) = ''vCont;'' then
           andDo (if payload ! 6 = CHR ''s'' \<or> payload ! 6 = CHR ''S'' then step_target
                  else continue_target) (ret True)
         else andDo (gdb_send_text []) (ret True))
      else andDo (gdb_send_text []) (ret True))"

end
