(* ===== verification/Usb.thy ===== *)
theory Usb
  imports Linke
begin

text \<open>
  The USB half of the tool, \<^verbatim>\<open>src/usb.c\<close>.  libusb is not part of the repository: it is the
  parameter \<open>lib\<close>, a record of the calls the file makes, each of which answers and changes the
  world in a way nothing is assumed about.  A negative return code is an \<open>Inl\<close> where a call
  has a result; \<^verbatim>\<open>calloc\<close> is taken to succeed.
\<close>

section \<open>The library\<close>

text \<open>
  \<open>'d\<close> are devices, \<open>'h\<close> open handles.  A descriptor is the vendor, the product, and the indices
  of the serial number and product strings.
\<close>

record ('d, 'h, 'w) libusb =
  lu_init :: "'w \<Rightarrow> int \<times> 'w"
  lu_exit :: "'w \<Rightarrow> 'w"
  lu_get_device_list :: "'w \<Rightarrow> (int + 'd list) \<times> 'w"
  lu_get_descriptor :: "'d \<Rightarrow> 'w \<Rightarrow> (int + u16 \<times> u16 \<times> u8 \<times> u8) \<times> 'w"
  lu_bus_number :: "'d \<Rightarrow> u8"
  lu_device_address :: "'d \<Rightarrow> u8"
  lu_open :: "'d \<Rightarrow> 'w \<Rightarrow> (int + 'h) \<times> 'w"
  lu_close :: "'h \<Rightarrow> 'w \<Rightarrow> 'w"
  lu_get_string :: "'h \<Rightarrow> u8 \<Rightarrow> nat \<Rightarrow> 'w \<Rightarrow> (int + string) \<times> 'w"
  lu_detach_kernel :: "'h \<Rightarrow> 'w \<Rightarrow> 'w"
  lu_claim :: "'h \<Rightarrow> nat \<Rightarrow> 'w \<Rightarrow> int \<times> 'w"
  lu_release :: "'h \<Rightarrow> nat \<Rightarrow> 'w \<Rightarrow> 'w"
  lu_bulk_out :: "'h \<Rightarrow> u8 \<Rightarrow> u8 list \<Rightarrow> nat \<Rightarrow> 'w \<Rightarrow> (int \<times> nat) \<times> 'w"
  lu_bulk_in :: "'h \<Rightarrow> u8 \<Rightarrow> nat \<Rightarrow> nat \<Rightarrow> 'w \<Rightarrow> (int \<times> u8 list) \<times> 'w"
  lu_error_name :: "int \<Rightarrow> string"
  LIBUSB_ERROR_IO :: int
  LIBUSB_ERROR_ACCESS :: int
  LIBUSB_ERROR_NO_DEVICE :: int
  LIBUSB_ERROR_OTHER :: int

record 'h wl_usb_link =
  ul_handle :: "'h option"
  ul_claimed :: bool

text \<open>The static pointer \<^verbatim>\<open>context\<close> is modelled by whether it is set.\<close>

record 'w usb_state =
  us_context :: bool
  us_world :: 'w

section \<open>Constants and names\<close>

definition WL_USB_VID_WCH :: u16 where "WL_USB_VID_WCH = 0x1a86"
definition WL_USB_PID_LINK_RV :: u16 where "WL_USB_PID_LINK_RV = 0x8010"
definition WL_USB_PID_LINK_ARM :: u16 where "WL_USB_PID_LINK_ARM = 0x8012"
definition WL_USB_VID_IAP :: u16 where "WL_USB_VID_IAP = 0x4348"
definition WL_USB_PID_IAP :: u16 where "WL_USB_PID_IAP = 0x55e0"
definition WL_USB_INTERFACE :: nat where "WL_USB_INTERFACE = 0"
definition WL_USB_SERIAL_MAX :: nat where "WL_USB_SERIAL_MAX = 64"
definition WL_USB_PRODUCT_MAX :: nat where "WL_USB_PRODUCT_MAX = 128"
definition WL_USB_EP_BOOT :: u8 where "WL_USB_EP_BOOT = 0x02"
definition WL_USB_MODE_SWITCH_TIMEOUT_MS :: nat where "WL_USB_MODE_SWITCH_TIMEOUT_MS = 1000"
definition WL_USB_EP_COMMAND :: u8 where "WL_USB_EP_COMMAND = 0x01"
definition WL_USB_EP_DATA :: u8 where "WL_USB_EP_DATA = 0x02"
definition WL_USB_EP_REPLY :: u8 where "WL_USB_EP_REPLY = 0x81"
definition WL_USB_TIMEOUT_MS :: nat where "WL_USB_TIMEOUT_MS = 5000"

lemmas usb_ids =
  WL_USB_VID_WCH_def WL_USB_PID_LINK_RV_def WL_USB_PID_LINK_ARM_def WL_USB_VID_IAP_def WL_USB_PID_IAP_def

fun wl_usb_mode_name :: "wl_usb_mode \<Rightarrow> string" where
  "wl_usb_mode_name WL_USB_MODE_RV = ''RISC-V debug''"
| "wl_usb_mode_name WL_USB_MODE_ARM = ''ARM/SWD''"
| "wl_usb_mode_name WL_USB_MODE_IAP = ''USB ISP bootloader''"
| "wl_usb_mode_name WL_USB_MODE_UNKNOWN = ''unknown''"

definition wl_usb_mode_is_usable :: "wl_usb_mode \<Rightarrow> bool" where
  "wl_usb_mode_is_usable mode \<longleftrightarrow> mode = WL_USB_MODE_RV"

definition classify :: "u16 \<Rightarrow> u16 \<Rightarrow> wl_usb_mode" where
  "classify vid pid =
     (if vid = WL_USB_VID_WCH \<and> pid = WL_USB_PID_LINK_RV then WL_USB_MODE_RV
      else if vid = WL_USB_VID_WCH \<and> pid = WL_USB_PID_LINK_ARM then WL_USB_MODE_ARM
      else if vid = WL_USB_VID_IAP \<and> pid = WL_USB_PID_IAP then WL_USB_MODE_IAP
      else if vid = WL_USB_VID_WCH \<and> pid = WL_USB_PID_IAP then WL_USB_MODE_IAP
      else WL_USB_MODE_UNKNOWN)"

definition wl_usb_error_is_access :: "('d, 'h, 'w) libusb \<Rightarrow> int \<Rightarrow> bool" where
  "wl_usb_error_is_access lib code \<longleftrightarrow> code = LIBUSB_ERROR_ACCESS lib"

definition wl_usb_strerror :: "('d, 'h, 'w) libusb \<Rightarrow> int \<Rightarrow> string" where
  "wl_usb_strerror lib code = (if code < 0 then lu_error_name lib code else ''success'')"

section \<open>Bringing the library up and down\<close>

definition wl_usb_global_init :: "('d, 'h, 'w) libusb \<Rightarrow> 'w usb_state \<Rightarrow> int \<times> 'w usb_state" where
  "wl_usb_global_init lib u =
     (if us_context u then (0, u)
      else
        (case lu_init lib (us_world u) of (rc, w) \<Rightarrow>
           if rc < 0 then (rc, u\<lparr>us_context := False, us_world := w\<rparr>)
           else (0, u\<lparr>us_context := True, us_world := w\<rparr>)))"

definition wl_usb_global_exit :: "('d, 'h, 'w) libusb \<Rightarrow> 'w usb_state \<Rightarrow> 'w usb_state" where
  "wl_usb_global_exit lib u =
     (if us_context u then u\<lparr>us_context := False, us_world := lu_exit lib (us_world u)\<rparr> else u)"

section \<open>Scanning the bus\<close>

definition read_string ::
  "('d, 'h, 'w) libusb \<Rightarrow> 'h \<Rightarrow> u8 \<Rightarrow> nat \<Rightarrow> 'w \<Rightarrow> string \<times> 'w" where
  "read_string lib handle index out_len w =
     (if index = 0 then ([], w)
      else
        (case lu_get_string lib handle index out_len w of
           (Inl rc, w') \<Rightarrow> ([], w')
         | (Inr s, w') \<Rightarrow> (take (out_len - 1) s, w')))"

text \<open>What is found out about one device: whether it opens, and if so its strings.\<close>

definition probe_device ::
  "('d, 'h, 'w) libusb \<Rightarrow> 'd \<Rightarrow> u16 \<times> u16 \<times> u8 \<times> u8 \<Rightarrow> 'w \<Rightarrow> wl_usb_info_t \<times> 'w" where
  "probe_device lib d desc w =
     (case desc of (vid, pid, serial, product) \<Rightarrow>
       (let info = \<lparr>ui_mode = classify vid pid, ui_vid = vid, ui_pid = pid, ui_bus = lu_bus_number lib d,
              ui_address = lu_device_address lib d, ui_accessible = False, ui_serial = [], ui_product = []\<rparr>
        in case lu_open lib d w of
             (Inl rc, w1) \<Rightarrow> (info, w1)
           | (Inr handle, w1) \<Rightarrow>
               (case read_string lib handle serial WL_USB_SERIAL_MAX w1 of (s, w2) \<Rightarrow>
               (case read_string lib handle product WL_USB_PRODUCT_MAX w2 of (p, w3) \<Rightarrow>
                 (info\<lparr>ui_accessible := True, ui_serial := s, ui_product := p\<rparr>, lu_close lib handle w3)))))"

fun scan_devices ::
  "('d, 'h, 'w) libusb \<Rightarrow> nat \<Rightarrow> 'd list \<Rightarrow> wl_usb_info_t list \<Rightarrow> 'w \<Rightarrow> wl_usb_info_t list \<times> 'w" where
  "scan_devices lib max_links [] links w = (links, w)"
| "scan_devices lib max_links (d # ds) links w =
     (case lu_get_descriptor lib d w of
        (Inl rc, w1) \<Rightarrow> scan_devices lib max_links ds links w1
      | (Inr (vid, pid, serial, product), w1) \<Rightarrow>
          if classify vid pid = WL_USB_MODE_UNKNOWN then scan_devices lib max_links ds links w1
          else if max_links \<le> length links then (links, w1)
          else
            (case probe_device lib d (vid, pid, serial, product) w1 of (info, w2) \<Rightarrow>
              scan_devices lib max_links ds (links @ [info]) w2))"

definition wl_usb_scan ::
  "('d, 'h, 'w) libusb \<Rightarrow> nat \<Rightarrow> 'w usb_state \<Rightarrow> (int + wl_usb_info_t list) \<times> 'w usb_state" where
  "wl_usb_scan lib max_links u =
     (if \<not> us_context u then (Inl (LIBUSB_ERROR_OTHER lib), u)
      else
        (case lu_get_device_list lib (us_world u) of
           (Inl rc, w) \<Rightarrow> (Inl rc, u\<lparr>us_world := w\<rparr>)
         | (Inr devices, w) \<Rightarrow>
             (case scan_devices lib max_links devices [] w of (links, w') \<Rightarrow>
                (Inr links, u\<lparr>us_world := w'\<rparr>))))"

section \<open>Opening and closing\<close>

text \<open>The first device at a bus and an address.\<close>

fun find_device :: "('d, 'h, 'w) libusb \<Rightarrow> wl_usb_info_t \<Rightarrow> 'd list \<Rightarrow> 'd option" where
  "find_device lib info [] = None"
| "find_device lib info (d # ds) =
     (if lu_bus_number lib d \<noteq> ui_bus info \<or> lu_device_address lib d \<noteq> ui_address info
      then find_device lib info ds else Some d)"

text \<open>
  What \<^verbatim>\<open>wl_usb_open\<close> and \<^verbatim>\<open>wl_usb_send_boot_command\<close> begin with: the handle of the device that
  is described, or a negative code.
\<close>

definition open_described ::
  "('d, 'h, 'w) libusb \<Rightarrow> wl_usb_info_t \<Rightarrow> 'w usb_state \<Rightarrow> (int + 'h) \<times> 'w usb_state" where
  "open_described lib info u =
     (if \<not> us_context u then (Inl (LIBUSB_ERROR_OTHER lib), u)
      else
        (case lu_get_device_list lib (us_world u) of
           (Inl rc, w) \<Rightarrow> (Inl rc, u\<lparr>us_world := w\<rparr>)
         | (Inr devices, w) \<Rightarrow>
             (case find_device lib info devices of
                None \<Rightarrow> (Inl (LIBUSB_ERROR_NO_DEVICE lib), u\<lparr>us_world := w\<rparr>)
              | Some d \<Rightarrow> (case lu_open lib d w of (r, w') \<Rightarrow> (r, u\<lparr>us_world := w'\<rparr>)))))"

definition wl_usb_open ::
  "('d, 'h, 'w) libusb \<Rightarrow> wl_usb_info_t \<Rightarrow> 'w usb_state \<Rightarrow> (int + 'h wl_usb_link) \<times> 'w usb_state" where
  "wl_usb_open lib info u =
     (case open_described lib info u of
        (Inl rc, u1) \<Rightarrow> (Inl rc, u1)
      | (Inr handle, u1) \<Rightarrow>
          (case lu_claim lib handle WL_USB_INTERFACE (lu_detach_kernel lib handle (us_world u1)) of (rc, w) \<Rightarrow>
             if rc < 0 then (Inl rc, u1\<lparr>us_world := lu_close lib handle w\<rparr>)
             else (Inr \<lparr>ul_handle = Some handle, ul_claimed = True\<rparr>, u1\<lparr>us_world := w\<rparr>)))"

definition wl_usb_close :: "('d, 'h, 'w) libusb \<Rightarrow> 'h wl_usb_link option \<Rightarrow> 'w \<Rightarrow> 'w" where
  "wl_usb_close lib lnk w =
     (case lnk of
        None \<Rightarrow> w
      | Some l \<Rightarrow>
          (case ul_handle l of
             None \<Rightarrow> w
           | Some h \<Rightarrow>
               lu_close lib h (if ul_claimed l then lu_release lib h WL_USB_INTERFACE w else w)))"

section \<open>Mode switches\<close>

definition wl_usb_send_boot_command ::
  "('d, 'h, 'w) libusb \<Rightarrow> wl_usb_info_t \<Rightarrow> u8 list \<Rightarrow> 'w usb_state \<Rightarrow> int \<times> 'w usb_state" where
  "wl_usb_send_boot_command lib info command u =
     (case open_described lib info u of
        (Inl rc, u1) \<Rightarrow> (rc, u1)
      | (Inr handle, u1) \<Rightarrow>
          (case lu_bulk_out lib handle WL_USB_EP_BOOT command WL_USB_MODE_SWITCH_TIMEOUT_MS (us_world u1) of
             ((rc, transferred), w) \<Rightarrow>
               (if rc = 0 \<and> transferred \<noteq> length command then LIBUSB_ERROR_IO lib else rc,
                u1\<lparr>us_world := lu_close lib handle w\<rparr>)))"

definition wl_usb_switch_arm_to_rv ::
  "('d, 'h, 'w) libusb \<Rightarrow> wl_usb_info_t \<Rightarrow> 'w usb_state \<Rightarrow> int \<times> 'w usb_state" where
  "wl_usb_switch_arm_to_rv lib info = wl_usb_send_boot_command lib info [0x81, 0xff, 0x01, 0x52]"

definition wl_usb_eject_iap ::
  "('d, 'h, 'w) libusb \<Rightarrow> wl_usb_info_t \<Rightarrow> 'w usb_state \<Rightarrow> int \<times> 'w usb_state" where
  "wl_usb_eject_iap lib info = wl_usb_send_boot_command lib info [0x83]"

section \<open>The transport\<close>

text \<open>A reply buffer of size 0 stands for a \<^verbatim>\<open>NULL\<close> one, replaced by the local 64 bytes.\<close>

definition usb_transport_command ::
  "('d, 'h, 'w) libusb \<Rightarrow> 'h wl_usb_link option \<Rightarrow> u8 list \<Rightarrow> nat \<Rightarrow> 'w \<Rightarrow> (int \<times> u8 list) \<times> 'w" where
  "usb_transport_command lib lnk request reply_max w =
     (case Option.bind lnk ul_handle of
        Some h \<Rightarrow>
          (case lu_bulk_out lib h WL_USB_EP_COMMAND request WL_USB_TIMEOUT_MS w of ((rc, n), w1) \<Rightarrow>
             if rc < 0 then ((rc, []), w1)
             else
               (case lu_bulk_in lib h WL_USB_EP_REPLY (if reply_max = 0 then 64 else reply_max)
                       WL_USB_TIMEOUT_MS w1 of
                  ((rc, reply), w2) \<Rightarrow> if rc < 0 then ((rc, []), w2) else ((0, reply), w2)))
      | None \<Rightarrow> ((LIBUSB_ERROR_NO_DEVICE lib, []), w))"

definition usb_transport_bulk_out ::
  "('d, 'h, 'w) libusb \<Rightarrow> 'h wl_usb_link option \<Rightarrow> u8 list \<Rightarrow> 'w \<Rightarrow> int \<times> 'w" where
  "usb_transport_bulk_out lib lnk data w =
     (case Option.bind lnk ul_handle of
        Some h \<Rightarrow>
          (case lu_bulk_out lib h WL_USB_EP_DATA data WL_USB_TIMEOUT_MS w of ((rc, n), w1) \<Rightarrow>
             (if rc < 0 then rc else if n \<noteq> length data then LIBUSB_ERROR_IO lib else 0, w1))
      | None \<Rightarrow> (LIBUSB_ERROR_NO_DEVICE lib, w))"

definition wl_usb_transport :: "('d, 'h, 'w) libusb \<Rightarrow> ('h wl_usb_link, 'w) wl_transport" where
  "wl_usb_transport lib =
     \<lparr>tr_command = usb_transport_command lib, tr_bulk_out = usb_transport_bulk_out lib\<rparr>"

end
