(* ===== verification/UsbLink.thy ===== *)
theory UsbLink
  imports Usb
begin

text \<open>
  Finding, switching, opening and closing a programmer: \<^verbatim>\<open>src/usb_link.c\<close>, on top of the USB
  layer.  Sleeping has no effect on the state, except that the next scan may see another bus.
\<close>

definition WL_MAX_LINKS :: nat where "WL_MAX_LINKS = 8"
definition WL_MODE_SWITCH_WAIT_MS :: nat where "WL_MODE_SWITCH_WAIT_MS = 5000"
definition WL_MODE_SWITCH_POLL_MS :: nat where "WL_MODE_SWITCH_POLL_MS = 100"

text \<open>A filter of \<open>None\<close> is a \<^verbatim>\<open>NULL\<close> pointer.\<close>

definition serial_matches :: "wl_usb_info_t \<Rightarrow> string option \<Rightarrow> bool" where
  "serial_matches info serial_filter \<longleftrightarrow>
     (case serial_filter of None \<Rightarrow> True | Some f \<Rightarrow> f = [] \<or> ui_serial info = f)"

text \<open>The programmers that can be opened and that the user asked for.\<close>

definition eligible :: "string option \<Rightarrow> wl_usb_info_t \<Rightarrow> bool" where
  "eligible serial_filter info \<longleftrightarrow> ui_accessible info \<and> serial_matches info serial_filter"

section \<open>Waiting for a mode\<close>

function wait_for_mode_from ::
  "('d, 'h, 'w) libusb \<Rightarrow> wl_usb_mode \<Rightarrow> string option \<Rightarrow> nat \<Rightarrow> 'w usb_state
     \<Rightarrow> (wl_status + wl_usb_info_t) \<times> 'w usb_state" where
  "wait_for_mode_from lib mode serial_filter waited u =
     (if waited < WL_MODE_SWITCH_WAIT_MS then
        (case wl_usb_scan lib WL_MAX_LINKS u of
           (Inl rc, u') \<Rightarrow> (Inl WL_ERR_USB, u')
         | (Inr found, u') \<Rightarrow>
             (case find (\<lambda>f. ui_accessible f \<and> ui_mode f = mode \<and> serial_matches f serial_filter) found of
                Some f \<Rightarrow> (Inr f, u')
              | None \<Rightarrow>
                  wait_for_mode_from lib mode serial_filter (waited + WL_MODE_SWITCH_POLL_MS) u'))
      else (Inl WL_ERR_NO_DEVICE, u))"
  by pat_completeness auto
termination
  by (relation "measure (\<lambda>(lib, mode, filter, waited, u). WL_MODE_SWITCH_WAIT_MS - waited)")
    (auto simp: WL_MODE_SWITCH_WAIT_MS_def WL_MODE_SWITCH_POLL_MS_def)

declare wait_for_mode_from.simps [simp del]

definition wait_for_mode ::
  "('d, 'h, 'w) libusb \<Rightarrow> wl_usb_mode \<Rightarrow> string option \<Rightarrow> 'w usb_state
     \<Rightarrow> (wl_status + wl_usb_info_t) \<times> 'w usb_state" where
  "wait_for_mode lib mode serial_filter u = wait_for_mode_from lib mode serial_filter 0 u"

section \<open>Finding a programmer\<close>

definition wl_programmer_find ::
  "('d, 'h, 'w) libusb \<Rightarrow> string option \<Rightarrow> 'w usb_state
     \<Rightarrow> (wl_status + wl_usb_info_t) \<times> 'w usb_state" where
  "wl_programmer_find lib serial_filter u =
     (case wl_usb_scan lib WL_MAX_LINKS u of
        (Inl rc, u') \<Rightarrow> (Inl WL_ERR_USB, u')
      | (Inr found, u') \<Rightarrow>
          (if found = [] then Inl WL_ERR_NO_DEVICE
           else case find (eligible serial_filter) found of
               Some f \<Rightarrow> Inr f
             | None \<Rightarrow> Inl WL_ERR_ACCESS, u'))"

text \<open>
  The loops of the two switch commands: the first programmer that is in RISC-V mode already, or
  else the first one in the mode to be left.
\<close>

fun pick_mode ::
  "wl_usb_mode \<Rightarrow> string option \<Rightarrow> wl_usb_info_t list \<Rightarrow> wl_usb_info_t option
     \<Rightarrow> wl_usb_info_t option \<times> wl_usb_info_t option" where
  "pick_mode mode serial_filter [] other = (None, other)"
| "pick_mode mode serial_filter (f # fs) other =
     (if \<not> ui_accessible f \<or> \<not> serial_matches f serial_filter then pick_mode mode serial_filter fs other
      else if ui_mode f = WL_USB_MODE_RV then (Some f, other)
      else pick_mode mode serial_filter fs (if ui_mode f = mode \<and> other = None then Some f else other))"

definition switch_from ::
  "('d, 'h, 'w) libusb \<Rightarrow> wl_usb_mode \<Rightarrow> (wl_usb_info_t \<Rightarrow> 'w usb_state \<Rightarrow> int \<times> 'w usb_state)
     \<Rightarrow> string option \<Rightarrow> 'w usb_state \<Rightarrow> (wl_status + wl_usb_info_t) \<times> 'w usb_state" where
  "switch_from lib mode send serial_filter u =
     (case wl_usb_scan lib WL_MAX_LINKS u of
        (Inl rc, u1) \<Rightarrow> (Inl WL_ERR_USB, u1)
      | (Inr found, u1) \<Rightarrow>
          if found = [] then (Inl WL_ERR_NO_DEVICE, u1)
          else
            (case pick_mode mode serial_filter found None of
               (Some rv, _) \<Rightarrow> (Inr rv, u1)
             | (None, None) \<Rightarrow> (Inl WL_ERR_ACCESS, u1)
             | (None, Some other) \<Rightarrow>
                 (case send other u1 of (rc, u2) \<Rightarrow>
                    if rc < 0 then
                      (Inl (if wl_usb_error_is_access lib rc then WL_ERR_ACCESS else WL_ERR_USB), u2)
                    else wait_for_mode lib WL_USB_MODE_RV serial_filter u2)))"

definition wl_programmer_switch_rv ::
  "('d, 'h, 'w) libusb \<Rightarrow> string option \<Rightarrow> 'w usb_state
     \<Rightarrow> (wl_status + wl_usb_info_t) \<times> 'w usb_state" where
  "wl_programmer_switch_rv lib = switch_from lib WL_USB_MODE_ARM (wl_usb_switch_arm_to_rv lib)"

definition wl_programmer_eject_iap ::
  "('d, 'h, 'w) libusb \<Rightarrow> string option \<Rightarrow> 'w usb_state
     \<Rightarrow> (wl_status + wl_usb_info_t) \<times> 'w usb_state" where
  "wl_programmer_eject_iap lib = switch_from lib WL_USB_MODE_IAP (wl_usb_eject_iap lib)"

section \<open>Opening\<close>

text \<open>What the loop of \<^verbatim>\<open>wl_linke_open\<close> collects: the first programmer of each mode, and how many
  are in RISC-V mode.\<close>

record candidates =
  ca_info :: "wl_usb_info_t option"
  ca_arm :: "wl_usb_info_t option"
  ca_iap :: "wl_usb_info_t option"
  ca_usable :: nat

fun sort_candidates :: "string option \<Rightarrow> wl_usb_info_t list \<Rightarrow> candidates \<Rightarrow> candidates" where
  "sort_candidates serial_filter [] ca = ca"
| "sort_candidates serial_filter (f # fs) ca =
     sort_candidates serial_filter fs
       (if \<not> ui_accessible f then ca
        else if \<not> serial_matches f serial_filter then ca
        else case ui_mode f of
            WL_USB_MODE_RV \<Rightarrow>
              ca\<lparr>ca_info := (if ca_usable ca = 0 then Some f else ca_info ca), ca_usable := ca_usable ca + 1\<rparr>
          | WL_USB_MODE_ARM \<Rightarrow> ca\<lparr>ca_arm := (case ca_arm ca of None \<Rightarrow> Some f | Some g \<Rightarrow> Some g)\<rparr>
          | WL_USB_MODE_IAP \<Rightarrow> ca\<lparr>ca_iap := (case ca_iap ca of None \<Rightarrow> Some f | Some g \<Rightarrow> Some g)\<rparr>
          | WL_USB_MODE_UNKNOWN \<Rightarrow> ca)"

text \<open>One of the two recoveries: send the command, then wait for the debug interface.\<close>

definition recover ::
  "('d, 'h, 'w) libusb \<Rightarrow> (wl_usb_info_t \<Rightarrow> 'w usb_state \<Rightarrow> int \<times> 'w usb_state) \<Rightarrow> string option
     \<Rightarrow> wl_usb_info_t \<Rightarrow> 'w usb_state \<Rightarrow> (wl_status + wl_usb_info_t) \<times> 'w usb_state" where
  "recover lib send serial_filter candidate u =
     (case send candidate u of (rc, u1) \<Rightarrow>
        if rc < 0 then (Inl (if wl_usb_error_is_access lib rc then WL_ERR_ACCESS else WL_ERR_USB), u1)
        else wait_for_mode lib WL_USB_MODE_RV serial_filter u1)"

definition choose_programmer ::
  "('d, 'h, 'w) libusb \<Rightarrow> string option \<Rightarrow> wl_usb_info_t list \<Rightarrow> 'w usb_state
     \<Rightarrow> (wl_status + wl_usb_info_t) \<times> 'w usb_state" where
  "choose_programmer lib serial_filter found u =
     (let ca = sort_candidates serial_filter found
                 \<lparr>ca_info = None, ca_arm = None, ca_iap = None, ca_usable = 0\<rparr> in
      case (ca_info ca, ca_arm ca, ca_iap ca) of
        (Some info, _, _) \<Rightarrow> (Inr info, u)
      | (None, Some arm, _) \<Rightarrow> recover lib (wl_usb_switch_arm_to_rv lib) serial_filter arm u
      | (None, None, Some iap) \<Rightarrow> recover lib (wl_usb_eject_iap lib) serial_filter iap u
      | (None, None, None) \<Rightarrow> (Inl WL_ERR_ACCESS, u))"

definition wl_linke_open ::
  "('d, 'h, 'w) libusb \<Rightarrow> string option \<Rightarrow> 'w usb_state
     \<Rightarrow> (wl_status + ('h wl_usb_link, 'w) wl_linke_t) \<times> 'w usb_state" where
  "wl_linke_open lib serial_filter u =
     (case wl_usb_scan lib WL_MAX_LINKS u of
        (Inl rc, u1) \<Rightarrow> (Inl WL_ERR_USB, u1)
      | (Inr found, u1) \<Rightarrow>
          if found = [] then (Inl WL_ERR_NO_DEVICE, u1)
          else
            (case choose_programmer lib serial_filter found u1 of
               (Inl e, u2) \<Rightarrow> (Inl e, u2)
             | (Inr info, u2) \<Rightarrow>
                 (case wl_usb_open lib info u2 of
                    (Inl rc, u3) \<Rightarrow>
                      (Inl (if wl_usb_error_is_access lib rc then WL_ERR_ACCESS else WL_ERR_USB), u3)
                  | (Inr usb, u3) \<Rightarrow>
                      (Inr \<lparr>lk_transport = Some (wl_usb_transport lib), lk_ctx = Some usb, lk_info = info,
                            lk_open = True, lk_chip_id = 0, lk_configured = False\<rparr>, u3))))"

section \<open>Closing\<close>

definition wl_linke_close :: "('d, 'h, 'w) libusb \<Rightarrow> ('h wl_usb_link, 'w, unit) lprog" where
  "wl_linke_close lib =
     andThen (reads (\<lambda>s. lk_ctx (link s))) (\<lambda>usb.
       andDo wl_linke_detach
         (updates (\<lambda>s. s\<lparr>world := wl_usb_close lib usb (world s)\<rparr>)))"

definition wl_linke_close_keep_target :: "('d, 'h, 'w) libusb \<Rightarrow> ('h wl_usb_link, 'w, unit) lprog" where
  "wl_linke_close_keep_target lib =
     andThen (reads (\<lambda>s. lk_ctx (link s))) (\<lambda>usb.
       updates (\<lambda>s. s\<lparr>link := (link s)\<lparr>lk_open := False, lk_transport := None, lk_ctx := None\<rparr>,
                      world := wl_usb_close lib usb (world s)\<rparr>))"

end
