(* ===== verification/GdbRun.thy ===== *)
theory GdbRun
  imports GdbPacket UsbLink
begin

text \<open>
  The server of \<^verbatim>\<open>src/gdb_server.c\<close> from end to end: opening the programmer, halting the target,
  serving one client until it leaves, and closing.  Listening and accepting are the environment's
  part: it says whether \<^verbatim>\<open>gdb_listen\<close> succeeded and, when a client was accepted, how its socket will
  behave.
\<close>

record gdb_env =
  ge_listens :: bool
  ge_client :: "(recv_event list \<times> send_event list \<times> bool list) option"
  ge_stack :: string

section \<open>The session\<close>

text \<open>
  The loop over the packets; it may run forever.  The packet buffer is not initialised: \<open>buf\<close> is
  what it holds, at first whatever was on the stack, then what the last packet has left.
\<close>

partial_function (option) serve ::
  "string \<Rightarrow> ('x, 'w) gdb_conn \<Rightarrow> ((wl_status + unit) \<times> ('x, 'w) gdb_conn) option" where
  "serve buf c =
     (if g_quit c then Some (Inr (), c)
      else
        andThen (gdb_recv_packet GDB_PACKET_MAX) (\<lambda>received c1.
          case received of
            None \<Rightarrow> Some (Inr (), c1)
          | Some payload \<Rightarrow>
              andThen (gdb_handle_packet (write_at 0 (payload @ [CHR 0x00]) buf))
                (\<lambda>_. serve (write_at 0 (payload @ [CHR 0x00]) buf)) c1) c)"

declare serve.simps [code]

definition serve_client ::
  "string \<Rightarrow> wl_chip_t \<Rightarrow> recv_event list \<times> send_event list \<times> bool list \<Rightarrow> ('x, 'w, string) lprog" where
  "serve_client buf chip client s =
     (case client of (es, ss, ps) \<Rightarrow>
       (case andDo (serve buf) gdb_breakpoints_clear
              \<lparr>g_sess = s, g_chip = chip, g_quit = False,
               g_bps = replicate GDB_MAX_BREAKPOINTS no_breakpoint,
               g_in = es, g_sends = ss, g_polls = ps, g_out = []\<rparr> of
          None \<Rightarrow> None
        | Some (r, c) \<Rightarrow> Some (case r of Inl e \<Rightarrow> Inl e | Inr _ \<Rightarrow> Inr (g_out c), g_sess c)))"

text \<open>
  LinkE attach starts from the reset/halt path; after that point halt and resume use the debug
  module.
\<close>

definition gdb_prepare :: "wl_chip_t \<Rightarrow> ('x, 'w, unit) lprog" where
  "gdb_prepare chip =
     andDo (wl_linke_set_interface (Some chip))
    (andDo wl_linke_halt
    (andDo (ignoring gdb_dm_halt)
    (andDo (ignoring gdb_dm_wait_halted)
       (ignoring gdb_dm_enable_ebreak))))"

definition gdb_accept :: "gdb_env \<Rightarrow> wl_chip_t \<Rightarrow> ('x, 'w, string) lprog" where
  "gdb_accept env chip =
     (if \<not> ge_listens env then fail WL_ERR_IO
      else case ge_client env of
          None \<Rightarrow> fail WL_ERR_IO
        | Some client \<Rightarrow> serve_client (ge_stack env) chip client)"

section \<open>The whole run\<close>

text \<open>
  What follows a successful \<^verbatim>\<open>wl_linke_open\<close>: a program on the new link, and the link's world back
  in the USB state.  An answer is what has been sent to the client.
\<close>

definition on_opened ::
  "('h wl_usb_link, 'w) wl_linke_t \<Rightarrow> ('h wl_usb_link, 'w, 'a) lprog \<Rightarrow> ('w usb_state, wl_status, 'a) prog" where
  "on_opened l m u =
     (case m \<lparr>link = l, world = us_world u, calls = []\<rparr> of
        None \<Rightarrow> None
      | Some (r, s) \<Rightarrow> Some (r, u\<lparr>us_world := world s\<rparr>))"

definition wl_gdb_server_run ::
  "('d, 'h, 'w) libusb \<Rightarrow> gdb_env \<Rightarrow> string option \<Rightarrow> wl_chip_t option \<Rightarrow> ('w usb_state, wl_status, string) prog" where
  "wl_gdb_server_run lib env serial chip =
     (case chip of
        None \<Rightarrow> fail WL_ERR_USAGE
      | Some c \<Rightarrow>
          andThen (\<lambda>u. Some (wl_linke_open lib serial u)) (\<lambda>l.
            on_opened l (cleanup (andDo (gdb_prepare c) (gdb_accept env c)) (wl_linke_close lib))))"

end
