(* ===== verification/Log.thy ===== *)
theory Log
  imports Prelude
begin

text \<open>
  \<^verbatim>\<open>src/log.c\<close>: the reporting threshold and what each reporting function writes to stderr.  A
  message is modelled after formatting, so a function takes the finished text; its value is what
  is written, given the threshold.
\<close>

section \<open>Levels\<close>

datatype wl_level = WL_LEVEL_QUIET | WL_LEVEL_INFO | WL_LEVEL_DEBUG

text \<open>The numbers of the C enumeration, by which levels are compared.\<close>

fun level_number :: "wl_level \<Rightarrow> nat" where
  "level_number WL_LEVEL_QUIET = 0"
| "level_number WL_LEVEL_INFO = 1"
| "level_number WL_LEVEL_DEBUG = 2"

instantiation wl_level :: linorder
begin

definition less_eq_wl_level :: "wl_level \<Rightarrow> wl_level \<Rightarrow> bool" where
  "less_eq_wl_level a b \<longleftrightarrow> level_number a \<le> level_number b"

definition less_wl_level :: "wl_level \<Rightarrow> wl_level \<Rightarrow> bool" where
  "less_wl_level a b \<longleftrightarrow> level_number a < level_number b"

instance
proof
  fix x y :: wl_level
  show "x \<le> y \<Longrightarrow> y \<le> x \<Longrightarrow> x = y"
    by (cases x; cases y) (simp_all add: less_eq_wl_level_def)
qed (auto simp: less_eq_wl_level_def less_wl_level_def)

end

section \<open>Messages\<close>

definition WL_PROGRAM :: string where "WL_PROGRAM = ''wchlink''"

definition newline :: string where "newline = [CHR 0x0a]"

definition vreport :: "wl_level \<Rightarrow> wl_level \<Rightarrow> string \<Rightarrow> string \<Rightarrow> string" where
  "vreport threshold level prefix message =
     (if threshold < level then []
      else WL_PROGRAM @ '': '' @ prefix @ message @ newline)"

definition wl_error :: "wl_level \<Rightarrow> string \<Rightarrow> string" where
  "wl_error threshold message = vreport threshold WL_LEVEL_QUIET ''error: '' message"

definition wl_warn :: "wl_level \<Rightarrow> string \<Rightarrow> string" where
  "wl_warn threshold message = vreport threshold WL_LEVEL_QUIET ''warning: '' message"

definition wl_info :: "wl_level \<Rightarrow> string \<Rightarrow> string" where
  "wl_info threshold message = vreport threshold WL_LEVEL_INFO [] message"

definition wl_debug :: "wl_level \<Rightarrow> string \<Rightarrow> string" where
  "wl_debug threshold message = vreport threshold WL_LEVEL_DEBUG ''debug: '' message"

section \<open>The hex dump\<close>

text \<open>The sixteen columns of a line: two digits or blanks, and a wider gap after the eighth.\<close>

definition dump_column :: "u8 list \<Rightarrow> nat \<Rightarrow> string" where
  "dump_column bytes j =
     (if j < length bytes then pad_left (CHR ''0'') 2 (hex_str (unat (bytes ! j))) @ '' '' else ''   '') @
     (if j = 7 then '' '' else [])"

definition dump_char :: "u8 \<Rightarrow> char" where
  "dump_char c = (if 0x20 \<le> c \<and> c < 0x7f then char_of (unat c) else CHR ''.'')"

definition dump_line :: "nat \<Rightarrow> u8 list \<Rightarrow> string" where
  "dump_line i bytes =
     ''  '' @ pad_left (CHR ''0'') 4 (hex_str i) @ ''  '' @
     concat (map (dump_column bytes) [0..<16]) @ '' |'' @
     map dump_char (take 16 bytes) @ ''|'' @ newline"

text \<open>The lines from byte \<open>i\<close> on; the list is what is left of the data there.\<close>

function dump_lines :: "nat \<Rightarrow> u8 list \<Rightarrow> string" where
  "dump_lines i bytes =
     (if bytes = [] then [] else dump_line i bytes @ dump_lines (i + 16) (drop 16 bytes))"
  by pat_completeness auto
termination
  by (relation "measure (\<lambda>(i, bytes). length bytes)") auto

declare dump_lines.simps [simp del]

definition wl_hexdump :: "wl_level \<Rightarrow> string \<Rightarrow> u8 list \<Rightarrow> string" where
  "wl_hexdump threshold label bytes =
     (if threshold < WL_LEVEL_DEBUG then []
      else WL_PROGRAM @ '': debug: '' @ label @ '' ('' @ dec_str (length bytes) @ '' bytes)'' @ newline @
        dump_lines 0 bytes)"

section \<open>Which messages are shown\<close>

lemma errors_always_shown:
  "wl_error threshold m = ''wchlink: error: '' @ m @ newline"
  "wl_warn threshold m = ''wchlink: warning: '' @ m @ newline"
  by (cases threshold; simp add: wl_error_def wl_warn_def vreport_def WL_PROGRAM_def less_wl_level_def)+

lemma quiet_hides_the_rest:
  "wl_info WL_LEVEL_QUIET m = []" "wl_debug WL_LEVEL_QUIET m = []"
  "wl_debug WL_LEVEL_INFO m = []" "wl_hexdump WL_LEVEL_INFO l bs = []"
  by (simp_all add: wl_info_def wl_debug_def wl_hexdump_def vreport_def less_wl_level_def)

end
