(* ===== verification/Cli.thy ===== *)
theory Cli
  imports GdbRun Log
begin

text \<open>
  The process around the commands of \<^verbatim>\<open>src/main.c\<close>: numbers on the command line, the options, what
  is printed, files, and the progress lines.  The state of the process is a record that also holds
  what the environment will do: the files there are, what can be created, when a signal arrives.
  Of stderr it keeps what \<^verbatim>\<open>main.c\<close> itself writes.  \<^verbatim>\<open>malloc\<close> is taken to succeed, and \<^verbatim>\<open>unsigned long\<close>
  and \<^verbatim>\<open>size_t\<close> have 64 bits.
\<close>

definition WL_VERSION :: string where "WL_VERSION = ''0.1.0''"
definition WL_MAX_PROGRAMMERS :: nat where "WL_MAX_PROGRAMMERS = 16"
definition WL_TARGET_EXTRA_MAX :: nat where "WL_TARGET_EXTRA_MAX = 4"

section \<open>Numbers\<close>

definition isspace :: "char \<Rightarrow> bool" where
  "isspace c \<longleftrightarrow> c \<in> {CHR '' '', CHR 0x09, CHR 0x0a, CHR 0x0b, CHR 0x0c, CHR 0x0d}"

text \<open>The digit value \<^verbatim>\<open>strtoul\<close> gives a character, letters of both cases counting from 10.\<close>

definition digit_value :: "char \<Rightarrow> nat option" where
  "digit_value c =
     (let n = of_char c :: nat in
      if 48 \<le> n \<and> n \<le> 57 then Some (n - 48)
      else if 97 \<le> n \<and> n \<le> 122 then Some (n - 87)
      else if 65 \<le> n \<and> n \<le> 90 then Some (n - 55)
      else None)"

definition is_digit :: "nat \<Rightarrow> char \<Rightarrow> bool" where
  "is_digit base c = (case digit_value c of None \<Rightarrow> False | Some d \<Rightarrow> d < base)"

fun digits_value :: "nat \<Rightarrow> string \<Rightarrow> nat \<Rightarrow> nat" where
  "digits_value base [] v = v"
| "digits_value base (c # cs) v = digits_value base cs (base * v + the (digit_value c))"

text \<open>Base 0: the base is told by the prefix, and a \<^verbatim>\<open>0x\<close> with no digit after it is just a zero.\<close>

definition number_base :: "string \<Rightarrow> nat \<times> string" where
  "number_base s =
     (if 3 \<le> length s \<and> s ! 0 = CHR ''0'' \<and> (s ! 1 = CHR ''x'' \<or> s ! 1 = CHR ''X'') \<and> is_digit 16 (s ! 2)
      then (16, drop 2 s)
      else if s \<noteq> [] \<and> s ! 0 = CHR ''0'' then (8, s) else (10, s))"

text \<open>
  \<^verbatim>\<open>strtoul(text, &end, 0)\<close>: \<open>None\<close> when \<^verbatim>\<open>errno\<close> tells that the value is out of range, otherwise the
  value and the rest.  A minus sign negates the value in 64 bits.
\<close>

definition strtoul0 :: "string \<Rightarrow> (nat \<times> string) option" where
  "strtoul0 t =
     (let s = dropWhile isspace t;
          neg = (s \<noteq> [] \<and> hd s = CHR ''-'');
          s1 = (if s \<noteq> [] \<and> (hd s = CHR ''-'' \<or> hd s = CHR ''+'') then tl s else s);
          (base, s2) = number_base s1;
          v = digits_value base (takeWhile (is_digit base) s2) 0 in
      if takeWhile (is_digit base) s2 = [] then Some (0, t)
      else if 2 ^ 64 \<le> v then None
      else Some (if neg then (2 ^ 64 - v) mod 2 ^ 64 else v, dropWhile (is_digit base) s2))"

definition parse_u32 :: "string option \<Rightarrow> u32 option" where
  "parse_u32 t =
     (case t of
        None \<Rightarrow> None
      | Some s \<Rightarrow>
          if s = [] then None
          else
            (case strtoul0 s of
               None \<Rightarrow> None
             | Some (value, rest) \<Rightarrow>
                 if rest \<noteq> [] then None else if 0xffffffff < value then None else Some (of_nat value)))"

section \<open>Options\<close>

record options =
  o_serial :: "string option"
  o_chip :: "string option"
  o_file :: "string option"
  o_extra :: "string list"
  o_address :: u32
  o_size :: nat
  o_address_given :: bool
  o_size_given :: bool
  o_verify :: bool
  o_port :: u16

definition initial_options :: options where
  "initial_options =
     \<lparr>o_serial = None, o_chip = None, o_file = None, o_extra = [], o_address = 0, o_size = 0,
      o_address_given = False, o_size_given = False, o_verify = True, o_port = 3333\<rparr>"

section \<open>The process\<close>

text \<open>A file as \<^verbatim>\<open>stat\<close>, \<^verbatim>\<open>fopen\<close> and \<^verbatim>\<open>fread\<close> show it, and what creating a file will meet.\<close>

record file_node =
  fn_regular :: bool
  fn_size :: nat
  fn_opens :: bool
  fn_bytes :: "u8 list"

record file_sink =
  fs_creates :: bool
  fs_takes :: nat
  fs_closes :: bool

text \<open>
  \<open>h_link\<close> is the local \<^verbatim>\<open>link\<close> of the command that runs.  \<open>h_signal\<close> is the number of turns of the
  terminal loop before a signal arrives, if one ever does; \<open>h_takes\<close> says how many bytes the next
  \<^verbatim>\<open>fwrite\<close>s to stdout take, all of them once the list is used up; \<open>h_strerror\<close> is what \<^verbatim>\<open>strerror\<close>
  says of a failed call.
\<close>

record ('h, 'w) host =
  h_usb :: "'w usb_state"
  h_link :: "('h wl_usb_link, 'w) wl_linke_t"
  h_calls :: "(progress_fn \<times> nat \<times> nat) list"
  h_program :: string
  h_level :: wl_level
  h_out :: string
  h_err :: string
  h_last_write :: int
  h_last_verify :: int
  h_files :: "string \<Rightarrow> file_node option"
  h_sinks :: "string \<Rightarrow> file_sink"
  h_strerror :: string
  h_signal :: "nat option"
  h_takes :: "nat list"
  h_gdb :: gdb_env

type_synonym ('h, 'w, 'e, 'a) hprog = "(('h, 'w) host, 'e, 'a) prog"

definition print :: "string \<Rightarrow> ('h, 'w, 'e, unit) hprog" where
  "print t = updates (\<lambda>h. h\<lparr>h_out := h_out h @ t\<rparr>)"

definition print_err :: "string \<Rightarrow> ('h, 'w, 'e, unit) hprog" where
  "print_err t = updates (\<lambda>h. h\<lparr>h_err := h_err h @ t\<rparr>)"

text \<open>A line through \<^verbatim>\<open>wl_error\<close>, \<^verbatim>\<open>wl_info\<close> or \<^verbatim>\<open>wl_debug\<close>.\<close>

definition logs :: "(wl_level \<Rightarrow> string \<Rightarrow> string) \<Rightarrow> string \<Rightarrow> ('h, 'w, 'e, unit) hprog" where
  "logs write m = updates (\<lambda>h. h\<lparr>h_err := h_err h @ write (h_level h) m\<rparr>)"

definition wl_log_set_level :: "wl_level \<Rightarrow> ('h, 'w, 'e, unit) hprog" where
  "wl_log_set_level level = updates (\<lambda>h. h\<lparr>h_level := level\<rparr>)"

text \<open>Lines whose text uses the program's name.\<close>

definition with_program :: "(string \<Rightarrow> ('h, 'w, 'e, 'a) hprog) \<Rightarrow> ('h, 'w, 'e, 'a) hprog" where
  "with_program f = andThen (reads h_program) f"

section \<open>What is printed\<close>

text \<open>The conversions \<^verbatim>\<open>%-*s\<close>, \<^verbatim>\<open>%5u\<close>, \<^verbatim>\<open>0x%08x\<close> and \<^verbatim>\<open>%04x\<close>.\<close>

definition pad_right :: "nat \<Rightarrow> string \<Rightarrow> string" where
  "pad_right n s = s @ replicate (n - length s) (CHR '' '')"

definition dec_right :: "nat \<Rightarrow> nat \<Rightarrow> string" where
  "dec_right w n = pad_left (CHR '' '') w (dec_str n)"

definition hex0x :: "u32 \<Rightarrow> string" where
  "hex0x v = ''0x'' @ hex8 v"

definition usage_text :: "string \<Rightarrow> string" where
  "usage_text program =
     line (''usage: '' @ program @ '' <command> [options]'') @ newline @
     concat (map line
      [''Commands:'',
       ''  info                 report the target chip; auto-detect it unless --chip is given'',
       ''  chips                list the parts this tool knows about'',
       ''  flash <file.bin>     write a binary image to flash'',
       ''  read  <file.bin>     read memory; no --address/--size dumps the whole flash'',
       ''  reset                reset the target and let it run'',
       ''  unbrick              hold the target in reset and power-cycle it'',
       ''  programmer <sub>     inspect or control the WCH-LinkE itself'',
       ''                       subcommands: info, list, rv, iap'',
       ''  target <sub>         debug the target: halt, resume, reset, pc,'',
       ''                       regs, read32 <addr>, write32 <addr> <value>'',
       ''                       pc/regs/read32/write32 need --chip to preserve state'',
       ''  gdbserver            GDB remote server (requires --chip)'',
       ''  terminal             SDI/DMDATA debug output terminal'',
       [],
       ''Options:'',
       ''  -s, --serial <sn>    pick a programmer by serial number'',
       ''  -c, --chip <part>    target part; omitted means auto-detect'',
       ''  -a, --address <addr> where to write, or what to read from'',
       ''  -n, --size <bytes>   number of bytes to read'',
       ''  -p, --port <port>    gdbserver TCP port (default 3333)'',
       ''      --verify         read the image back and compare (default)'',
       ''      --no-verify      skip the read-back'',
       ''  -v, --verbose        show what is happening'',
       ''  -q, --quiet          errors only'',
       ''  -h, --help           this text'',
       ''      --version        print the tool version''])"

definition print_chip :: "wl_chip_t \<Rightarrow> nat \<Rightarrow> ('h, 'w, 'e, unit) hprog" where
  "print_chip chip name_width = print (line
     (''  '' @ pad_right name_width (name chip) @ ''  '' @ pad_right 9 (family chip) @ ''  '' @
      dec_right 5 (unat (flash_size chip div 1024)) @ ''K flash  '' @
      dec_right 5 (unat (ram_size chip div 1024)) @ ''K RAM''))"

definition print_target_info :: "wl_chip_t \<Rightarrow> ('h, 'w, 'e, unit) hprog" where
  "print_target_info chip =
     andDo (print (line (''target: '' @ name chip @ '' ('' @ family chip @ '')'')))
    (andDo (print (line (''  flash:  '' @ dec_str (unat (flash_size chip)) @ '' bytes ('' @
              dec_str (unat (flash_size chip div 1024)) @ ''K)'')))
       (print (line (''  ram:    '' @ dec_str (unat (ram_size chip)) @ '' bytes at '' @ hex0x (ram_offset chip)))))"

definition reported :: "string \<Rightarrow> string" where
  "reported t = (if t \<noteq> [] then t else ''(not reported)'')"

definition print_programmer_info :: "wl_usb_info_t \<Rightarrow> ('h, 'w, 'e, unit) hprog" where
  "print_programmer_info info =
     andDo (print (line ''programmer:''))
    (andDo (print (line (''  usb:    '' @ pad_left (CHR ''0'') 4 (hex_str (unat (ui_vid info))) @ '':'' @
              pad_left (CHR ''0'') 4 (hex_str (unat (ui_pid info))) @ '' at bus '' @ dec_str (unat (ui_bus info)) @
              '' address '' @ dec_str (unat (ui_address info)))))
    (andDo (print (line (''  mode:   '' @ wl_usb_mode_name (ui_mode info))))
    (andDo (print (line (''  serial: '' @ reported (ui_serial info))))
       (print (line (''  product: '' @ reported (ui_product info)))))))"

section \<open>Files\<close>

definition file_error :: "string \<Rightarrow> ('h, 'w, wl_status, 'a) hprog" where
  "file_error m = andDo (logs wl_error m) (fail WL_ERR_USAGE)"

definition errno_error :: "string \<Rightarrow> ('h, 'w, wl_status, 'a) hprog" where
  "errno_error m = andThen (reads h_strerror) (\<lambda>e. file_error (m @ '': '' @ e))"

definition quote :: "string \<Rightarrow> string" where
  "quote t = CHR 0x27 # t @ [CHR 0x27]"

definition read_file :: "string \<Rightarrow> ('h, 'w, wl_status, u8 list) hprog" where
  "read_file path =
     andThen (reads (\<lambda>h. h_files h path)) (\<lambda>node.
       case node of
         None \<Rightarrow> errno_error (''cannot open '' @ quote path)
       | Some st \<Rightarrow>
           if \<not> fn_regular st then file_error (quote path @ '' is not a regular file'')
           else if fn_size st = 0 then file_error (quote path @ '' is empty'')
           else if \<not> fn_opens st then errno_error (''cannot open '' @ quote path)
           else
             (let got = take (fn_size st) (fn_bytes st) in
              if length got \<noteq> fn_size st then
                file_error (''short read on '' @ quote path @ '': got '' @ dec_str (length got) @ '' of '' @
                  dec_str (fn_size st) @ '' bytes'')
              else ret got))"

definition write_file :: "string \<Rightarrow> u8 list \<Rightarrow> ('h, 'w, wl_status, unit) hprog" where
  "write_file path data =
     andThen (reads (\<lambda>h. h_sinks h path)) (\<lambda>sink.
       if \<not> fs_creates sink then errno_error (''cannot create '' @ quote path)
       else
         (let written = take (fs_takes sink) data in
          andDo (updates (\<lambda>h. h\<lparr>h_files := (h_files h)(path \<mapsto>
                   \<lparr>fn_regular = True, fn_size = length written, fn_opens = True, fn_bytes = written\<rparr>)\<rparr>))
            (if length written \<noteq> length data then errno_error (''short write on '' @ quote path)
             else if \<not> fs_closes sink then errno_error (''cannot finish writing '' @ quote path)
             else ret ())))"

section \<open>Progress\<close>

text \<open>What the two progress functions share: the last percentage shown, the next one, and the text.\<close>

definition progress_text :: "string \<Rightarrow> string \<Rightarrow> int \<Rightarrow> nat \<Rightarrow> nat \<Rightarrow> string" where
  "progress_text finished going percent doneb tot =
     CHR 0x0d # (if tot \<le> doneb then line (''  '' @ finished @ '': 100% (of '' @ dec_str tot @ '' bytes)'')
                 else ''  '' @ going @ '': '' @ dec_right 3 (nat percent) @ ''%'')"

definition percent_of :: "nat \<Rightarrow> nat \<Rightarrow> int" where
  "percent_of doneb tot = int (doneb * 100 div tot)"

definition show_write_progress :: "nat \<Rightarrow> nat \<Rightarrow> ('h, 'w) host \<Rightarrow> ('h, 'w) host" where
  "show_write_progress doneb tot h =
     (if h_level h \<le> WL_LEVEL_QUIET \<or> tot = 0 then h
      else
        (let percent = percent_of doneb tot in
         if percent = h_last_write h then h
         else h\<lparr>h_last_write := percent,
                h_err := h_err h @ progress_text ''written'' ''writing'' percent doneb tot\<rparr>))"

definition show_verify_progress :: "nat \<Rightarrow> nat \<Rightarrow> ('h, 'w) host \<Rightarrow> ('h, 'w) host" where
  "show_verify_progress doneb tot h =
     (if h_level h \<le> WL_LEVEL_QUIET \<or> tot = 0 then h
      else
        (let percent = percent_of doneb tot in
         if percent = h_last_verify h then h
         else h\<lparr>h_last_verify := percent,
                h_err := h_err h @ progress_text ''verified'' ''verifying'' percent doneb tot\<rparr>))"

fun show_calls :: "(progress_fn \<times> nat \<times> nat) list \<Rightarrow> ('h, 'w) host \<Rightarrow> ('h, 'w) host" where
  "show_calls [] h = h"
| "show_calls ((Write_progress, d, t) # cs) h = show_calls cs (show_write_progress d t h)"
| "show_calls ((Verify_progress, d, t) # cs) h = show_calls cs (show_verify_progress d t h)"

end
