(* ===== verification/CliCommands.thy ===== *)
theory CliCommands
  imports Cli
begin

text \<open>
  The commands of \<^verbatim>\<open>src/main.c\<close>.  A command is a program on the process; the link it opens is the
  process's \<open>h_link\<close> while it runs.
\<close>

section \<open>The link of a command\<close>

definition open_link :: "('d, 'h, 'w) libusb \<Rightarrow> options \<Rightarrow> ('h, 'w, wl_status, unit) hprog" where
  "open_link lib opts h =
     (case wl_linke_open lib (o_serial opts) (h_usb h) of
        (Inl e, u) \<Rightarrow> Some (Inl e, h\<lparr>h_usb := u\<rparr>)
      | (Inr l, u) \<Rightarrow> Some (Inr (), h\<lparr>h_usb := u, h_link := l, h_calls := []\<rparr>))"

definition with_link :: "('h wl_usb_link, 'w, 'a) lprog \<Rightarrow> ('h, 'w, wl_status, 'a) hprog" where
  "with_link m h =
     (case m \<lparr>link = h_link h, world = us_world (h_usb h), calls = h_calls h\<rparr> of
        None \<Rightarrow> None
      | Some (r, s) \<Rightarrow>
          Some (r, h\<lparr>h_link := link s, h_usb := (h_usb h)\<lparr>us_world := world s\<rparr>, h_calls := calls s\<rparr>))"

text \<open>Open, work, close whatever the outcome, and give back the outcome of the work.\<close>

definition linked ::
  "('d, 'h, 'w) libusb \<Rightarrow> options \<Rightarrow> ('h wl_usb_link, 'w, unit) lprog
     \<Rightarrow> ('h, 'w, wl_status, 'a) hprog \<Rightarrow> ('h, 'w, wl_status, 'a) hprog" where
  "linked lib opts close m = andDo (open_link lib opts) (cleanup m (with_link close))"

definition reported_failure :: "string \<Rightarrow> ('h, 'w, wl_status, 'a) hprog \<Rightarrow> ('h, 'w, wl_status, 'a) hprog" where
  "reported_failure t m =
     attempt m (\<lambda>r. case r of Inl e \<Rightarrow> andDo (logs wl_error t) (fail e) | Inr x \<Rightarrow> ret x)"

definition usage_error :: "string \<Rightarrow> ('h, 'w, wl_status, 'a) hprog" where
  "usage_error m = andDo (logs wl_error m) (fail WL_ERR_USAGE)"

section \<open>Parts\<close>

definition unknown_part :: "string \<Rightarrow> ('h, 'w, wl_status, 'a) hprog" where
  "unknown_part nm = with_program (\<lambda>p. usage_error (''unknown part '' @ quote nm @ '' (try `'' @ p @ '' chips`)''))"

definition require_chip :: "options \<Rightarrow> ('h, 'w, wl_status, wl_chip_t) hprog" where
  "require_chip opts =
     (case o_chip opts of
        None \<Rightarrow>
          andDo (logs wl_error (''this command needs --chip, because the part decides the '' @
                   ''debug clock and the flash algorithm''))
            (with_program (\<lambda>p. usage_error (''try `'' @ p @ '' chips` for the names'')))
      | Some nm \<Rightarrow>
          (case wl_chip_by_name (Some nm) of
             None \<Rightarrow> unknown_part nm
           | Some chip \<Rightarrow> ret chip))"

text \<open>\<^verbatim>\<open>--chip\<close> when it is given.\<close>

definition given_chip :: "options \<Rightarrow> ('h, 'w, wl_status, wl_chip_t option) hprog" where
  "given_chip opts =
     (if o_chip opts = None then ret None else andThen (require_chip opts) (\<lambda>c. ret (Some c)))"

text \<open>On an open link: the part that was given, or the one that is detected; \<open>after\<close> is what is
  done after a detection.\<close>

definition chosen_chip ::
  "wl_chip_t option \<Rightarrow> (wl_chip_t \<Rightarrow> ('h, 'w, wl_status, unit) hprog) \<Rightarrow> ('h, 'w, wl_status, wl_chip_t) hprog" where
  "chosen_chip chip after =
     (case chip of
        Some c \<Rightarrow> ret c
      | None \<Rightarrow>
          andThen (reported_failure ''cannot auto-detect the target; connect it, or pass --chip''
                     (with_link wl_linke_identify_chip))
            (\<lambda>c. andDo (after c) (ret c)))"

definition detected :: "wl_chip_t \<Rightarrow> ('h, 'w, wl_status, unit) hprog" where
  "detected c = logs wl_info (''detected target '' @ name c)"

section \<open>Information\<close>

fun print_chips :: "wl_chip_t list \<Rightarrow> nat \<Rightarrow> ('h, 'w, wl_status, unit) hprog" where
  "print_chips [] width = ret ()"
| "print_chips (c # cs) width = andDo (print_chip c width) (print_chips cs width)"

definition cmd_chips :: "('h, 'w, wl_status, unit) hprog" where
  "cmd_chips =
     (case wl_chip_all of (all, count) \<Rightarrow>
        andDo (print (line (dec_str count @ '' parts:''))) (print_chips all wl_chip_name_max))"

definition cmd_info :: "('d, 'h, 'w) libusb \<Rightarrow> options \<Rightarrow> ('h, 'w, wl_status, unit) hprog" where
  "cmd_info lib opts =
     (case o_chip opts of
        Some nm \<Rightarrow>
          (case wl_chip_by_name (Some nm) of
             None \<Rightarrow> unknown_part nm
           | Some chip \<Rightarrow> print_target_info chip)
      | None \<Rightarrow>
          linked lib opts (wl_linke_close lib)
            (andThen (reported_failure ''cannot detect the target; connect it, or pass --chip''
                        (with_link wl_linke_identify_chip))
               print_target_info))"

section \<open>Flashing and reading\<close>

definition require_flash :: "wl_chip_t \<Rightarrow> ('h, 'w, wl_status, unit) hprog" where
  "require_flash chip =
     (if wl_linke_can_flash (Some chip) then ret ()
      else
        andDo (logs wl_error (''flashing '' @ name chip @ '' is not implemented in this build''))
       (andDo (logs wl_error (''only the CH32V00x family has a flash sequence here; '' @
                 ''the other families need one that has been checked against a part''))
          (fail WL_ERR_NOT_IMPLEMENTED)))"

definition flash_address :: "options \<Rightarrow> wl_chip_t \<Rightarrow> u32" where
  "flash_address opts chip = (if o_address_given opts then o_address opts else flash_base chip)"

definition require_fit :: "options \<Rightarrow> wl_chip_t \<Rightarrow> nat \<Rightarrow> ('h, 'w, wl_status, unit) hprog" where
  "require_fit opts chip n =
     (if wl_flash_range_ok (Some chip) (flash_address opts chip) n then ret ()
      else usage_error (hex0x (flash_address opts chip) @ '' + '' @ dec_str n @ '' bytes does not fit '' @
             name chip @ (CHR 0x27 # ''s '') @ dec_str (unat (flash_size chip div 1024)) @ ''K of flash''))"

text \<open>The write itself, with the lines its callbacks print.\<close>

definition flashing :: "options \<Rightarrow> wl_chip_t \<Rightarrow> u8 list \<Rightarrow> ('h, 'w, wl_status, unit) hprog" where
  "flashing opts chip img =
     attempt (with_link (wl_linke_write_flash (Some chip) (flash_address opts chip) (Some img)
                (o_verify opts) (Some Write_progress) (Some Verify_progress)))
       (\<lambda>r. andDo (updates (\<lambda>h. show_calls (h_calls h) h))
         (case r of Inl e \<Rightarrow> fail e | Inr _ \<Rightarrow> ret ()))"

definition cmd_flash :: "('d, 'h, 'w) libusb \<Rightarrow> options \<Rightarrow> ('h, 'w, wl_status, unit) hprog" where
  "cmd_flash lib opts =
     andThen (given_chip opts) (\<lambda>given.
       andDo (case given of None \<Rightarrow> ret () | Some chip \<Rightarrow> require_flash chip)
      (andThen (read_file (the (o_file opts))) (\<lambda>img.
       andDo (case given of None \<Rightarrow> ret () | Some chip \<Rightarrow> require_fit opts chip (length img))
      (andThen
         (linked lib opts (wl_linke_close lib)
           (andThen (chosen_chip given detected) (\<lambda>chip.
             andDo (require_flash chip)
            (andDo (require_fit opts chip (length img))
            (andDo (logs wl_info (''writing '' @ dec_str (length img) @ '' bytes to '' @ name chip @ '' at '' @
                      hex0x (flash_address opts chip) @
                      (if o_verify opts then '', then reading it back'' else [])))
            (andDo (flashing opts chip img) (ret chip)))))))
         (\<lambda>chip. logs wl_info (''done: '' @ name chip @ '' now holds the image''))))))"

definition cmd_read :: "('d, 'h, 'w) libusb \<Rightarrow> options \<Rightarrow> ('h, 'w, wl_status, unit) hprog" where
  "cmd_read lib opts =
     (let whole_flash = (\<not> o_address_given opts \<and> \<not> o_size_given opts) in
      if \<not> whole_flash \<and> (\<not> o_address_given opts \<or> \<not> o_size_given opts \<or> o_size opts = 0) then
        usage_error (''read needs both --address and --size, or neither to read the whole flash'')
      else
        andThen (given_chip opts) (\<lambda>given.
        andThen
          (linked lib opts (wl_linke_close lib)
            (andThen (chosen_chip given detected) (\<lambda>chip.
              let address = (if whole_flash then flash_base chip else o_address opts);
                  size = (if whole_flash then unat (flash_size chip) else o_size opts) in
              andDo (logs wl_info (''reading '' @ dec_str size @ '' bytes from '' @ hex0x address))
                (with_link (wl_linke_read_memory (Some chip) address size)))))
          (write_file (the (o_file opts)))))"

section \<open>Reset and unbrick\<close>

definition cmd_reset :: "('d, 'h, 'w) libusb \<Rightarrow> options \<Rightarrow> ('h, 'w, wl_status, unit) hprog" where
  "cmd_reset lib opts =
     andDo (linked lib opts (wl_linke_close lib) (with_link wl_linke_reset))
       (logs wl_info ''target reset'')"

definition cmd_unbrick :: "('d, 'h, 'w) libusb \<Rightarrow> options \<Rightarrow> ('h, 'w, wl_status, unit) hprog" where
  "cmd_unbrick lib opts = linked lib opts (wl_linke_close lib) (with_link wl_linke_unbrick)"

section \<open>The programmer itself\<close>

text \<open>Calls of the USB layer made outside a link.\<close>

definition on_usb :: "('w usb_state \<Rightarrow> 'a \<times> 'w usb_state) \<Rightarrow> ('h, 'w, wl_status, 'a) hprog" where
  "on_usb f h = (case f (h_usb h) of (x, u) \<Rightarrow> Some (Inr x, h\<lparr>h_usb := u\<rparr>))"

definition found_or_fail :: "wl_status + 'a \<Rightarrow> ('h, 'w, wl_status, 'a) hprog" where
  "found_or_fail r = (case r of Inl e \<Rightarrow> fail e | Inr x \<Rightarrow> ret x)"

definition print_programmer_version ::
  "('d, 'h, 'w) libusb \<Rightarrow> wl_usb_info_t \<Rightarrow> ('h, 'w, wl_status, unit) hprog" where
  "print_programmer_version lib info =
     andThen (on_usb (wl_usb_open lib info)) (\<lambda>r. case r of
         Inl rc \<Rightarrow> print (line (''  version: (cannot open: '' @ wl_usb_strerror lib rc @ '')''))
       | Inr usb \<Rightarrow>
           andDo (updates (\<lambda>h. h\<lparr>h_link := wl_linke_attach_transport (wl_usb_transport lib) (Some usb),
                                 h_calls := []\<rparr>))
          (attempt (with_link (wl_linke_get_version 64)) (\<lambda>r.
             andDo (updates (\<lambda>h. h\<lparr>h_usb := (h_usb h)\<lparr>us_world := wl_usb_close lib (Some usb) (us_world (h_usb h))\<rparr>\<rparr>))
               (print (line (''  version: '' @
                 (case r of Inr version \<Rightarrow> version | Inl e \<Rightarrow> wl_status_str e)))))))"

definition cmd_programmer_info :: "('d, 'h, 'w) libusb \<Rightarrow> options \<Rightarrow> ('h, 'w, wl_status, unit) hprog" where
  "cmd_programmer_info lib opts =
     andThen (on_usb (wl_programmer_find lib (o_serial opts))) (\<lambda>r.
     andThen (found_or_fail r) (\<lambda>info.
     andDo (print_programmer_info info) (print_programmer_version lib info)))"

fun list_programmers :: "nat \<Rightarrow> wl_usb_info_t list \<Rightarrow> ('h, 'w, wl_status, unit) hprog" where
  "list_programmers i [] = ret ()"
| "list_programmers i (f # fs) =
     andDo (print (newline @ line (''['' @ dec_str (i + 1) @ ''] '' @
              (if ui_accessible f then ''accessible'' else ''not accessible''))))
    (andDo (print_programmer_info f) (list_programmers (i + 1) fs))"

definition cmd_programmer_list :: "('d, 'h, 'w) libusb \<Rightarrow> options \<Rightarrow> ('h, 'w, wl_status, unit) hprog" where
  "cmd_programmer_list lib opts =
     andThen (on_usb (wl_usb_scan lib WL_MAX_PROGRAMMERS)) (\<lambda>r. case r of
         Inl rc \<Rightarrow>
           andDo (logs wl_error (''cannot enumerate USB devices: '' @ wl_usb_strerror lib rc)) (fail WL_ERR_USB)
       | Inr found \<Rightarrow>
           if found = [] then
             andDo (logs wl_error ''no WCH programmer found on the USB bus'') (fail WL_ERR_NO_DEVICE)
           else
             andDo (print (line (dec_str (length found) @ '' programmer(s):''))) (list_programmers 0 found))"

definition switched ::
  "('w usb_state \<Rightarrow> (wl_status + wl_usb_info_t) \<times> 'w usb_state) \<Rightarrow> ('h, 'w, wl_status, unit) hprog" where
  "switched f =
     andThen (on_usb f) (\<lambda>r.
     andThen (found_or_fail r) (\<lambda>info.
     andDo (logs wl_info ''programmer is in RISC-V debug mode'') (print_programmer_info info)))"

definition cmd_programmer_rv :: "('d, 'h, 'w) libusb \<Rightarrow> options \<Rightarrow> ('h, 'w, wl_status, unit) hprog" where
  "cmd_programmer_rv lib opts = switched (wl_programmer_switch_rv lib (o_serial opts))"

definition cmd_programmer_iap :: "('d, 'h, 'w) libusb \<Rightarrow> options \<Rightarrow> ('h, 'w, wl_status, unit) hprog" where
  "cmd_programmer_iap lib opts = switched (wl_programmer_eject_iap lib (o_serial opts))"

definition cmd_programmer :: "('d, 'h, 'w) libusb \<Rightarrow> options \<Rightarrow> ('h, 'w, wl_status, unit) hprog" where
  "cmd_programmer lib opts =
     (let sub = (case o_file opts of None \<Rightarrow> ''info'' | Some f \<Rightarrow> f) in
      if sub = ''info'' then cmd_programmer_info lib opts
      else if sub = ''list'' then cmd_programmer_list lib opts
      else if sub = ''rv'' then cmd_programmer_rv lib opts
      else if sub = ''iap'' then cmd_programmer_iap lib opts
      else
        andDo (logs wl_error (''unknown programmer subcommand '' @ quote sub))
          (usage_error ''expected one of: info, list, rv, iap''))"

end
