(* ===== verification/CliMain.thy ===== *)
theory CliMain
  imports CliCommands
begin

text \<open>
  The target commands, the terminal, the command line and \<^verbatim>\<open>main\<close> of \<^verbatim>\<open>src/main.c\<close>.
\<close>

section \<open>Target commands\<close>

text \<open>The target path is opened with the part that was named, and the core left halted.\<close>

definition debugged ::
  "('d, 'h, 'w) libusb \<Rightarrow> options \<Rightarrow> (wl_chip_t \<Rightarrow> ('h, 'w, wl_status, 'a) hprog) \<Rightarrow> ('h, 'w, wl_status, 'a) hprog" where
  "debugged lib opts m =
     (if o_chip opts = None then
        andDo (logs wl_error ''target debug commands need --chip to preserve state'')
       (andDo (logs wl_error (''auto-detection releases and restarts the target, '' @
                 ''losing the halted/running context''))
          (usage_error ''pass --chip <part>, for example --chip ch32v003''))
      else
        andThen (require_chip opts) (\<lambda>chip.
        andDo (open_link lib opts)
       (andDo (attempt (with_link (andDo (wl_linke_set_interface (Some chip)) wl_linke_halt))
                (\<lambda>r. case r of
                   Inl e \<Rightarrow> andDo (ignoring (with_link (wl_linke_close lib))) (fail e)
                 | Inr _ \<Rightarrow> ret ()))
          (cleanup (m chip) (with_link (wl_linke_close_keep_target lib))))))"

definition cmd_target_halt :: "('d, 'h, 'w) libusb \<Rightarrow> options \<Rightarrow> ('h, 'w, wl_status, unit) hprog" where
  "cmd_target_halt lib opts =
     andDo (linked lib opts (wl_linke_close_keep_target lib) (with_link wl_linke_halt))
       (logs wl_info ''target halted'')"

definition cmd_target_resume :: "('d, 'h, 'w) libusb \<Rightarrow> options \<Rightarrow> ('h, 'w, wl_status, unit) hprog" where
  "cmd_target_resume lib opts =
     andDo (linked lib opts (wl_linke_close lib) (with_link wl_linke_resume))
       (logs wl_info ''target resumed'')"

definition cmd_target_reset :: "('d, 'h, 'w) libusb \<Rightarrow> options \<Rightarrow> ('h, 'w, wl_status, unit) hprog" where
  "cmd_target_reset lib opts =
     andDo (linked lib opts (wl_linke_close lib) (with_link wl_linke_reset))
       (logs wl_info ''target reset'')"

definition cmd_target_pc :: "('d, 'h, 'w) libusb \<Rightarrow> options \<Rightarrow> ('h, 'w, wl_status, unit) hprog" where
  "cmd_target_pc lib opts =
     andThen (debugged lib opts (\<lambda>chip. with_link wl_dm_pc_read))
       (\<lambda>pc. print (line (''pc  = '' @ hex0x pc)))"

fun print_gprs :: "u32 list \<Rightarrow> ('h, 'w, wl_status, unit) hprog" where
  "print_gprs [] = ret ()"
| "print_gprs (reg # regs) =
     andThen (with_link (wl_dm_gpr_read reg)) (\<lambda>value.
     andDo (print (line (CHR ''x'' # left2 (unat reg) @ '' = '' @ hex0x value))) (print_gprs regs))"

definition gpr_count :: "wl_chip_t \<Rightarrow> nat" where
  "gpr_count chip = (if family chip = ''ch32v0'' then 16 else 32)"

definition cmd_target_regs :: "('d, 'h, 'w) libusb \<Rightarrow> options \<Rightarrow> ('h, 'w, wl_status, unit) hprog" where
  "cmd_target_regs lib opts =
     debugged lib opts (\<lambda>chip.
       andThen (with_link wl_dm_pc_read) (\<lambda>pc.
       andDo (print (line (''pc  = '' @ hex0x pc)))
         (print_gprs (map of_nat [0..<gpr_count chip]))))"

text \<open>The number at an index of \<^verbatim>\<open>opts->extra\<close>, when there are that many.\<close>

definition extra_number :: "options \<Rightarrow> nat \<Rightarrow> u32 option" where
  "extra_number opts i = (if i < length (o_extra opts) then parse_u32 (Some (o_extra opts ! i)) else None)"

definition cmd_target_read32 :: "('d, 'h, 'w) libusb \<Rightarrow> options \<Rightarrow> ('h, 'w, wl_status, unit) hprog" where
  "cmd_target_read32 lib opts =
     (case extra_number opts 0 of
        None \<Rightarrow> usage_error ''target read32 needs an address, e.g. `target read32 0x08000000`''
      | Some address \<Rightarrow>
          andThen (debugged lib opts (\<lambda>chip. with_link (wl_dm_read32 address)))
            (\<lambda>value. print (line (hex0x address @ '' = '' @ hex0x value))))"

definition cmd_target_write32 :: "('d, 'h, 'w) libusb \<Rightarrow> options \<Rightarrow> ('h, 'w, wl_status, unit) hprog" where
  "cmd_target_write32 lib opts =
     (case (extra_number opts 0, extra_number opts 1) of
        (Some address, Some value) \<Rightarrow>
          andDo (debugged lib opts (\<lambda>chip. with_link (wl_dm_write32 address value)))
            (print (line (hex0x address @ '' <- '' @ hex0x value)))
      | _ \<Rightarrow> usage_error (''target write32 needs address and value, e.g. '' @
               ''`target write32 0x20000000 0x12345678`''))"

definition cmd_target :: "('d, 'h, 'w) libusb \<Rightarrow> options \<Rightarrow> ('h, 'w, wl_status, unit) hprog" where
  "cmd_target lib opts =
     (case o_file opts of
        None \<Rightarrow> usage_error ''target needs a subcommand: halt, resume, reset, pc, regs, read32, write32''
      | Some sub \<Rightarrow>
          if sub = ''halt'' then cmd_target_halt lib opts
          else if sub = ''resume'' then cmd_target_resume lib opts
          else if sub = ''reset'' then cmd_target_reset lib opts
          else if sub = ''pc'' then cmd_target_pc lib opts
          else if sub = ''regs'' then cmd_target_regs lib opts
          else if sub = ''read32'' then cmd_target_read32 lib opts
          else if sub = ''write32'' then cmd_target_write32 lib opts
          else
            andDo (logs wl_error (''unknown target subcommand '' @ quote sub))
              (usage_error ''expected one of: halt, resume, reset, pc, regs, read32, write32''))"

section \<open>The terminal\<close>

text \<open>What the low byte of \<^verbatim>\<open>DATA0\<close> says: so many bytes of text, an acknowledgement, or nothing.\<close>

datatype sdi_packet = Sdi_text nat | Sdi_ack | Sdi_idle

definition sdi_packet_of :: "u8 \<Rightarrow> sdi_packet" where
  "sdi_packet_of low =
     (if low AND 0x80 \<noteq> 0 then
        (let n = int (unat (low AND 0x3f)) - 4 in
         if 1 \<le> n \<and> n \<le> 7 then Sdi_text (nat n) else Sdi_ack)
      else if 1 \<le> low \<and> low \<le> 7 then Sdi_text (unat low)
      else Sdi_idle)"

text \<open>Up to three bytes from \<^verbatim>\<open>DATA0\<close>, above the low one, and the rest from \<^verbatim>\<open>DATA1\<close>.\<close>

definition sdi_text :: "nat \<Rightarrow> u32 \<Rightarrow> u32 \<Rightarrow> string" where
  "sdi_text n data0 data1 =
     map (\<lambda>i. char_of (unat (byte_of (i + 1) data0))) [0..<min 3 n] @
     map (\<lambda>i. char_of (unat (byte_of (i - 3) data1))) [3..<n]"

definition terminal_turn :: "('x, 'w, string) lprog" where
  "terminal_turn =
     andThen (wl_linke_dmi_read WL_DMI_DATA0) (\<lambda>data0.
       case sdi_packet_of (ucast (data0 AND 0xff)) of
         Sdi_ack \<Rightarrow> andDo (ignoring (wl_linke_dmi_write WL_DMI_DATA0 0)) (ret [])
       | Sdi_idle \<Rightarrow> ret []
       | Sdi_text n \<Rightarrow>
           andThen (if 3 < n then wl_linke_dmi_read WL_DMI_DATA1 else ret 0) (\<lambda>data1.
           andDo (if 3 < n then ignoring (wl_linke_dmi_write WL_DMI_DATA1 0) else ret ())
          (andDo (ignoring (wl_linke_dmi_write WL_DMI_DATA0 0))
             (ret (sdi_text n data0 data1)))))"

text \<open>\<^verbatim>\<open>fwrite\<close> to stdout; the answer is whether everything was taken.\<close>

definition write_out :: "string \<Rightarrow> ('h, 'w, wl_status, bool) hprog" where
  "write_out t h =
     (case h_takes h of
        [] \<Rightarrow> Some (Inr True, h\<lparr>h_out := h_out h @ t\<rparr>)
      | n # ns \<Rightarrow> Some (Inr (length t \<le> n), h\<lparr>h_out := h_out h @ take n t, h_takes := ns\<rparr>))"

text \<open>The loop; it runs until a signal arrives, a register cannot be read or stdout is full.\<close>

partial_function (option) terminal_loop ::
  "('h, 'w) host \<Rightarrow> ((wl_status + unit) \<times> ('h, 'w) host) option" where
  "terminal_loop h =
     (if h_signal h = Some 0 then Some (Inr (), h)
      else
        attempt (with_link terminal_turn) (\<lambda>r h1.
          case r of
            Inl e \<Rightarrow> Some (Inl e, h1)
          | Inr t \<Rightarrow>
              if t = [] then terminal_loop h1
              else andThen (write_out t) (\<lambda>all h2. if all then terminal_loop h2 else Some (Inr (), h2)) h1)
          (h\<lparr>h_signal := map_option (\<lambda>n. n - 1) (h_signal h)\<rparr>))"

declare terminal_loop.simps [code]

definition cmd_terminal :: "('d, 'h, 'w) libusb \<Rightarrow> options \<Rightarrow> ('h, 'w, wl_status, unit) hprog" where
  "cmd_terminal lib opts =
     andThen (given_chip opts) (\<lambda>given.
     linked lib opts (wl_linke_close lib)
       (andThen (chosen_chip given (\<lambda>c. ret ())) (\<lambda>chip.
        andDo (with_link (wl_linke_set_interface (Some chip)))
       (andDo (if given = None then with_link wl_linke_resume else ret ())
       (andDo (logs wl_info (''terminal = SDI/DMDATA, '' @ name chip @ ''; Ctrl-C to stop''))
       (attempt terminal_loop (\<lambda>r.
        andThen (reads (\<lambda>h. h_signal h = Some 0)) (\<lambda>stopped.
        andDo (if stopped then print newline else ret ())
          (case r of Inl e \<Rightarrow> fail e | Inr _ \<Rightarrow> ret ())))))))))"

section \<open>The command line\<close>

text \<open>Here an error is the exit status.\<close>

definition bad_line :: "string \<Rightarrow> ('h, 'w, nat, 'a) hprog" where
  "bad_line m = andDo (logs wl_error m) (fail 2)"

text \<open>The options that take the next argument, and what is said when it is missing or wrong.\<close>

definition needs :: "string \<Rightarrow> string option" where
  "needs arg =
     (if arg = ''-s'' \<or> arg = ''--serial'' \<or> arg = ''-c'' \<or> arg = ''--chip'' then Some '' needs an argument''
      else if arg = ''-a'' \<or> arg = ''--address'' \<or> arg = ''-n'' \<or> arg = ''--size'' then Some '' needs a number''
      else if arg = ''-p'' \<or> arg = ''--port'' then Some '' needs a TCP port''
      else None)"

definition missing :: "string \<Rightarrow> ('h, 'w, nat, 'a) hprog" where
  "missing arg = bad_line (arg @ the (needs arg))"

text \<open>An option together with its value.\<close>

definition parse_value :: "string \<Rightarrow> string \<Rightarrow> options \<Rightarrow> ('h, 'w, nat, options) hprog" where
  "parse_value arg v opts =
     (if arg = ''-s'' \<or> arg = ''--serial'' then ret (opts\<lparr>o_serial := Some v\<rparr>)
      else if arg = ''-c'' \<or> arg = ''--chip'' then ret (opts\<lparr>o_chip := Some v\<rparr>)
      else
        (case parse_u32 (Some v) of
           None \<Rightarrow> missing arg
         | Some n \<Rightarrow>
             if arg = ''-a'' \<or> arg = ''--address'' then ret (opts\<lparr>o_address := n, o_address_given := True\<rparr>)
             else if arg = ''-n'' \<or> arg = ''--size'' then ret (opts\<lparr>o_size := unat n, o_size_given := True\<rparr>)
             else if n = 0 \<or> 65535 < n then missing arg
             else ret (opts\<lparr>o_port := ucast n\<rparr>)))"

text \<open>An argument that is not the value of the one before it: the first result is an option that
  still wants its value.\<close>

definition parse_word ::
  "string \<Rightarrow> string option \<Rightarrow> options \<Rightarrow> ('h, 'w, nat, string option \<times> string option \<times> options) hprog" where
  "parse_word arg command opts =
     (if arg = ''-h'' \<or> arg = ''--help'' then andDo (with_program (\<lambda>p. print (usage_text p))) (fail 0)
      else if arg = ''--version'' then
        andDo (with_program (\<lambda>p. print (line (p @ '' '' @ WL_VERSION)))) (fail 0)
      else if arg = ''-v'' \<or> arg = ''--verbose'' then
        andDo (wl_log_set_level WL_LEVEL_DEBUG) (ret (None, command, opts))
      else if arg = ''-q'' \<or> arg = ''--quiet'' then
        andDo (wl_log_set_level WL_LEVEL_QUIET) (ret (None, command, opts))
      else if arg = ''--verify'' then ret (None, command, opts\<lparr>o_verify := True\<rparr>)
      else if arg = ''--no-verify'' then ret (None, command, opts\<lparr>o_verify := False\<rparr>)
      else if needs arg \<noteq> None then ret (Some arg, command, opts)
      else if 2 \<le> length arg \<and> arg ! 0 = CHR ''-'' then
        andDo (logs wl_error (''unknown option '' @ quote arg))
       (andDo (with_program (\<lambda>p. print_err (usage_text p))) (fail 2))
      else if command = None then ret (None, Some arg, opts)
      else if o_file opts = None then ret (None, command, opts\<lparr>o_file := Some arg\<rparr>)
      else if command = Some ''target'' \<and> length (o_extra opts) < WL_TARGET_EXTRA_MAX then
        ret (None, command, opts\<lparr>o_extra := o_extra opts @ [arg]\<rparr>)
      else bad_line (''unexpected argument '' @ quote arg))"

text \<open>The loop over the arguments; \<open>pending\<close> is the option whose value comes next.\<close>

fun parse_args ::
  "string list \<Rightarrow> string option \<Rightarrow> string option \<Rightarrow> options
     \<Rightarrow> ('h, 'w, nat, string option \<times> options) hprog" where
  "parse_args [] pending command opts =
     (case pending of None \<Rightarrow> ret (command, opts) | Some arg \<Rightarrow> missing arg)"
| "parse_args (a # args) pending command opts =
     andThen (case pending of
                Some arg \<Rightarrow> andThen (parse_value arg a opts) (\<lambda>opts'. ret (None, command, opts'))
              | None \<Rightarrow> parse_word a command opts)
       (\<lambda>(pending', command', opts'). parse_args args pending' command' opts')"

section \<open>Running a command\<close>

definition run_gdb_server :: "('d, 'h, 'w) libusb \<Rightarrow> options \<Rightarrow> wl_chip_t \<Rightarrow> ('h, 'w, wl_status, unit) hprog" where
  "run_gdb_server lib opts chip h =
     (case wl_gdb_server_run lib (h_gdb h) (o_serial opts) (Some chip) (h_usb h) of
        None \<Rightarrow> None
      | Some (r, u) \<Rightarrow> Some (case r of Inl e \<Rightarrow> Inl e | Inr sent \<Rightarrow> Inr (), h\<lparr>h_usb := u\<rparr>))"

definition needs_file :: "options \<Rightarrow> string \<Rightarrow> ('h, 'w, wl_status, unit) hprog \<Rightarrow> ('h, 'w, wl_status, unit) hprog" where
  "needs_file opts command m =
     (if o_file opts = None then usage_error (command @ '' needs a file argument'') else m)"

definition run_command :: "('d, 'h, 'w) libusb \<Rightarrow> string \<Rightarrow> options \<Rightarrow> ('h, 'w, wl_status, unit) hprog" where
  "run_command lib command opts =
     (if command = ''chips'' then cmd_chips
      else if command = ''info'' then cmd_info lib opts
      else if command = ''flash'' then needs_file opts command (cmd_flash lib opts)
      else if command = ''read'' then needs_file opts command (cmd_read lib opts)
      else if command = ''programmer'' then cmd_programmer lib opts
      else if command = ''target'' then cmd_target lib opts
      else if command = ''reset'' then cmd_reset lib opts
      else if command = ''unbrick'' then cmd_unbrick lib opts
      else if command = ''gdbserver'' then
        (if o_chip opts = None then
           andDo (logs wl_error ''gdbserver needs --chip to preserve target state'')
             (usage_error (''auto-detection resets the target; pass '' @
                ''--chip <part>, for example --chip ch32v003''))
         else andThen (require_chip opts) (run_gdb_server lib opts))
      else if command = ''terminal'' then cmd_terminal lib opts
      else
        andDo (logs wl_error (''unknown command '' @ quote command))
       (andDo (with_program (\<lambda>p. print_err (usage_text p))) (fail WL_ERR_USAGE)))"

fun status_to_exit :: "wl_status \<Rightarrow> nat" where
  "status_to_exit WL_OK = 0"
| "status_to_exit WL_ERR_USAGE = 2"
| "status_to_exit WL_ERR_NO_DEVICE = 3"
| "status_to_exit WL_ERR_ACCESS = 3"
| "status_to_exit _ = 1"

text \<open>Everything after the command line has been read; the answer is the exit status.\<close>

definition run_main :: "('d, 'h, 'w) libusb \<Rightarrow> string option \<times> options \<Rightarrow> ('h, 'w, nat, nat) hprog" where
  "run_main lib parsed h =
     (case parsed of
        (None, opts) \<Rightarrow> andDo (with_program (\<lambda>p. print_err (usage_text p))) (fail 2) h
      | (Some command, opts) \<Rightarrow>
          andDo (with_program (\<lambda>p. logs wl_debug (p @ '' '' @ WL_VERSION)))
            (\<lambda>h1.
              case wl_usb_global_init lib (h_usb h1) of
                (rc, u) \<Rightarrow>
                  if rc < 0 then
                    andDo (logs wl_error (''cannot initialise libusb: '' @ wl_usb_strerror lib rc)) (fail 1)
                      (h1\<lparr>h_usb := u\<rparr>)
                  else
                    (case run_command lib command opts (h1\<lparr>h_usb := u\<rparr>) of
                       None \<Rightarrow> None
                     | Some (r, h2) \<Rightarrow>
                         andDo (if status_of r = WL_OK then ret ()
                                else logs wl_debug (''exiting with '' @ wl_status_str (status_of r)))
                           (ret (status_to_exit (status_of r)))
                           (h2\<lparr>h_usb := wl_usb_global_exit lib (h_usb h2)\<rparr>))) h)"

definition basename :: "string \<Rightarrow> string" where
  "basename path = (case strrchr (CHR ''/'') path of None \<Rightarrow> path | Some slash \<Rightarrow> tl slash)"

definition main :: "('d, 'h, 'w) libusb \<Rightarrow> string list \<Rightarrow> ('h, 'w) host \<Rightarrow> (nat \<times> ('h, 'w) host) option" where
  "main lib argv h =
     (case andDo (if argv \<noteq> [] \<and> hd argv \<noteq> [] then updates (\<lambda>h. h\<lparr>h_program := basename (hd argv)\<rparr>) else ret ())
            (andThen (parse_args (tl argv) None None initial_options) (run_main lib)) h of
        None \<Rightarrow> None
      | Some (Inl code, h') \<Rightarrow> Some (code, h')
      | Some (Inr code, h') \<Rightarrow> Some (code, h'))"

end
