(* ===== verification/UsbProps.thy ===== *)
theory UsbProps
  imports UsbLink
begin

text \<open>
  Properties of the USB layer for any libusb: what is opened is closed again, only a programmer in
  RISC-V mode that the user asked for is used, and which status says what.
\<close>

section \<open>Handles\<close>

text \<open>
  \<open>held\<close> counts the open handles of a world: opening a device adds one when it succeeds, closing
  takes one away, and no other call changes the number.  This is how libusb is documented.
\<close>

definition counts_handles :: "('d, 'h, 'w) libusb \<Rightarrow> ('w \<Rightarrow> int) \<Rightarrow> bool" where
  "counts_handles lib held \<longleftrightarrow>
     (\<forall>d w. held (snd (lu_open lib d w)) = held w + (case fst (lu_open lib d w) of Inl _ \<Rightarrow> 0 | Inr _ \<Rightarrow> 1)) \<and>
     (\<forall>h w. held (lu_close lib h w) = held w - 1) \<and>
     (\<forall>w. held (snd (lu_get_device_list lib w)) = held w) \<and>
     (\<forall>d w. held (snd (lu_get_descriptor lib d w)) = held w) \<and>
     (\<forall>h i n w. held (snd (lu_get_string lib h i n w)) = held w) \<and>
     (\<forall>h w. held (lu_detach_kernel lib h w) = held w) \<and>
     (\<forall>h i w. held (snd (lu_claim lib h i w)) = held w) \<and>
     (\<forall>h i w. held (lu_release lib h i w) = held w) \<and>
     (\<forall>h e bs t w. held (snd (lu_bulk_out lib h e bs t w)) = held w) \<and>
     (\<forall>h e n t w. held (snd (lu_bulk_in lib h e n t w)) = held w) \<and>
     (\<forall>w. held (snd (lu_init lib w)) = held w \<and> held (lu_exit lib w) = held w)"

named_theorems held "how the calls of the library change the number of open handles"

lemma counted [held]:
  assumes "counts_handles lib held"
  shows "lu_open lib d w = (Inl rc, w') \<Longrightarrow> held w' = held w"
    and "lu_open lib d w = (Inr h, w') \<Longrightarrow> held w' = held w + 1"
    and "held (lu_close lib h w) = held w - 1"
    and "lu_get_device_list lib w = (l, w') \<Longrightarrow> held w' = held w"
    and "lu_get_descriptor lib d w = (r, w') \<Longrightarrow> held w' = held w"
    and "lu_get_string lib h i n w = (t, w') \<Longrightarrow> held w' = held w"
    and "held (lu_detach_kernel lib h w) = held w"
    and "lu_claim lib h j w = (c, w') \<Longrightarrow> held w' = held w"
    and "held (lu_release lib h j w) = held w"
    and "lu_bulk_out lib h e bs k w = (b, w') \<Longrightarrow> held w' = held w"
    and "lu_bulk_in lib h e n k w = (q, w') \<Longrightarrow> held w' = held w"
    and "lu_init lib w = (x, w') \<Longrightarrow> held w' = held w"
    and "held (lu_exit lib w) = held w"
  using assms unfolding counts_handles_def by (metis fst_conv snd_conv sum.case add.right_neutral)+

lemma read_string_held:
  assumes "counts_handles lib held" "read_string lib h i n w = (s, w')"
  shows "held w' = held w"
  using assms(2)
  by (auto simp: read_string_def dest!: counted(6) [OF assms(1)] split: if_splits prod.splits sum.splits)

lemma probe_held:
  assumes "counts_handles lib held" "probe_device lib d desc w = (info, w')"
  shows "held w' = held w"
  using assms(2)
  by (auto simp: probe_device_def Let_def counted(3) [OF assms(1)]
      dest!: counted(1,2) [OF assms(1)] read_string_held [OF assms(1)] split: prod.splits sum.splits)

lemma scan_devices_held:
  assumes "counts_handles lib held"
  shows "scan_devices lib n ds links w = (l, w') \<Longrightarrow> held w' = held w"
proof (induction ds arbitrary: links w)
  case (Cons d ds)
  from Cons.prems show ?case
    by (auto dest!: counted(5) [OF assms] probe_held [OF assms] Cons.IH
        split: if_splits prod.splits sum.splits)
qed simp

lemma scan_held:
  assumes "counts_handles lib held" "wl_usb_scan lib n u = (r, u')"
  shows "held (us_world u') = held (us_world u)"
  using assms(2)
  by (auto simp: wl_usb_scan_def dest!: counted(4) [OF assms(1)] scan_devices_held [OF assms(1)]
      split: if_splits prod.splits sum.splits)

lemma open_described_held:
  assumes "counts_handles lib held" "open_described lib info u = (r, u')"
  shows "held (us_world u') = held (us_world u) + (case r of Inl _ \<Rightarrow> 0 | Inr _ \<Rightarrow> 1)"
proof -
  have o: "lu_open lib d w = (r, w') \<Longrightarrow> held w' = held w + (case r of Inl _ \<Rightarrow> 0 | Inr _ \<Rightarrow> 1)" for d w w' and r
    using counted(1,2) [OF assms(1)] by (cases r) simp_all
  show ?thesis using assms(2)
    by (auto simp: open_described_def dest!: counted(4) [OF assms(1)] o
        split: if_splits prod.splits sum.splits option.splits)
qed

lemma usb_open_held:
  assumes "counts_handles lib held" "wl_usb_open lib info u = (r, u')"
  shows "held (us_world u') = held (us_world u) + (case r of Inl _ \<Rightarrow> 0 | Inr _ \<Rightarrow> 1) \<and>
     (\<forall>l. r = Inr l \<longrightarrow> ul_handle l \<noteq> None)"
  using assms(2)
  by (auto simp: wl_usb_open_def counted(3,7) [OF assms(1)]
      dest!: open_described_held [OF assms(1)] counted(8) [OF assms(1)]
      split: if_splits prod.splits sum.splits)

lemma boot_held:
  assumes "counts_handles lib held" "wl_usb_send_boot_command lib info cmd u = (rc, u')"
  shows "held (us_world u') = held (us_world u)"
  using assms(2)
  by (auto simp: wl_usb_send_boot_command_def counted(3) [OF assms(1)]
      dest!: open_described_held [OF assms(1)] counted(10) [OF assms(1)]
      split: if_splits prod.splits sum.splits)

lemma wait_held:
  assumes "counts_handles lib held"
  shows "wait_for_mode_from lib mode f t u = (r, u') \<Longrightarrow> held (us_world u') = held (us_world u)"
proof (induction "WL_MODE_SWITCH_WAIT_MS - t" arbitrary: t u rule: less_induct)
  case less
  have step: "WL_MODE_SWITCH_WAIT_MS - (t + WL_MODE_SWITCH_POLL_MS) < WL_MODE_SWITCH_WAIT_MS - t"
    if "t < WL_MODE_SWITCH_WAIT_MS"
    using that by (simp add: WL_MODE_SWITCH_POLL_MS_def)
  from less.prems show ?case
    by (subst (asm) wait_for_mode_from.simps)
      (auto dest!: scan_held [OF assms] less.hyps [OF step] split: if_splits prod.splits sum.splits option.splits)
qed

lemma choose_held:
  assumes "counts_handles lib held" "choose_programmer lib f found u = (r, u')"
  shows "held (us_world u') = held (us_world u)"
  using assms(2)
  by (auto simp: choose_programmer_def Let_def recover_def wait_for_mode_def wl_usb_switch_arm_to_rv_def
      wl_usb_eject_iap_def dest!: wait_held [OF assms(1)] boot_held [OF assms(1)]
      split: if_splits prod.splits option.splits)

lemma linke_open_held:
  assumes "counts_handles lib held" "wl_linke_open lib f u = (r, u')"
  shows "held (us_world u') = held (us_world u) + (case r of Inl _ \<Rightarrow> 0 | Inr _ \<Rightarrow> 1) \<and>
     (\<forall>l. r = Inr l \<longrightarrow> lk_open l \<and> lk_transport l = Some (wl_usb_transport lib) \<and>
        (\<exists>usb. lk_ctx l = Some usb \<and> ul_handle usb \<noteq> None))"
  using assms(2)
  by (auto simp: wl_linke_open_def dest!: scan_held [OF assms(1)] choose_held [OF assms(1)]
      usb_open_held [OF assms(1)] split: if_splits prod.splits sum.splits)

lemma command_held:
  assumes "counts_handles lib held" "usb_transport_command lib lnk req mx w = ((rc, reply), w')"
  shows "held w' = held w"
  using assms(2)
  by (auto simp: usb_transport_command_def dest!: counted(10,11) [OF assms(1)]
      split: if_splits prod.splits option.splits)

lemma close_held:
  assumes "counts_handles lib held" "ul_handle usb \<noteq> None"
  shows "held (wl_usb_close lib (Some usb) w) = held w - 1"
  using assms(2) by (auto simp: wl_usb_close_def counted(3,9) [OF assms(1)])

lemma linke_close_held:
  assumes c: "counts_handles lib held"
    and s: "lk_transport (link s) = Some (wl_usb_transport lib)" "lk_ctx (link s) = Some usb"
      "ul_handle usb \<noteq> None"
  shows "\<exists>s'. wl_linke_close lib s = Some (Inr (), s') \<and> held (world s') = held (world s) - 1 \<and>
     \<not> lk_open (link s') \<and> lk_ctx (link s') = None"
proof -
  obtain s0 where s0: "ignoring (send_control WL_CMD_CONTROL WL_CTL_RELEASE WL_REPLY_MAX) s = Some (Inr (), s0)"
    "held (world s0) = held (world s)"
  proof (cases "lk_open (link s)")
    case True
    obtain rc reply w where c1: "usb_transport_command lib (Some usb) [0x81, WL_CMD_CONTROL, 0x01, WL_CTL_RELEASE]
        WL_REPLY_MAX (world s) = ((rc, reply), w)" by (metis surj_pair)
    with True s that [of "s\<lparr>world := w\<rparr>"] command_held [OF c c1] show ?thesis
      by (simp add: ignoring_def attempt_def send_control_def wl_linke_command_def Let_def
          wl_usb_transport_def WL_REPLY_MAX_def)
  next
    case False
    with s that [of s] show ?thesis
      by (simp add: ignoring_def attempt_def send_control_def wl_linke_command_def)
  qed
  obtain s1 where s1: "wl_linke_detach s = Some (Inr (), s1)" "held (world s1) = held (world s)"
    "\<not> lk_open (link s1)" "lk_ctx (link s1) = None"
  proof (cases "lk_open (link s)")
    case True
    with s s0 that show ?thesis by (simp add: wl_linke_detach_def andThen_def)
  next
    case False
    with s that show ?thesis by (simp add: wl_linke_detach_def andThen_def)
  qed
  then show ?thesis
    using s close_held [OF c s(3)] by (auto simp: wl_linke_close_def andThen_def)
qed

section \<open>A small library\<close>

text \<open>One WCH-LinkE in RISC-V mode on the bus; the world is the number of open handles.\<close>

definition one_probe :: "(unit, unit, int) libusb" where
  "one_probe =
     \<lparr>lu_init = (\<lambda>w. (0, w)), lu_exit = (\<lambda>w. w), lu_get_device_list = (\<lambda>w. (Inr [()], w)),
      lu_get_descriptor = (\<lambda>d w. (Inr (0x1a86, 0x8010, 1, 2), w)), lu_bus_number = (\<lambda>d. 1),
      lu_device_address = (\<lambda>d. 5), lu_open = (\<lambda>d w. (Inr (), w + 1)), lu_close = (\<lambda>h w. w - 1),
      lu_get_string = (\<lambda>h i n w. (Inr ''0001'', w)), lu_detach_kernel = (\<lambda>h w. w),
      lu_claim = (\<lambda>h i w. (0, w)), lu_release = (\<lambda>h i w. w),
      lu_bulk_out = (\<lambda>h e bs t w. ((0, length bs), w)), lu_bulk_in = (\<lambda>h e n t w. ((0, [0x82, 0x0d]), w)),
      lu_error_name = (\<lambda>rc. ''LIBUSB_ERROR''), LIBUSB_ERROR_IO = -1, LIBUSB_ERROR_ACCESS = -3,
      LIBUSB_ERROR_NO_DEVICE = -4, LIBUSB_ERROR_OTHER = -99\<rparr>"

lemma one_probe_counts: "counts_handles one_probe (\<lambda>w. w)"
  by (simp add: counts_handles_def one_probe_def)

lemma one_probe_scan:
  "wl_usb_scan one_probe WL_MAX_LINKS \<lparr>us_context = True, us_world = 0\<rparr> =
     (Inr [\<lparr>ui_mode = WL_USB_MODE_RV, ui_vid = 0x1a86, ui_pid = 0x8010, ui_bus = 1, ui_address = 5,
            ui_accessible = True, ui_serial = ''0001'', ui_product = ''0001''\<rparr>], \<lparr>us_context = True, us_world = 0\<rparr>)"
  by (simp add: wl_usb_scan_def one_probe_def probe_device_def read_string_def classify_def usb_ids
      WL_MAX_LINKS_def WL_USB_SERIAL_MAX_def WL_USB_PRODUCT_MAX_def)

lemma one_probe_open:
  "\<exists>l. wl_linke_open one_probe (Some ''0001'') \<lparr>us_context = True, us_world = 0\<rparr> =
     (Inr l, \<lparr>us_context = True, us_world = 1\<rparr>)"
  unfolding wl_linke_open_def one_probe_scan
  by (simp add: choose_programmer_def serial_matches_def wl_usb_open_def open_described_def one_probe_def Let_def)

section \<open>Properties of the USB layer\<close>

text \<open>C35: opening a programmer leaves exactly one more USB handle open when it succeeds and none
  when it fails, through every mode switch, scan and refused claim, and closing gives that
  handle back whatever the programmer answers.\<close>

theorem handles_balanced:
  assumes c: "counts_handles lib held" and o: "wl_linke_open lib f u = (r, u')"
  shows "(\<forall>e. r = Inl e \<longrightarrow> held (us_world u') = held (us_world u)) \<and>
     (\<forall>l. r = Inr l \<longrightarrow> held (us_world u') = held (us_world u) + 1 \<and>
        (\<forall>w k. \<exists>s'. wl_linke_close lib \<lparr>link = l, world = w, calls = k\<rparr> = Some (Inr (), s') \<and>
           held (world s') = held w - 1 \<and> \<not> lk_open (link s')))"
proof (cases r)
  case (Inl e)
  then show ?thesis using linke_open_held [OF c o] by simp
next
  case (Inr l)
  then obtain usb where l: "lk_transport l = Some (wl_usb_transport lib)" "lk_ctx l = Some usb"
    "ul_handle usb \<noteq> None" "held (us_world u') = held (us_world u) + 1"
    using linke_open_held [OF c o] by auto
  have "\<exists>s'. wl_linke_close lib \<lparr>link = l, world = w, calls = k\<rparr> = Some (Inr (), s') \<and>
     held (world s') = held w - 1 \<and> \<not> lk_open (link s')" for w k
    using linke_close_held [OF c, of "\<lparr>link = l, world = w, calls = k\<rparr>" usb] l by auto
  then show ?thesis using Inr l(4) by simp
qed

theorem handles_balanced_witness:
  "\<exists>l s'. wl_linke_open one_probe (Some ''0001'') \<lparr>us_context = True, us_world = 0\<rparr> =
     (Inr l, \<lparr>us_context = True, us_world = 1\<rparr>) \<and>
     wl_linke_close one_probe \<lparr>link = l, world = 1, calls = []\<rparr> = Some (Inr (), s') \<and> world s' = 0"
proof -
  obtain l where l: "wl_linke_open one_probe (Some ''0001'') \<lparr>us_context = True, us_world = 0\<rparr> =
     (Inr l, \<lparr>us_context = True, us_world = 1\<rparr>)" using one_probe_open by blast
  have "\<exists>s'. wl_linke_close one_probe \<lparr>link = l, world = 1, calls = []\<rparr> = Some (Inr (), s') \<and>
     world s' = 1 - 1 \<and> \<not> lk_open (Linke.link s')"
    using handles_balanced [OF one_probe_counts l] by blast
  then obtain s' where "wl_linke_close one_probe \<lparr>link = l, world = 1, calls = []\<rparr> = Some (Inr (), s')"
    "world s' = 0" by auto
  with l show ?thesis by blast
qed

lemma find_Some_set: "find P xs = Some x \<Longrightarrow> x \<in> set xs \<and> P x"
  by (induction xs) (auto split: if_splits)

text \<open>
  What libusb documents about devices: a handle belongs to the device it was opened on (\<open>dev\<close>, the
  function \<^verbatim>\<open>libusb_get_device\<close>), a device has one descriptor (\<open>desc\<close>) and one text for each string
  index (\<open>text_of\<close>), cut at the size of the buffer, and a bus number and an address belong to one
  device.
\<close>

definition devices_fixed ::
  "('d, 'h, 'w) libusb \<Rightarrow> ('h \<Rightarrow> 'd) \<Rightarrow> ('d \<Rightarrow> u16 \<times> u16 \<times> u8 \<times> u8) \<Rightarrow> ('d \<Rightarrow> u8 \<Rightarrow> string) \<Rightarrow> bool" where
  "devices_fixed lib dev desc text_of \<longleftrightarrow>
     (\<forall>d w h w'. lu_open lib d w = (Inr h, w') \<longrightarrow> dev h = d) \<and>
     (\<forall>d w x w'. lu_get_descriptor lib d w = (Inr x, w') \<longrightarrow> x = desc d) \<and>
     (\<forall>h i n w t w'. lu_get_string lib h i n w = (Inr t, w') \<longrightarrow> t = take n (text_of (dev h) i)) \<and>
     (\<forall>d d'. lu_bus_number lib d = lu_bus_number lib d' \<and> lu_device_address lib d = lu_device_address lib d' \<longrightarrow>
        d = d')"

lemma device_laws:
  assumes "devices_fixed lib dev desc text_of"
  shows "lu_open lib d w = (Inr h, w') \<Longrightarrow> dev h = d"
    and "lu_get_descriptor lib d w = (Inr x, w') \<Longrightarrow> x = desc d"
    and "lu_get_string lib h i n w = (Inr t, w') \<Longrightarrow> t = take n (text_of (dev h) i)"
    and "lu_bus_number lib d = lu_bus_number lib d' \<Longrightarrow> lu_device_address lib d = lu_device_address lib d' \<Longrightarrow> d = d'"
  using assms unfolding devices_fixed_def by blast+

definition serial_index :: "u16 \<times> u16 \<times> u8 \<times> u8 \<Rightarrow> u8" where
  "serial_index x = fst (snd (snd x))"

definition mode_of :: "u16 \<times> u16 \<times> u8 \<times> u8 \<Rightarrow> wl_usb_mode" where
  "mode_of x = classify (fst x) (fst (snd x))"

text \<open>A description of a device: its place on the bus, its mode, and its serial number if it was read.\<close>

definition describes ::
  "('d, 'h, 'w) libusb \<Rightarrow> ('d \<Rightarrow> u16 \<times> u16 \<times> u8 \<times> u8) \<Rightarrow> ('d \<Rightarrow> u8 \<Rightarrow> string) \<Rightarrow> wl_usb_info_t \<Rightarrow> 'd \<Rightarrow> bool" where
  "describes lib desc text_of i d \<longleftrightarrow>
     ui_bus i = lu_bus_number lib d \<and> ui_address i = lu_device_address lib d \<and> ui_mode i = mode_of (desc d) \<and>
     (ui_serial i = [] \<or>
      serial_index (desc d) \<noteq> 0 \<and> ui_serial i = take 63 (text_of d (serial_index (desc d))))"

lemma probe_describes:
  assumes f: "devices_fixed lib dev desc text_of" and p: "probe_device lib d (desc d) w = (i, w')"
  shows "describes lib desc text_of i d"
proof -
  obtain vid pid si pi where x: "desc d = (vid, pid, si, pi)" by (metis surj_pair)
  note op = device_laws(1) [OF f] and st = device_laws(3) [OF f]
  from p show ?thesis
    by (auto simp: probe_device_def read_string_def x describes_def mode_of_def serial_index_def Let_def
        WL_USB_SERIAL_MAX_def min_def
        dest!: op st split: prod.splits sum.splits if_splits)
qed

lemma scan_describes:
  assumes f: "devices_fixed lib dev desc text_of"
  shows "scan_devices lib n ds links w = (l, w') \<Longrightarrow> \<forall>i \<in> set links. \<exists>d. describes lib desc text_of i d \<Longrightarrow>
     \<forall>i \<in> set l. \<exists>d. describes lib desc text_of i d"
proof (induction ds arbitrary: links w)
  case (Cons d ds)
  note x = device_laws(2) [OF f]
  obtain r w1 where g: "lu_get_descriptor lib d w = (r, w1)" by (metis surj_pair)
  show ?case
  proof (cases r)
    case (Inl rc)
    then show ?thesis using Cons.prems Cons.IH [of links w1] g by simp
  next
    case (Inr y)
    then have y: "y = desc d" using x g by simp
    obtain vid pid si pi where q: "desc d = (vid, pid, si, pi)" by (metis surj_pair)
    obtain i w2 where p: "probe_device lib d (desc d) w1 = (i, w2)" by (metis surj_pair)
    have d: "describes lib desc text_of i d" by (rule probe_describes [OF f p])
    show ?thesis
      using Cons.prems Cons.IH [of links w1] Cons.IH [of "links @ [i]" w2] d p
      by (auto simp: g Inr y q split: if_splits)
  qed
qed simp

lemma usb_scan_describes:
  assumes "devices_fixed lib dev desc text_of" "wl_usb_scan lib n u = (Inr found, u')" "i \<in> set found"
  shows "\<exists>d. describes lib desc text_of i d"
  using assms(2,3) scan_describes [OF assms(1), of n _ "[]"]
  by (fastforce simp: wl_usb_scan_def split: if_splits prod.splits sum.splits)

lemma wait_finds:
  assumes f: "devices_fixed lib dev desc text_of"
  shows "wait_for_mode_from lib mode f t u = (Inr i, u') \<Longrightarrow>
     ui_mode i = mode \<and> eligible f i \<and> (\<exists>d. describes lib desc text_of i d)"
proof (induction "WL_MODE_SWITCH_WAIT_MS - t" arbitrary: t u rule: less_induct)
  case less
  have step: "WL_MODE_SWITCH_WAIT_MS - (t + WL_MODE_SWITCH_POLL_MS) < WL_MODE_SWITCH_WAIT_MS - t"
    if "t < WL_MODE_SWITCH_WAIT_MS"
    using that by (simp add: WL_MODE_SWITCH_POLL_MS_def)
  from less.prems show ?case
    by (subst (asm) wait_for_mode_from.simps)
      (auto simp: eligible_def dest: usb_scan_describes [OF f] dest!: less.hyps [OF step] find_Some_set
        split: if_splits prod.splits sum.splits option.splits)
qed

lemma sorted_info:
  assumes "\<And>i. ca_info ca = Some i \<Longrightarrow> ui_mode i = WL_USB_MODE_RV \<and> eligible f i \<and> P i"
    and "\<forall>i \<in> set found. P i"
  shows "ca_info (sort_candidates f found ca) = Some i \<Longrightarrow> ui_mode i = WL_USB_MODE_RV \<and> eligible f i \<and> P i"
  using assms
proof (induction f found ca rule: sort_candidates.induct)
  case (2 f x fs ca)
  show ?case
    by (rule "2.IH") (use "2.prems" in \<open>auto simp: eligible_def split: if_splits wl_usb_mode.splits\<close>)
qed simp

lemma chosen_describes:
  assumes f: "devices_fixed lib dev desc text_of"
    and found: "\<forall>i \<in> set found. \<exists>d. describes lib desc text_of i d"
    and c: "choose_programmer lib t found v = (Inr i, v')"
  shows "ui_mode i = WL_USB_MODE_RV \<and> eligible t i \<and> (\<exists>d. describes lib desc text_of i d)"
  using c found sorted_info [of "\<lparr>ca_info = None, ca_arm = None, ca_iap = None, ca_usable = 0\<rparr>" t
      "\<lambda>i. \<exists>d. describes lib desc text_of i d" found i]
  by (auto simp: choose_programmer_def Let_def recover_def wait_for_mode_def dest: wait_finds [OF f]
      split: if_splits prod.splits option.splits)

lemma find_device_place:
  "find_device lib i ds = Some d \<Longrightarrow> lu_bus_number lib d = ui_bus i \<and> lu_device_address lib d = ui_address i"
  by (induction ds) (auto split: if_splits)

lemma opened_device:
  assumes f: "devices_fixed lib dev desc text_of" and d: "describes lib desc text_of i d"
    and o: "wl_usb_open lib i u = (Inr usb, u')"
  shows "\<exists>h. usb = \<lparr>ul_handle = Some h, ul_claimed = True\<rparr> \<and> dev h = d"
proof -
  obtain h u1 where h: "open_described lib i u = (Inr h, u1)" "usb = \<lparr>ul_handle = Some h, ul_claimed = True\<rparr>"
    using o by (auto simp: wl_usb_open_def split: prod.splits sum.splits if_splits)
  from h(1) obtain ds d' w w' where d': "find_device lib i ds = Some d'" "lu_open lib d' w = (Inr h, w')"
    by (auto simp: open_described_def split: prod.splits sum.splits if_splits option.splits)
  have "d' = d" using d find_device_place [OF d'(1)] by (auto simp: describes_def intro: device_laws(4) [OF f])
  moreover have "dev h = d'" using d'(2) by (rule device_laws(1) [OF f])
  ultimately show ?thesis using h(2) by blast
qed

text \<open>C36: over a libusb whose devices keep their descriptor, strings and place on the bus, a link
  that was opened holds a claimed handle of a device that is in RISC-V mode and, when a
  serial number was asked for, has exactly that one (up to the 63 characters that are read),
  also when it had to be switched from ARM or bootloader mode first; what the link records
  about its programmer describes that same device.\<close>

theorem open_uses_eligible_rv:
  assumes f: "devices_fixed lib dev desc text_of" and o: "wl_linke_open lib f u = (Inr l, u')"
  shows "\<exists>h. lk_ctx l = Some \<lparr>ul_handle = Some h, ul_claimed = True\<rparr> \<and> lk_open l \<and>
     lk_transport l = Some (wl_usb_transport lib) \<and>
     mode_of (desc (dev h)) = WL_USB_MODE_RV \<and>
     (\<forall>t. f = Some t \<and> t \<noteq> [] \<longrightarrow> serial_index (desc (dev h)) \<noteq> 0 \<and>
        t = take 63 (text_of (dev h) (serial_index (desc (dev h))))) \<and>
     describes lib desc text_of (lk_info l) (dev h) \<and>
     ui_accessible (lk_info l) \<and> serial_matches (lk_info l) f"
proof -
  obtain found u1 u2 usb where s: "wl_usb_scan lib WL_MAX_LINKS u = (Inr found, u1)"
    "choose_programmer lib f found u1 = (Inr (lk_info l), u2)" "wl_usb_open lib (lk_info l) u2 = (Inr usb, u')"
    "lk_ctx l = Some usb" "lk_open l" "lk_transport l = Some (wl_usb_transport lib)"
    using o by (auto simp: wl_linke_open_def split: prod.splits sum.splits if_splits)
  have c: "ui_mode (lk_info l) = WL_USB_MODE_RV" "eligible f (lk_info l)"
    "\<exists>d. describes lib desc text_of (lk_info l) d"
    using chosen_describes [OF f _ s(2)] usb_scan_describes [OF f s(1)] by auto
  then obtain d where d: "describes lib desc text_of (lk_info l) d" by blast
  from opened_device [OF f d s(3)] obtain h where h: "usb = \<lparr>ul_handle = Some h, ul_claimed = True\<rparr>" "dev h = d"
    by blast
  have "serial_index (desc d) \<noteq> 0 \<and> t = take 63 (text_of d (serial_index (desc d)))" if "f = Some t" "t \<noteq> []" for t
    using c(2) d that by (auto simp: eligible_def serial_matches_def describes_def)
  then show ?thesis
    using s(4-6) h c d by (intro exI [of _ h]) (auto simp: eligible_def describes_def)
qed

text \<open>Two programmers in RISC-V mode, of which the second has the serial number \<open>0002\<close>.\<close>

definition two_probes :: "(bool, bool, int) libusb" where
  "two_probes =
     \<lparr>lu_init = (\<lambda>w. (0, w)), lu_exit = (\<lambda>w. w), lu_get_device_list = (\<lambda>w. (Inr [False, True], w)),
      lu_get_descriptor = (\<lambda>d w. (Inr (0x1a86, 0x8010, 1, 0), w)), lu_bus_number = (\<lambda>d. 1),
      lu_device_address = (\<lambda>d. if d then 6 else 5), lu_open = (\<lambda>d w. (Inr d, w + 1)), lu_close = (\<lambda>h w. w - 1),
      lu_get_string = (\<lambda>h i n w. (Inr (take n (if h then ''0002'' else ''0001'')), w)),
      lu_detach_kernel = (\<lambda>h w. w), lu_claim = (\<lambda>h i w. (0, w)), lu_release = (\<lambda>h i w. w),
      lu_bulk_out = (\<lambda>h e bs t w. ((0, length bs), w)), lu_bulk_in = (\<lambda>h e n t w. ((0, [0x82, 0x0d]), w)),
      lu_error_name = (\<lambda>rc. ''LIBUSB_ERROR''), LIBUSB_ERROR_IO = -1, LIBUSB_ERROR_ACCESS = -3,
      LIBUSB_ERROR_NO_DEVICE = -4, LIBUSB_ERROR_OTHER = -99\<rparr>"

lemma two_probes_fixed:
  "devices_fixed two_probes (\<lambda>h. h) (\<lambda>d. (0x1a86, 0x8010, 1, 0)) (\<lambda>d i. if d then ''0002'' else ''0001'')"
  by (auto simp: devices_fixed_def two_probes_def split: if_splits)

lemma two_probes_open:
  "\<exists>l. wl_linke_open two_probes (Some ''0002'') \<lparr>us_context = True, us_world = 0\<rparr> =
     (Inr l, \<lparr>us_context = True, us_world = 1\<rparr>)"
  by (simp add: wl_linke_open_def wl_usb_scan_def probe_device_def read_string_def classify_def usb_ids
      WL_MAX_LINKS_def WL_USB_SERIAL_MAX_def choose_programmer_def serial_matches_def wl_usb_open_def
      open_described_def two_probes_def Let_def)

theorem open_uses_eligible_rv_witness:
  "\<exists>l u'. wl_linke_open two_probes (Some ''0002'') \<lparr>us_context = True, us_world = 0\<rparr> = (Inr l, u') \<and>
     lk_ctx l = Some \<lparr>ul_handle = Some True, ul_claimed = True\<rparr>"
proof -
  obtain l where l: "wl_linke_open two_probes (Some ''0002'') \<lparr>us_context = True, us_world = 0\<rparr> =
     (Inr l, \<lparr>us_context = True, us_world = 1\<rparr>)" using two_probes_open by blast
  obtain h where "lk_ctx l = Some \<lparr>ul_handle = Some h, ul_claimed = True\<rparr>"
    "''0002'' = take 63 (if h then ''0002'' else ''0001'')"
    using open_uses_eligible_rv [OF two_probes_fixed l] by auto
  then show ?thesis using l by (cases h) auto
qed

lemma sort_none: "\<forall>i \<in> set found. \<not> eligible f i \<Longrightarrow> sort_candidates f found ca = ca"
  by (induction f found ca rule: sort_candidates.induct) (auto simp: eligible_def)

lemma open_none:
  assumes "wl_usb_scan lib WL_MAX_LINKS u = (Inr found, u')" "found \<noteq> []" "\<forall>i \<in> set found. \<not> eligible f i"
  shows "wl_linke_open lib f u = (Inl WL_ERR_ACCESS, u')"
  using assms by (simp add: wl_linke_open_def choose_programmer_def sort_none)

text \<open>C37: finding a programmer fails with a USB error when the bus cannot be listed, with no
  device when it is empty, and with an access error when there are programmers but none can
  be used, a wrong serial number included; otherwise it names the first one that can be
  used. Opening a link fails with the same access error when none can be used.\<close>

theorem find_statuses:
  assumes "wl_usb_scan lib WL_MAX_LINKS u = (r, u')"
  shows "fst (wl_programmer_find lib f u) =
     (case r of
        Inl rc \<Rightarrow> Inl WL_ERR_USB
      | Inr [] \<Rightarrow> Inl WL_ERR_NO_DEVICE
      | Inr found \<Rightarrow>
          if \<forall>i \<in> set found. \<not> eligible f i then Inl WL_ERR_ACCESS
          else Inr (hd (filter (eligible f) found))) \<and>
     (\<forall>found. r = Inr found \<and> found \<noteq> [] \<and> (\<forall>i \<in> set found. \<not> eligible f i) \<longrightarrow>
        wl_linke_open lib f u = (Inl WL_ERR_ACCESS, u'))"
proof -
  have "(case find (eligible f) found of Some i \<Rightarrow> Inr i | None \<Rightarrow> Inl WL_ERR_ACCESS) =
      (if \<forall>i \<in> set found. \<not> eligible f i then Inl WL_ERR_ACCESS else Inr (hd (filter (eligible f) found)))" for found
    by (induction found) auto
  then show ?thesis using assms open_none [of lib u _ u' f]
    by (auto simp: wl_programmer_find_def split: sum.split list.split)
qed

theorem find_statuses_witness:
  "fst (wl_programmer_find one_probe (Some ''0002'') \<lparr>us_context = True, us_world = 0\<rparr>) = Inl WL_ERR_ACCESS \<and>
   fst (wl_linke_open one_probe (Some ''0002'') \<lparr>us_context = True, us_world = 0\<rparr>) = Inl WL_ERR_ACCESS"
  using find_statuses [OF one_probe_scan, of "Some ''0002''"]
  by (simp add: eligible_def serial_matches_def)

end
