(* ===== verification/GdbInv.thy ===== *)
theory GdbInv
  imports GdbPacket
begin

text \<open>
  The invariant of a debugging connection, over an arbitrary transport and an arbitrary peer: the
  breakpoint table keeps its shape, the link stays on the same programmer, and every packet but a
  continue is answered after finitely many steps.
\<close>

section \<open>The invariant\<close>

definition slot_ok :: "gdb_breakpoint \<Rightarrow> bool" where
  "slot_ok b \<longleftrightarrow> length (bp_original b) = 4 \<and>
     (bp_used b \<longrightarrow> (bp_kind b = 2 \<or> bp_kind b = 4) \<and> bp_address b mod bp_kind b = 0)"

definition conn_ok :: "('x, 'w) origin \<Rightarrow> wl_chip_t \<Rightarrow> ('x, 'w) gdb_conn \<Rightarrow> bool" where
  "conn_ok L chip c \<longleftrightarrow>
     same_link L (g_sess c) \<and> g_chip c = chip \<and> length (g_bps c) = GDB_MAX_BREAKPOINTS \<and>
     (\<forall>b \<in> set (g_bps c). slot_ok b)"

lemma conn_ok_io [simp]:
  "conn_ok L chip (c\<lparr>g_quit := q\<rparr>) = conn_ok L chip c"
  "conn_ok L chip (c\<lparr>g_in := i\<rparr>) = conn_ok L chip c"
  "conn_ok L chip (c\<lparr>g_sends := e\<rparr>) = conn_ok L chip c"
  "conn_ok L chip (c\<lparr>g_polls := p\<rparr>) = conn_ok L chip c"
  "conn_ok L chip (c\<lparr>g_out := t\<rparr>) = conn_ok L chip c"
  by (simp_all add: conn_ok_def)

section \<open>Calls on the link\<close>

definition tgt_error :: "wl_status \<Rightarrow> bool" where
  "tgt_error e \<longleftrightarrow> e \<in> {WL_ERR_USB, WL_ERR_TARGET, WL_ERR_USAGE, WL_ERR_NOT_IMPLEMENTED}"

lemma tgt_errors [simp]:
  "tgt_error WL_ERR_USB" "tgt_error WL_ERR_TARGET" "tgt_error WL_ERR_USAGE"
  "tgt_error WL_ERR_NOT_IMPLEMENTED"
  by (simp_all add: tgt_error_def)

lemma safe_on_link [safe_intro]:
  assumes "safe (same_link L) H m"
  shows "safe (conn_ok L chip) H (on_link m)"
  unfolding safe_def
proof (intro allI impI)
  fix c assume c: "conn_ok L chip c"
  then have "same_link L (g_sess c)" by (simp add: conn_ok_def)
  then obtain r s where "m (g_sess c) = Some (r, s)" "same_link L s" "\<And>e. r = Inl e \<Longrightarrow> H e"
    using assms by (elim safeE) auto
  with c show "\<exists>r c'. on_link m c = Some (r, c') \<and> conn_ok L chip c' \<and> (\<forall>e. r = Inl e \<longrightarrow> H e)"
    by (simp add: on_link_def conn_ok_def)
qed

lemma safe_on_link_any:
  "safe (same_link L) tgt_error m \<Longrightarrow> safe (conn_ok L chip) tgt_error (on_link m)"
  by (rule safe_on_link)

lemma safe_is_halted [safe_intro]: "safe (same_link L) H gdb_dm_is_halted"
proof -
  have "safe (same_link L) tgt_error (wl_linke_dmi_read WL_DMI_DMSTATUS)"
    by (intro safe_intro) simp_all
  then show ?thesis unfolding gdb_dm_is_halted_def
    by (rule safe_attempt) (auto intro: safe_intro)
qed

lemma safe_wait_halted [safe_intro]: "H WL_ERR_TARGET \<Longrightarrow> safe (same_link L) H (wait_halted n)"
  by (induction n) (auto intro!: safe_intro)

lemma safe_target_control [safe_intro]:
  assumes "H WL_ERR_USB" "H WL_ERR_TARGET"
  shows "safe (same_link L) H gdb_dm_halt" and "safe (same_link L) H gdb_dm_wait_halted"
    and "safe (same_link L) H gdb_dm_enable_ebreak" and "safe (same_link L) H gdb_resume"
    and "safe (same_link L) H gdb_step"
  using assms
  by (auto simp: gdb_dm_halt_def gdb_dm_wait_halted_def gdb_dm_enable_ebreak_def gdb_resume_def
      gdb_step_def intro!: safe_intro)

lemma safe_mem_patch [safe_intro]:
  assumes "chip_ok chip"
  shows "safe (same_link L) tgt_error (gdb_mem_patch chip a bs)"
proof -
  have f: "safe (same_link L) tgt_error (wl_flash_write (Some chip) x im p)" for x im p
    using assms by (intro safe_flash_write) simp_all
  show ?thesis unfolding gdb_mem_patch_def Let_def
    by (intro safe_if safe_andThen safe_read_block safe_memory safe_fail f) simp_all
qed

section \<open>The socket never fails a handler\<close>

lemma safe_send_packet [safe_intro]: "safe (conn_ok L chip) H (gdb_send_packet p)"
  unfolding gdb_send_packet_def by (rule safe_updates) (auto split: prod.splits)

lemma safe_send_text [safe_intro]: "safe (conn_ok L chip) H (gdb_send_text p)"
  unfolding gdb_send_text_def by (rule safe_send_packet)

lemma safe_recv_packet [safe_intro]: "safe (conn_ok L chip) H (gdb_recv_packet n)"
  by (auto simp: safe_def gdb_recv_packet_def split: prod.splits)

lemma safe_send_output [safe_intro]: "safe (conn_ok L chip) H (gdb_send_output t)"
proof -
  have "safe (conn_ok L chip) H (send_chunks t)" for t
  proof (induction t rule: send_chunks.induct)
    case (1 t)
    then show ?case by (subst send_chunks.simps) (auto simp: Let_def intro!: safe_intro)
  qed
  then show ?thesis by (simp add: gdb_send_output_def)
qed

text \<open>What a program reads from the state comes with the invariant of that state.\<close>

lemma safe_reads_then:
  assumes "\<And>s. I s \<Longrightarrow> safe I H (f (g s))"
  shows "safe I H (andThen (reads g) f)"
  using assms by (simp add: safe_def andThen_def)

text \<open>A call on the link whose status is looked at, whatever it is.\<close>

lemma safe_try:
  assumes "safe (same_link L) tgt_error m" "\<And>r. safe (conn_ok L chip) H (f r)"
  shows "safe (conn_ok L chip) H (attempt (on_link m) f)"
  using safe_on_link_any [OF assms(1)] assms(2) by (rule safe_attempt)

lemma safe_ignored:
  assumes "safe (same_link L) tgt_error m"
  shows "safe (conn_ok L chip) H (on_link (ignoring m))"
  unfolding ignoring_def using assms by (intro safe_on_link safe_attempt) (auto intro: safe_intro)

section \<open>Breakpoints\<close>

lemma first_slot_Some:
  "first_slot P bs = Some i \<Longrightarrow> i < length bs \<and> P (bs ! i) \<and> (\<forall>j < i. \<not> P (bs ! j))"
proof (induction bs arbitrary: i)
  case (Cons b bs)
  show ?case
  proof (cases "P b")
    case False
    then obtain j where "first_slot P bs = Some j" "i = Suc j" using Cons.prems by auto
    with Cons.IH [of j] False show ?thesis by (auto simp: less_Suc_eq_0_disj)
  qed (use Cons.prems in auto)
qed simp

lemma first_slot_None: "first_slot P bs = None \<longleftrightarrow> (\<forall>b \<in> set bs. \<not> P b)"
  by (induction bs) auto

lemma safe_set_slot:
  assumes "\<And>b. slot_ok b \<Longrightarrow> slot_ok (f b)"
  shows "safe (conn_ok L chip) H (set_slot i f)"
  unfolding set_slot_def
proof (rule safe_updates)
  fix c assume c: "conn_ok L chip c"
  show "conn_ok L chip (c\<lparr>g_bps := (g_bps c)[i := f (g_bps c ! i)]\<rparr>)"
  proof (cases "i < length (g_bps c)")
    case True
    then have "slot_ok (f (g_bps c ! i))" using c assms by (simp add: conn_ok_def)
    with c show ?thesis using set_update_subset_insert [of "g_bps c" i] by (auto simp: conn_ok_def)
  next
    case False
    then show ?thesis using c by (simp add: list_update_beyond)
  qed
qed

lemma mod_zero_slot:
  "slot_ok b \<Longrightarrow> (k = 2 \<or> k = 4) \<and> a mod k = 0 \<Longrightarrow>
     slot_ok (b\<lparr>bp_used := True, bp_address := a, bp_kind := k\<rparr>)"
  by (simp add: slot_ok_def)

lemma safe_insert [safe_intro]:
  assumes "chip_ok chip"
  shows "safe (conn_ok L chip) H (gdb_breakpoint_insert a k)"
proof (cases "(k \<noteq> 2 \<and> k \<noteq> 4) \<or> a mod k \<noteq> 0")
  case True
  then show ?thesis by (simp add: gdb_breakpoint_insert_def safe_ret)
next
  case False
  have used: "safe (conn_ok L chip) H (set_slot i (\<lambda>b. b\<lparr>bp_used := True, bp_address := a, bp_kind := k\<rparr>))" for i
    using False by (intro safe_set_slot mod_zero_slot) auto
  have orig: "safe (conn_ok L chip) H (set_slot i (\<lambda>b. b\<lparr>bp_original := write_at 0 d (bp_original b)\<rparr>))" for i d
    by (rule safe_set_slot) (simp add: slot_ok_def)
  show ?thesis
    using False unfolding gdb_breakpoint_insert_def if_not_P [OF False] gdb_mem_read_def
    by (intro safe_reads_then safe_case_prod safe_case_option safe_try safe_read_block safe_case_sum
        safe_andThen safe_ret orig used) (use assms in \<open>auto simp: conn_ok_def safe_mem_patch\<close>)
qed

lemma safe_remove [safe_intro]:
  assumes "chip_ok chip"
  shows "safe (conn_ok L chip) H (gdb_breakpoint_remove a k)"
proof -
  have free: "safe (conn_ok L chip) H (set_slot i (\<lambda>b. b\<lparr>bp_used := False\<rparr>))" for i
    by (rule safe_set_slot) (simp add: slot_ok_def)
  show ?thesis
    using assms unfolding gdb_breakpoint_remove_def
    by (intro safe_reads_then safe_case_prod safe_case_option safe_try safe_case_sum
        safe_andThen safe_ret free) (auto simp: conn_ok_def safe_mem_patch)
qed

lemma safe_clear [safe_intro]:
  assumes "chip_ok chip"
  shows "safe (conn_ok L chip) H gdb_breakpoints_clear"
proof -
  have free: "safe (conn_ok L chip) H (set_slot i (\<lambda>b. b\<lparr>bp_used := False\<rparr>))" for i
    by (rule safe_set_slot) (simp add: slot_ok_def)
  have read: "safe (conn_ok L chip) H (clear_slot i)" for i
    using assms unfolding clear_slot_def ignoring_def
    by (intro safe_reads_then safe_case_prod safe_if safe_andThen safe_try safe_ret free)
      (auto simp: conn_ok_def safe_mem_patch)
  have "safe (conn_ok L chip) H (clear_slots is)" for "is"
    by (induction "is") (simp_all add: safe_ret safe_andThen read del: ret_apply)
  then show ?thesis by (simp add: gdb_breakpoints_clear_def)
qed

section \<open>Handlers\<close>

lemma safe_monitor [safe_intro]:
  "safe (conn_ok L chip) H gdb_monitor_help" "safe (conn_ok L chip) H gdb_monitor_regs"
  "safe (conn_ok L chip) H gdb_monitor_info" "safe (conn_ok L chip) H monitor_reset"
  "safe (conn_ok L chip) H monitor_halt"
proof -
  have v: "safe (conn_ok L chip) H (show_value t m)" if "safe (same_link L) tgt_error m" for t m
    unfolding show_value_def using that by (intro safe_try safe_case_sum safe_ret safe_send_output)
  have g: "safe (conn_ok L chip) H (monitor_gprs rs m)" if "safe (conn_ok L chip) H m" for rs m
    using that by (induction rs)
      (auto intro!: safe_try safe_gpr_read safe_case_sum safe_andThen safe_send_output)
  show "safe (conn_ok L chip) H gdb_monitor_help" by (simp add: gdb_monitor_help_def safe_send_output)
  show "safe (conn_ok L chip) H gdb_monitor_regs" unfolding gdb_monitor_regs_def
    by (intro g safe_try safe_pc safe_case_sum safe_ret safe_send_output) simp_all
  show "safe (conn_ok L chip) H gdb_monitor_info" unfolding gdb_monitor_info_def
    by (intro safe_andThen v safe_dmi_read safe_csr safe_pc) simp_all
  show "safe (conn_ok L chip) H monitor_reset" unfolding monitor_reset_def
    by (intro safe_andThen safe_ignored safe_dmi_write safe_target_control safe_send_output) simp_all
  show "safe (conn_ok L chip) H monitor_halt" unfolding monitor_halt_def
    by (intro safe_andThen safe_ignored safe_target_control safe_send_output) simp_all
qed

lemma safe_monitor_command [safe_intro]: "safe (conn_ok L chip) H (gdb_monitor_command t)"
proof -
  have get: "safe (conn_ok L chip) H (monitor_get x y acc l)"
    if "\<And>n. safe (same_link L) tgt_error (acc n)" for x y acc l
    unfolding monitor_get_def using that
    by (intro safe_case_option safe_try safe_case_sum safe_send_output)
  have set: "safe (conn_ok L chip) H (monitor_set x y z acc)"
    if "\<And>n v. safe (same_link L) tgt_error (acc n v)" for x y z acc
    unfolding monitor_set_def using that
    by (intro safe_case_prod safe_case_option safe_try safe_case_sum safe_send_output)
  show ?thesis
    unfolding gdb_monitor_command_def Let_def
    by (intro safe_if safe_monitor safe_andThen safe_ignored safe_target_control safe_send_output get set
        safe_memory safe_csr) simp_all
qed

lemma safe_stop [safe_intro]: "safe (conn_ok L chip) H (gdb_send_stop n)"
  unfolding gdb_send_stop_def by (rule safe_send_text)

lemma safe_handlers [safe_intro]:
  "safe (conn_ok L chip) H gdb_handle_g" "safe (conn_ok L chip) H (gdb_handle_p t)"
  "safe (conn_ok L chip) H (gdb_handle_m t)" "safe (conn_ok L chip) H (gdb_handle_M t)"
  "safe (conn_ok L chip) H (gdb_handle_query t)" "safe (conn_ok L chip) H step_target"
proof -
  have gs: "safe (same_link L) tgt_error (read_gprs rs)" for rs
    by (induction rs) (auto intro!: safe_andThen safe_gpr_read safe_ret simp del: ret_apply)
  have ws: "safe (same_link L) tgt_error (write_bytes x bs)" for x bs
    by (induction x bs rule: write_bytes.induct)
      (auto intro!: safe_andThen safe_memory safe_ret simp del: ret_apply)
  show "safe (conn_ok L chip) H gdb_handle_g" unfolding gdb_handle_g_def
    by (intro safe_try safe_andThen gs safe_pc safe_ret safe_case_sum safe_send_text safe_send_packet) simp_all
  show "safe (conn_ok L chip) H (gdb_handle_p t)" unfolding gdb_handle_p_def
    by (intro safe_case_option safe_if safe_try safe_pc safe_gpr_read safe_gpr_write safe_case_sum
        safe_send_text) simp_all
  show "safe (conn_ok L chip) H (gdb_handle_m t)" unfolding gdb_handle_m_def
    by (intro safe_case_option safe_case_prod safe_if safe_try safe_read_block safe_case_sum
        safe_send_text safe_send_packet) simp_all
  show "safe (conn_ok L chip) H (gdb_handle_M t)" unfolding gdb_handle_M_def
    by (intro safe_case_option safe_case_prod safe_if safe_try ws safe_case_sum safe_send_text)
  show "safe (conn_ok L chip) H step_target" unfolding step_target_def
    by (intro safe_try safe_target_control safe_case_sum safe_send_text safe_stop) simp_all
  have "safe (conn_ok L chip) H (gdb_handle_qRcmd t)" unfolding gdb_handle_qRcmd_def
    by (intro safe_case_option safe_andThen safe_monitor_command safe_send_text)
  moreover have "safe (conn_ok L chip) H (gdb_handle_qxfer t)"
    unfolding gdb_handle_qxfer_def gdb_qxfer_reply_def
    by (intro safe_case_option safe_case_prod safe_if safe_andThen safe_reads safe_send_text safe_send_packet)
  ultimately show "safe (conn_ok L chip) H (gdb_handle_query t)" unfolding gdb_handle_query_def Let_def
    by (intro safe_if safe_send_text)
qed

lemma safe_breakpoint_packet [safe_intro]:
  "chip_ok chip \<Longrightarrow> safe (conn_ok L chip) H (breakpoint_packet t)"
  unfolding breakpoint_packet_def
  by (intro safe_if safe_case_option safe_case_prod safe_andThen safe_insert safe_remove safe_send_text)

section \<open>Waiting for the target\<close>

lemma keeps_poll: "keeps (conn_ok L chip) poll_socket"
  by (rule keepsI) (auto simp: poll_socket_def Let_def split: if_splits prod.splits)

lemma keeps_branch:
  "(b \<Longrightarrow> keeps I m) \<Longrightarrow> (\<not> b \<Longrightarrow> keeps I n) \<Longrightarrow> keeps I (\<lambda>s. if b then m s else n s)"
  by (cases b) simp_all

lemma keeps_waiting:
  assumes poll: "keeps I poll_socket"
    and stop: "safe I (\<lambda>_. True) (andDo (on_link (ignoring gdb_dm_halt))
      (andDo (on_link (ignoring gdb_dm_wait_halted)) (gdb_send_stop 2)))"
    and halted: "safe I (\<lambda>_. True) (on_link gdb_dm_is_halted)" and send: "safe I (\<lambda>_. True) (gdb_send_stop 5)"
  shows "keeps I gdb_wait_for_stop"
proof -
  have "I c \<longrightarrow> I (snd y)" if "gdb_wait_for_stop c = Some y" for c y
  proof (rule gdb_wait_for_stop.raw_induct [OF _ that, where P = "\<lambda>c y. I c \<longrightarrow> I (snd y)"])
    fix f c y
    assume IH: "\<And>x y. f x = Some y \<Longrightarrow> I x \<longrightarrow> I (snd y)"
      and run: "andThen poll_socket (\<lambda>b c1.
          if b = Some (CHR 0x03) then
            andDo (on_link (ignoring gdb_dm_halt))
              (andDo (on_link (ignoring gdb_dm_wait_halted)) (gdb_send_stop 2)) c1
          else andThen (on_link gdb_dm_is_halted)
                (\<lambda>halted c2. if halted then gdb_send_stop 5 c2 else f c2) c1) c = Some y"
    have f: "keeps I f" using IH by (intro keepsI) fastforce
    have "keeps I (andThen poll_socket (\<lambda>b c1.
          if b = Some (CHR 0x03) then
            andDo (on_link (ignoring gdb_dm_halt))
              (andDo (on_link (ignoring gdb_dm_wait_halted)) (gdb_send_stop 2)) c1
          else andThen (on_link gdb_dm_is_halted)
                (\<lambda>halted c2. if halted then gdb_send_stop 5 c2 else f c2) c1))"
      by (intro keeps_andThen keeps_branch poll safe_keeps [OF stop] safe_keeps [OF send]
          safe_keeps [OF halted] f)
    from keepsD [OF this, of c "fst y" "snd y"] run show "I c \<longrightarrow> I (snd y)" by simp
  qed
  then show ?thesis by (intro keepsI) fastforce
qed

lemma keeps_wait_for_stop: "keeps (conn_ok L chip) gdb_wait_for_stop"
  by (intro keeps_waiting keeps_poll safe_andThen safe_ignored safe_target_control safe_stop
      safe_on_link safe_is_halted) simp_all

section \<open>Every packet\<close>

text \<open>The packets after which the server waits for the target.\<close>

definition continues :: "string \<Rightarrow> bool" where
  "continues payload \<longleftrightarrow>
     payload ! 0 = CHR ''c'' \<or>
     (payload ! 0 = CHR ''v'' \<and> take 6 (cstr payload) = ''vCont;'' \<and>
       payload ! 6 \<noteq> CHR ''s'' \<and> payload ! 6 \<noteq> CHR ''S'')"

lemma safe_packet:
  assumes "chip_ok chip" "\<not> continues payload"
  shows "safe (conn_ok L chip) H (gdb_handle_packet payload)"
proof -
  have quit: "safe (conn_ok L chip) H (updates (\<lambda>c. c\<lparr>g_quit := True\<rparr>))"
    by (rule safe_updates) simp
  have c: "payload ! 0 \<noteq> CHR ''c''"
    and v: "payload ! 0 = CHR ''v'' \<Longrightarrow> take 6 (cstr payload) = ''vCont;'' \<Longrightarrow>
      payload ! 6 = CHR ''s'' \<or> payload ! 6 = CHR ''S''"
    using assms(2) by (auto simp: continues_def)
  have cont: "safe (conn_ok L chip) H continue_target"
    if "payload ! 0 = CHR ''c'' \<or> (payload ! 0 = CHR ''v'' \<and> take 6 (cstr payload) = ''vCont;'' \<and>
      \<not> (payload ! 6 = CHR ''s'' \<or> payload ! 6 = CHR ''S''))"
    using that c v by blast
  show ?thesis
    unfolding gdb_handle_packet_def Let_def
    by (intro safe_if safe_andThen safe_ret safe_stop safe_handlers safe_breakpoint_packet safe_clear
        safe_ignored safe_target_control safe_send_text quit cont assms(1)) simp_all
qed

lemma keeps_continue: "keeps (conn_ok L chip) continue_target"
proof -
  have e: "safe (conn_ok L chip) (\<lambda>_. True) (gdb_send_text ''E01'')" by (rule safe_send_text)
  have r: "safe (conn_ok L chip) tgt_error (on_link gdb_resume)"
    by (intro safe_on_link safe_target_control) simp_all
  have "keeps (conn_ok L chip) (case r of Inl e \<Rightarrow> gdb_send_text ''E01'' | Inr u \<Rightarrow> gdb_wait_for_stop)" for r :: "wl_status + unit"
    by (cases r) (simp_all add: safe_keeps [OF e] keeps_wait_for_stop)
  then show ?thesis
    unfolding continue_target_def by (rule keeps_attempt [OF safe_keeps [OF r]])
qed

lemma keeps_packet:
  assumes "chip_ok chip"
  shows "keeps (conn_ok L chip) (gdb_handle_packet payload)"
proof (cases "continues payload")
  case False
  then have "safe (conn_ok L chip) (\<lambda>_. True) (gdb_handle_packet payload)"
    by (rule safe_packet [OF assms])
  then show ?thesis by (rule safe_keeps)
next
  case True
  then have eq: "gdb_handle_packet payload = andDo continue_target (ret True)"
    by (auto simp: continues_def gdb_handle_packet_def Let_def cstr_def)
  have "keeps (conn_ok L chip) (ret True)" by (simp add: keeps_def)
  then show ?thesis unfolding eq by (rule keeps_andThen [OF keeps_continue])
qed

section \<open>Clearing the table\<close>

lemma clear_slot_ok:
  assumes "chip_ok chip" "conn_ok L chip c"
  shows "\<exists>c'. clear_slot i c = Some (Inr (), c') \<and>
     conn_ok L chip c' \<and> g_bps c' = (g_bps c)[i := (g_bps c ! i)\<lparr>bp_used := False\<rparr>] \<and> g_quit c' = g_quit c"
proof (cases "bp_used (g_bps c ! i)")
  case False
  then have "(g_bps c ! i)\<lparr>bp_used := False\<rparr> = g_bps c ! i" by (cases "g_bps c ! i") simp
  then have "g_bps c = (g_bps c)[i := (g_bps c ! i)\<lparr>bp_used := False\<rparr>]" by (metis list_update_id)
  with False assms show ?thesis by (intro exI [of _ c]) (simp only: clear_slot_def andThen_def reads_apply, simp)
next
  case True
  let ?b = "g_bps c ! i"
  let ?m = "gdb_mem_patch chip (bp_address ?b) (take (unat (bp_kind ?b)) (bp_original ?b))"
  have chip: "g_chip c = chip" and l: "same_link L (g_sess c)" using assms(2) by (simp_all add: conn_ok_def)
  from safe_mem_patch [OF assms(1)] l obtain r s where rs: "?m (g_sess c) = Some (r, s)" "same_link L s"
    by (rule safeE)
  let ?c = "c\<lparr>g_sess := s\<rparr>"
  have c: "conn_ok L chip ?c" using assms(2) rs(2) by (simp add: conn_ok_def)
  let ?c' = "?c\<lparr>g_bps := (g_bps c)[i := ?b\<lparr>bp_used := False\<rparr>]\<rparr>"
  have slot: "set_slot i (\<lambda>b. b\<lparr>bp_used := False\<rparr>) ?c = Some (Inr (), ?c')" by (simp add: set_slot_def)
  have "safe (conn_ok L chip) (\<lambda>_. True) (set_slot i (\<lambda>b. b\<lparr>bp_used := False\<rparr>))"
    by (rule safe_set_slot) (simp add: slot_ok_def)
  from keepsD [OF safe_keeps [OF this] slot c] have "conn_ok L chip ?c'" .
  moreover have "on_link ?m c = Some (r, ?c)" using rs(1) by (simp add: on_link_def)
  ultimately show ?thesis using True slot chip
    by (intro exI [of _ ?c']) (simp add: clear_slot_def andThen_def ignoring_def attempt_def)
qed

lemma clear_frees:
  assumes "chip_ok chip" "conn_ok L chip c"
  shows "\<exists>c'. gdb_breakpoints_clear c = Some (Inr (), c') \<and> conn_ok L chip c' \<and>
     (\<forall>b \<in> set (g_bps c'). \<not> bp_used b)"
proof -
  have "\<exists>c'. clear_slots [j..<length (g_bps c)] c = Some (Inr (), c') \<and> conn_ok L chip c' \<and>
      length (g_bps c') = length (g_bps c) \<and> (\<forall>i < length (g_bps c). \<not> bp_used (g_bps c' ! i))"
    if "conn_ok L chip c" "\<forall>i < j. i < length (g_bps c) \<longrightarrow> \<not> bp_used (g_bps c ! i)" for j c
    using that
  proof (induction "length (g_bps c) - j" arbitrary: j c)
    case 0
    then show ?case by (intro exI [of _ c]) simp
  next
    case (Suc n)
    then have j: "j < length (g_bps c)" by simp
    obtain c1 where c1: "clear_slot j c = Some (Inr (), c1)"
      "conn_ok L chip c1" "g_bps c1 = (g_bps c)[j := (g_bps c ! j)\<lparr>bp_used := False\<rparr>]"
      using clear_slot_ok [OF assms(1) Suc.prems(1), of j] by blast
    have "\<forall>i < Suc j. i < length (g_bps c1) \<longrightarrow> \<not> bp_used (g_bps c1 ! i)"
      using Suc.prems(2) c1(3) j by (auto simp: less_Suc_eq nth_list_update)
    moreover have "length (g_bps c1) = length (g_bps c)" "n = length (g_bps c1) - Suc j"
      using Suc.hyps(2) c1(3) by simp_all
    ultimately obtain c2 where c2: "clear_slots [Suc j..<length (g_bps c)] c1 = Some (Inr (), c2)" "conn_ok L chip c2"
      "length (g_bps c2) = length (g_bps c)" "\<forall>i < length (g_bps c). \<not> bp_used (g_bps c2 ! i)"
      using Suc.hyps(1) [of c1 "Suc j"] c1(2) by metis
    have "clear_slots [j..<length (g_bps c)] c = clear_slots [Suc j..<length (g_bps c)] c1"
      using j c1(1) by (simp only: upt_conv_Cons clear_slots.simps andThen_done [where m = "clear_slot j", OF c1(1)])
    with c2 show ?case by simp
  qed
  from this [OF assms(2), of 0] obtain c' where
    "clear_slots [0..<length (g_bps c)] c = Some (Inr (), c')" "conn_ok L chip c'"
    "length (g_bps c') = length (g_bps c)" "\<forall>i < length (g_bps c). \<not> bp_used (g_bps c' ! i)"
    by auto
  moreover have "length (g_bps c) = GDB_MAX_BREAKPOINTS" using assms(2) by (simp add: conn_ok_def)
  ultimately show ?thesis
    by (auto simp: gdb_breakpoints_clear_def in_set_conv_nth)
qed

lemma detach_frees:
  assumes "chip_ok chip" "conn_ok L chip c" "payload ! 0 = CHR ''D'' \<or> payload ! 0 = CHR ''k''"
  shows "\<exists>c'. gdb_handle_packet payload c = Some (Inr False, c') \<and> g_quit c' \<and>
     (\<forall>b \<in> set (g_bps c'). \<not> bp_used b)"
proof -
  obtain c1 where c1: "gdb_breakpoints_clear c = Some (Inr (), c1)" "conn_ok L chip c1"
    "\<forall>b \<in> set (g_bps c1). \<not> bp_used b"
    using clear_frees [OF assms(1,2)] by blast
  obtain s where s: "ignoring gdb_resume (g_sess c1) = Some (Inr (), s)"
  proof -
    have "safe (same_link L) tgt_error gdb_resume" by (intro safe_target_control) simp_all
    moreover have "same_link L (g_sess c1)" using c1(2) by (simp add: conn_ok_def)
    ultimately obtain r s where "gdb_resume (g_sess c1) = Some (r, s)" by (rule safeE)
    then show ?thesis using that by (simp add: ignoring_def attempt_def)
  qed
  obtain c2 where c2: "gdb_send_text ''OK'' (c1\<lparr>g_sess := s\<rparr>) = Some (Inr (), c2)" "g_bps c2 = g_bps c1"
    by (auto simp: gdb_send_text_def gdb_send_packet_def split: prod.splits)
  show ?thesis
    using assms(3) c1 s c2
    by (auto simp: gdb_handle_packet_def Let_def andThen_def on_link_def)
qed

section \<open>Properties of every connection\<close>

text \<open>C25: whatever packet the debugger sends and whatever the target and the socket do, handling
  it keeps the connection well formed: the same link and part, exactly eight breakpoint
  slots, and every slot in use describing an aligned two- or four-byte breakpoint whose
  saved bytes fit it.\<close>

theorem packet_keeps_connection:
  assumes "chip \<in> set chips" "conn_ok L chip c" "gdb_handle_packet payload c = Some (r, c')"
  shows "conn_ok L chip c'"
  using keepsD [OF keeps_packet [OF chip_okD [OF assms(1)]] assms(3,2)] .

text \<open>A connection over a programmer that never answers, for the first part of the table.\<close>

definition dead_conn :: "(unit, unit) gdb_conn" where
  "dead_conn =
     \<lparr>g_sess = \<lparr>link = wl_linke_attach_transport dead_transport None, world = (), calls = []\<rparr>,
      g_chip = hd chips, g_quit = False, g_bps = replicate GDB_MAX_BREAKPOINTS no_breakpoint,
      g_in = [], g_sends = [], g_polls = [], g_out = []\<rparr>"

lemma dead_conn_ok: "conn_ok (wl_linke_attach_transport dead_transport None, ()) (hd chips) dead_conn"
  by (simp add: conn_ok_def dead_conn_def same_link_def slot_ok_def no_breakpoint_def)

lemma first_chip: "hd chips \<in> set chips"
  by (simp add: chips_def chip_table)

theorem packet_keeps_connection_witness:
  "\<exists>c'. gdb_handle_packet (''k'' @ [CHR 0x00]) dead_conn = Some (Inr False, c') \<and>
     conn_ok (wl_linke_attach_transport dead_transport None, ()) (hd chips) c'"
proof -
  obtain c' where "gdb_handle_packet (''k'' @ [CHR 0x00]) dead_conn = Some (Inr False, c')"
    using detach_frees [OF chip_okD [OF first_chip] dead_conn_ok, of "''k'' @ [CHR 0x00]"] by auto
  with packet_keeps_connection [OF first_chip dead_conn_ok this] show ?thesis by blast
qed

text \<open>C26: every packet other than the continue ones is handled in finitely many steps, without a
  fault, for any target and any contents of the packet buffer, for a peer that sends
  finitely many more bytes, with any interruptions among them, before its connection is
  closed or fails. Without that bound the wait for an acknowledgement need not end:
  GdbAck.ack_loop_ends.\<close>

theorem packet_answered:
  assumes "chip \<in> set chips" "conn_ok L chip c" "\<not> continues payload"
  shows "\<exists>more c'. gdb_handle_packet payload c = Some (Inr more, c')"
proof -
  have "safe (conn_ok L chip) (\<lambda>_. False) (gdb_handle_packet payload)"
    by (rule safe_packet [OF chip_okD [OF assms(1)] assms(3)])
  from safeE [OF this assms(2)] show ?thesis by (metis sum.exhaust)
qed

theorem packet_answered_witness:
  "\<exists>more c'. gdb_handle_packet (''Z0,8000000,2'' @ [CHR 0x00]) dead_conn = Some (Inr more, c')"
  by (rule packet_answered [OF first_chip dead_conn_ok]) (simp add: continues_def)

theorem detach_frees_table:
  assumes "chip \<in> set chips" "conn_ok L chip c" "payload ! 0 = CHR ''D'' \<or> payload ! 0 = CHR ''k''"
  shows "\<exists>c'. gdb_handle_packet payload c = Some (Inr False, c') \<and> g_quit c' \<and>
     (\<forall>b \<in> set (g_bps c'). \<not> bp_used b)"
  using detach_frees [OF chip_okD [OF assms(1)] assms(2,3)] .

theorem detach_frees_table_witness:
  "\<exists>c'. gdb_handle_packet (''D'' @ [CHR 0x00]) dead_conn = Some (Inr False, c') \<and> g_quit c'"
  using detach_frees_table [OF first_chip dead_conn_ok, of "''D'' @ [CHR 0x00]"] by auto

section \<open>Numbers in monitor commands\<close>

text \<open>C34: the arguments of monitor commands are plain hexadecimal: every number in digits is read
  as it is written, and one that starts with 0x is read as 0, so that the documented write32
  0x20000000 0x12345678 writes 0 to address 0.\<close>

theorem monitor_numbers:
  "number (pad_left (CHR ''0'') k (hex_str n)) = Some (of_nat n) \<and>
   number (''0x'' @ t) = Some 0 \<and>
   gdb_monitor_command ''write32 0x20000000 0x12345678'' =
     attempt (on_link (wl_dm_write32 0 0)) (\<lambda>r. case r of
         Inl e \<Rightarrow> gdb_send_output (line ''write32 failed'')
       | Inr _ \<Rightarrow> gdb_send_output (line ''OK''))"
proof -
  have "hex_nibble (CHR ''x'') = None" by (simp add: hex_nibble_def)
  moreover have "hex_nibble (CHR ''0'') = Some 0" by (simp add: hex_nibble_def)
  ultimately have x: "number (''0x'' @ t) = Some 0" for t
    by (simp add: number_def parse_hex_u32_def)
  have w0: "strtok (cstr ''write32 0x20000000 0x12345678'') = Some (''write32'', ''0x20000000 0x12345678'')"
    by code_simp
  have w1: "strtok ''0x20000000 0x12345678'' = Some (''0x20000000'', ''0x12345678'')" by code_simp
  have w2: "strtok ''0x12345678'' = Some (''0x12345678'', [])" by code_simp
  have "gdb_monitor_command ''write32 0x20000000 0x12345678'' =
      monitor_set ''write32'' ''0x20000000'' ''0x12345678'' wl_dm_write32"
    unfolding gdb_monitor_command_def next_word_def w0 option.case prod.case w1 w2 by (simp add: Let_def w1 w2)
  also have "\<dots> = attempt (on_link (wl_dm_write32 0 0)) (\<lambda>r. case r of
         Inl e \<Rightarrow> gdb_send_output (line ''write32 failed'')
       | Inr _ \<Rightarrow> gdb_send_output (line ''OK''))"
    using x [of "''20000000''"] x [of "''12345678''"] by (simp add: monitor_set_def)
  finally show ?thesis
    using x [of t] parse_hex_number [of "[]" k n] by (simp add: number_def)
qed

end
