(* ===== verification/CliHandles.thy ===== *)
theory CliHandles
  imports CliMain UsbProps GdbInv
begin

text \<open>
  No command of the tool leaks a USB handle: whatever the command line, the programmer, the target
  and the debugger do, if \<^verbatim>\<open>main\<close> returns, exactly the handles are open that were open before.
\<close>

section \<open>Rules\<close>

named_theorems keeps_intro "rules that reduce an invariant of a program to its parts"

lemma keeps_trivial [keeps_intro]: "keeps I (ret x)" "keeps I (fail e)" "keeps I (reads f)"
  by (simp_all add: keeps_def)

lemma keeps_updates [keeps_intro]: "(\<And>s. I s \<Longrightarrow> I (f s)) \<Longrightarrow> keeps I (updates f)"
  by (simp add: keeps_def)

declare keeps_andThen [keeps_intro] keeps_attempt [keeps_intro] keeps_if [keeps_intro]

lemma keeps_ignoring [keeps_intro]: "keeps I m \<Longrightarrow> keeps I (ignoring m)"
  unfolding ignoring_def by (rule keeps_attempt [OF _ keeps_trivial(1)])

lemma keeps_result: "keeps I (\<lambda>s. Some (r, s))"
  by (simp add: keeps_def)

lemma keeps_cleanup: "keeps I m \<Longrightarrow> keeps I c \<Longrightarrow> keeps I (cleanup m c)"
  unfolding cleanup_def by (rule keeps_attempt, assumption, rule keeps_attempt, assumption, rule keeps_result)

lemma keeps_cases [keeps_intro]:
  "(\<And>y. x = None \<Longrightarrow> keeps I m) \<Longrightarrow> (\<And>y. x = Some y \<Longrightarrow> keeps I (f y)) \<Longrightarrow>
     keeps I (case x of None \<Rightarrow> m | Some y \<Rightarrow> f y)"
  "(\<And>a. z = Inl a \<Longrightarrow> keeps I (g a)) \<Longrightarrow> (\<And>b. z = Inr b \<Longrightarrow> keeps I (k b)) \<Longrightarrow>
     keeps I (case z of Inl a \<Rightarrow> g a | Inr b \<Rightarrow> k b)"
  "(\<And>a b. p = (a, b) \<Longrightarrow> keeps I (q a b)) \<Longrightarrow> keeps I (case p of (a, b) \<Rightarrow> q a b)"
  by (auto split: option.split sum.split prod.split)

lemma keeps_let [keeps_intro]: "(\<And>x. x = v \<Longrightarrow> keeps I (f x)) \<Longrightarrow> keeps I (let x = v in f x)"
  by simp

text \<open>\<open>yields m R\<close>: a result of the program satisfies \<open>R\<close>.\<close>

definition yields :: "('s, 'e, 'a) prog \<Rightarrow> ('a \<Rightarrow> bool) \<Rightarrow> bool" where
  "yields m R \<longleftrightarrow> (\<forall>s x s'. m s = Some (Inr x, s') \<longrightarrow> R x)"

lemma yields_andThen: "(\<And>x. yields (f x) R) \<Longrightarrow> yields (andThen m f) R"
  unfolding yields_def andThen_def by (fastforce split: option.splits sum.splits)

lemma yields_attempt:
  assumes m: "yields m R" and "\<And>e. yields (f (Inl e)) Q" and "\<And>x. R x \<Longrightarrow> yields (f (Inr x)) Q"
  shows "yields (attempt m f) Q"
  unfolding yields_def
proof (intro allI impI)
  fix s x s' assume run: "attempt m f s = Some (Inr x, s')"
  obtain r t where 1: "m s = Some (r, t)" "f r t = Some (Inr x, s')"
    using run by (auto simp: attempt_def split: option.splits)
  show "Q x"
  proof (cases r)
    case (Inl e)
    with 1(2) assms(2) show ?thesis unfolding yields_def by blast
  next
    case (Inr y)
    with 1 m have "R y" unfolding yields_def by blast
    with 1(2) Inr assms(3) show ?thesis unfolding yields_def by blast
  qed
qed

lemma yields_ret: "R x \<Longrightarrow> yields (ret x) R"
  by (simp add: yields_def)

lemma yields_fail: "yields (fail e) R"
  by (simp add: yields_def)

lemma yields_then: "yields m R \<Longrightarrow> (\<And>x. R x \<Longrightarrow> yields (f x) Q) \<Longrightarrow> yields (andThen m f) Q"
  unfolding yields_def andThen_def by (fastforce split: option.splits sum.splits)

lemma keeps_yields:
  assumes m: "keeps I m" "yields m R" and f: "\<And>x. R x \<Longrightarrow> keeps I (f x)"
  shows "keeps I (andThen m f)"
proof (rule keepsI)
  fix s r s' assume I: "I s" and run: "andThen m f s = Some (r, s')"
  obtain r1 s1 where 1: "m s = Some (r1, s1)" using run by (auto simp: andThen_def split: option.splits)
  have I1: "I s1" by (rule keepsD [OF m(1) 1 I])
  show "I s'"
  proof (cases r1)
    case (Inl e)
    with run 1 I1 show ?thesis by (simp add: andThen_def)
  next
    case (Inr x)
    with 1 m(2) have "R x" by (auto simp: yields_def)
    from keepsD [OF f [OF this] _ I1] run 1 Inr show ?thesis by (simp add: andThen_def)
  qed
qed

section \<open>Parts come from the table\<close>

lemma by_name_row: "wl_chip_by_name q = Some c \<Longrightarrow> c \<in> set chips"
  using wl_chip_by_name_iff [of "the q" c] by (cases q) (simp_all add: wl_chip_by_name_def)

lemma detect_row: "wl_chip_by_detect_id f m = Some c \<Longrightarrow> c \<in> set chips"
  unfolding wl_chip_by_detect_id_def using find_detect_id_Some [OF chips_ids_distinct] by simp

lemma identify_row: "yields (wl_linke_identify_chip :: ('x, 'w, _) lprog) (\<lambda>c. c \<in> set chips)"
proof -
  have once: "yields (identify_chip_once :: ('x, 'w, _) lprog) (\<lambda>c. c \<in> set chips)"
    unfolding identify_chip_once_def Let_def
    by (intro yields_andThen) (auto simp: yields_def dest: detect_row split: if_splits option.splits)
  show ?thesis
    unfolding wl_linke_identify_chip_def
    by (rule yields_attempt [OF once]) (auto intro!: yields_ret yields_andThen once)
qed

section \<open>A server session\<close>

lemma keeps_serve:
  assumes "chip_ok chip"
  shows "keeps (conn_ok L chip) (serve buf)"
proof -
  have "conn_ok L chip c \<longrightarrow> conn_ok L chip (snd y)" if "serve buf c = Some y" for c y
  proof (rule serve.raw_induct [OF _ that, where P = "\<lambda>b c y. conn_ok L chip c \<longrightarrow> conn_ok L chip (snd y)"])
    fix f buf c y
    assume IH: "\<And>b c y. f b c = Some y \<Longrightarrow> conn_ok L chip c \<longrightarrow> conn_ok L chip (snd y)"
      and run: "(if g_quit c then Some (Inr (), c)
        else andThen (gdb_recv_packet GDB_PACKET_MAX) (\<lambda>received c1.
          case received of None \<Rightarrow> Some (Inr (), c1)
          | Some payload \<Rightarrow>
              andThen (gdb_handle_packet (write_at 0 (payload @ [CHR 0x00]) buf))
                (\<lambda>_. f (write_at 0 (payload @ [CHR 0x00]) buf)) c1) c) = Some y"
    have f: "keeps (conn_ok L chip) (f b)" for b
      using IH by (intro keepsI) fastforce
    have "keeps (conn_ok L chip) (\<lambda>c1. case received of None \<Rightarrow> Some (Inr (), c1)
          | Some payload \<Rightarrow>
              andThen (gdb_handle_packet (write_at 0 (payload @ [CHR 0x00]) buf))
                (\<lambda>_. f (write_at 0 (payload @ [CHR 0x00]) buf)) c1)" for received
      by (cases received) (simp_all add: keeps_andThen keeps_packet [OF assms] f, simp add: keeps_def)
    then have "keeps (conn_ok L chip) (andThen (gdb_recv_packet GDB_PACKET_MAX) (\<lambda>received c1.
          case received of None \<Rightarrow> Some (Inr (), c1)
          | Some payload \<Rightarrow>
              andThen (gdb_handle_packet (write_at 0 (payload @ [CHR 0x00]) buf))
                (\<lambda>_. f (write_at 0 (payload @ [CHR 0x00]) buf)) c1))"
      by (rule keeps_andThen [OF safe_keeps [OF safe_recv_packet [where H = "\<lambda>_. True"]]])
    from keepsD [OF this, of c "fst y" "snd y"] run
    show "conn_ok L chip c \<longrightarrow> conn_ok L chip (snd y)" by (auto split: if_splits)
  qed
  then show ?thesis by (intro keepsI) fastforce
qed

lemma keeps_serve_client:
  assumes "chip_ok chip"
  shows "keeps (same_link L) (serve_client buf chip client)"
proof (rule keepsI)
  fix s r s' assume s: "same_link L s" and run: "serve_client buf chip client s = Some (r, s')"
  obtain es ss ps where client: "client = (es, ss, ps)" by (cases client)
  let ?c = "\<lparr>g_sess = s, g_chip = chip, g_quit = False,
    g_bps = replicate GDB_MAX_BREAKPOINTS no_breakpoint, g_in = es, g_sends = ss, g_polls = ps, g_out = []\<rparr>"
  have c: "conn_ok L chip ?c" using s by (simp add: conn_ok_def slot_ok_def no_breakpoint_def)
  have "keeps (conn_ok L chip) (andDo (serve buf) gdb_breakpoints_clear)"
    by (rule keeps_andThen [OF keeps_serve [OF assms] safe_keeps [OF safe_clear [OF assms, where H = "\<lambda>_. True"]]])
  moreover obtain q c' where "andDo (serve buf) gdb_breakpoints_clear ?c = Some (q, c')" "s' = g_sess c'"
    using run by (auto simp: serve_client_def client split: option.splits)
  ultimately have "conn_ok L chip c'" using c by (auto dest: keepsD)
  then show "same_link L s'" using \<open>s' = g_sess c'\<close> by (simp add: conn_ok_def)
qed

lemma keeps_gdb_session:
  assumes "chip_ok chip"
  shows "keeps (same_link L) (andDo (gdb_prepare chip) (gdb_accept env chip))"
proof -
  have "safe (same_link L) tgt_error (gdb_prepare chip)"
    unfolding gdb_prepare_def by (intro safe_intro) simp_all
  then show ?thesis
    unfolding gdb_accept_def
    by (intro keeps_andThen safe_keeps keeps_if keeps_cases keeps_trivial keeps_serve_client assms)
qed

section \<open>Output and files\<close>

text \<open>A property of the process that only looks at the USB side of it.\<close>

definition usb_side :: "(('h, 'w) host \<Rightarrow> bool) \<Rightarrow> bool" where
  "usb_side I \<longleftrightarrow> (\<forall>h h'. h_usb h' = h_usb h \<longrightarrow> h_link h' = h_link h \<longrightarrow> I h \<longrightarrow> I h')"

lemma usb_sideD: "usb_side I \<Longrightarrow> I h \<Longrightarrow> h_usb h' = h_usb h \<Longrightarrow> h_link h' = h_link h \<Longrightarrow> I h'"
  by (simp add: usb_side_def)

lemma keeps_print [keeps_intro]:
  assumes "usb_side I"
  shows "keeps I (print t)" "keeps I (print_err t)" "keeps I (logs w t)" "keeps I (wl_log_set_level l)"
  unfolding print_def print_err_def logs_def wl_log_set_level_def
  by (rule keeps_updates, erule usb_sideD [OF assms], simp, simp)+

lemma keeps_with_program [keeps_intro]: "(\<And>p. keeps I (f p)) \<Longrightarrow> keeps I (with_program f)"
  unfolding with_program_def by (intro keeps_intro)

lemma keeps_errors [keeps_intro]:
  assumes "usb_side I"
  shows "keeps I (usage_error t)" "keeps I (file_error t)" "keeps I (errno_error t)" "keeps I (unknown_part t)"
  unfolding usage_error_def file_error_def errno_error_def unknown_part_def
  by (intro keeps_intro assms)+

lemma keeps_reported_failure [keeps_intro]:
  "usb_side I \<Longrightarrow> keeps I m \<Longrightarrow> keeps I (reported_failure t m)"
  unfolding reported_failure_def by (intro keeps_intro)

lemma keeps_prints [keeps_intro]:
  assumes "usb_side I"
  shows "keeps I (print_chip c n)" "keeps I (print_chips cs n)" "keeps I (print_target_info c)"
    and "keeps I (print_programmer_info i)" "keeps I (list_programmers k fs)"
proof -
  show c: "keeps I (print_chip c n)" for c n
    unfolding print_chip_def by (intro keeps_intro assms)
  show "keeps I (print_chips cs n)"
    by (induction cs) (simp_all add: keeps_trivial keeps_andThen c del: ret_apply)
  show "keeps I (print_target_info c)"
    unfolding print_target_info_def by (intro keeps_intro assms)
  show i: "keeps I (print_programmer_info i)" for i
    unfolding print_programmer_info_def by (intro keeps_intro assms)
  show "keeps I (list_programmers k fs)"
    by (induction k fs rule: list_programmers.induct) (simp_all add: keeps_trivial keeps_andThen keeps_print [OF assms] i del: ret_apply)
qed

lemma keeps_files [keeps_intro]:
  assumes "usb_side I"
  shows "keeps I (read_file path)" "keeps I (write_file path bs)"
proof -
  show "keeps I (read_file path)"
    unfolding read_file_def by (intro keeps_intro assms)
  have f: "I (h\<lparr>h_files := x\<rparr>)" if "I h" for h x
    by (rule usb_sideD [OF assms that]) simp_all
  show "keeps I (write_file path bs)"
    unfolding write_file_def by (intro keeps_intro assms f)
qed

lemma show_calls_usb [simp]:
  "h_usb (show_calls cs h) = h_usb h" "h_link (show_calls cs h) = h_link h"
  by (induction cs h rule: show_calls.induct)
    (simp_all add: show_write_progress_def show_verify_progress_def Let_def)

lemma keeps_chip_checks [keeps_intro]:
  assumes "usb_side I"
  shows "keeps I (require_chip opts)" "keeps I (given_chip opts)" "keeps I (require_flash c)" "keeps I (require_fit opts c n)"
proof -
  show r: "keeps I (require_chip opts)"
    unfolding require_chip_def by (intro keeps_intro assms)
  show "keeps I (given_chip opts)"
    unfolding given_chip_def by (intro keeps_intro assms r)
  show "keeps I (require_flash c)"
    unfolding require_flash_def by (intro keeps_intro assms)
  show "keeps I (require_fit opts c n)"
    unfolding require_fit_def by (intro keeps_intro assms)
qed

lemma require_chip_row: "yields (require_chip opts) (\<lambda>c. c \<in> set chips)"
  unfolding require_chip_def unknown_part_def usage_error_def with_program_def
  by (auto split: option.split intro!: yields_andThen yields_fail yields_ret by_name_row)

lemma given_chip_row: "yields (given_chip opts) (\<lambda>g. \<forall>c. g = Some c \<longrightarrow> c \<in> set chips)"
  unfolding given_chip_def
  by (auto intro!: yields_ret yields_then [OF require_chip_row])

section \<open>Open and closed\<close>

text \<open>How many handles are open between commands, and while one has its link.\<close>

definition handles_at :: "('w \<Rightarrow> int) \<Rightarrow> int \<Rightarrow> ('h, 'w) host \<Rightarrow> bool" where
  "handles_at held n h \<longleftrightarrow> held (us_world (h_usb h)) = n"

definition link_up :: "('d, 'h, 'w) libusb \<Rightarrow> ('w \<Rightarrow> int) \<Rightarrow> int \<Rightarrow> ('h, 'w) host \<Rightarrow> bool" where
  "link_up lib held n h \<longleftrightarrow>
     held (us_world (h_usb h)) = n + 1 \<and> lk_transport (h_link h) = Some (wl_usb_transport lib) \<and>
     (\<exists>usb. lk_ctx (h_link h) = Some usb \<and> ul_handle usb \<noteq> None)"

lemma usb_sides [simp]: "usb_side (handles_at held n)" "usb_side (link_up lib held n)"
  by (auto simp: usb_side_def handles_at_def link_up_def)

lemma served_held:
  assumes "counts_handles lib held" "served l w w'" "lk_transport l = Some (wl_usb_transport lib)"
  shows "held w' = held w"
  using assms(2)
proof induction
  case (served_command w1 tr request mx answer w')
  then have "usb_transport_command lib (lk_ctx l) request mx w1 = ((fst answer, snd answer), w')"
    using assms(3) by (auto simp: wl_usb_transport_def)
  from command_held [OF assms(1) this] served_command show ?case by simp
qed simp

lemma keeps_with_link [keeps_intro]:
  assumes c: "counts_handles lib held" and m: "\<And>L. keeps (same_link L) m"
  shows "keeps (link_up lib held n) (with_link m)"
proof (rule keepsI)
  fix h r h' assume h: "link_up lib held n h" and run: "with_link m h = Some (r, h')"
  let ?s = "\<lparr>link = h_link h, world = us_world (h_usb h), calls = h_calls h\<rparr>"
  obtain s where s: "m ?s = Some (r, s)"
    "h' = h\<lparr>h_link := link s, h_usb := (h_usb h)\<lparr>us_world := world s\<rparr>, h_calls := calls s\<rparr>"
    using run by (auto simp: with_link_def split: option.splits)
  have "same_link (link ?s, world ?s) s" by (rule keepsD [OF m s(1) same_link_start])
  then show "link_up lib held n h'"
    using h s(2) served_held [OF c, of "h_link h" "us_world (h_usb h)" "world s"]
    by (auto simp: same_link_def link_up_def)
qed

lemma open_link_held:
  assumes c: "counts_handles lib held" and h: "handles_at held n h" and run: "open_link lib opts h = Some (r, h')"
  shows "case r of Inl e \<Rightarrow> handles_at held n h' | Inr _ \<Rightarrow> link_up lib held n h'"
  using linke_open_held [OF c, of "o_serial opts" "h_usb h"] h run
  by (auto simp: open_link_def handles_at_def link_up_def split: prod.splits sum.splits)

lemma close_link_held:
  assumes c: "counts_handles lib held" and h: "link_up lib held n h"
    and cl: "close = wl_linke_close lib \<or> close = wl_linke_close_keep_target lib"
  shows "\<exists>h'. with_link close h = Some (Inr (), h') \<and> handles_at held n h'"
proof -
  let ?s = "\<lparr>link = h_link h, world = us_world (h_usb h), calls = h_calls h\<rparr>"
  obtain usb where usb: "lk_ctx (h_link h) = Some usb" "ul_handle usb \<noteq> None"
    "lk_transport (h_link h) = Some (wl_usb_transport lib)" "held (us_world (h_usb h)) = n + 1"
    using h by (auto simp: link_up_def)
  from cl show ?thesis
  proof
    assume "close = wl_linke_close lib"
    with linke_close_held [OF c, of ?s usb] usb show ?thesis
      by (auto simp: with_link_def handles_at_def)
  next
    assume "close = wl_linke_close_keep_target lib"
    with usb close_held [OF c usb(2)] show ?thesis
      by (simp add: with_link_def handles_at_def wl_linke_close_keep_target_def andThen_def)
  qed
qed

section \<open>The commands\<close>

lemma keeps_linked:
  assumes c: "counts_handles lib held" and m: "keeps (link_up lib held n) m"
    and cl: "close = wl_linke_close lib \<or> close = wl_linke_close_keep_target lib"
  shows "keeps (handles_at held n) (linked lib opts close m)"
proof (rule keepsI)
  fix h r h' assume h: "handles_at held n h" and run: "linked lib opts close m h = Some (r, h')"
  obtain r1 h1 where 1: "open_link lib opts h = Some (r1, h1)"
    using run by (auto simp: linked_def andThen_def split: option.splits)
  note o = open_link_held [OF c h 1]
  show "handles_at held n h'"
  proof (cases r1)
    case (Inl e)
    with run 1 o show ?thesis by (simp add: linked_def andThen_def)
  next
    case (Inr u)
    then have "cleanup m (with_link close) h1 = Some (r, h')"
      using run 1 by (simp add: linked_def andThen_def)
    then obtain r2 h2 where 2: "m h1 = Some (r2, h2)"
      "attempt (with_link close) (\<lambda>_ s. Some (r2, s)) h2 = Some (r, h')"
      by (auto simp: cleanup_def attempt_def split: option.splits)
    have "link_up lib held n h2" using keepsD [OF m 2(1)] o Inr by simp
    from close_link_held [OF c this cl] 2(2) show ?thesis by (auto simp: attempt_def)
  qed
qed

lemma keeps_requests:
  "keeps (same_link L) wl_linke_identify_chip" "keeps (same_link L) (wl_linke_set_interface (Some c))"
  "keeps (same_link L) wl_linke_halt" "keeps (same_link L) wl_linke_resume" "keeps (same_link L) wl_linke_reset"
  "keeps (same_link L) wl_linke_unbrick" "keeps (same_link L) (wl_linke_read_memory (Some c) a k)"
  "keeps (same_link L) wl_dm_pc_read" "keeps (same_link L) (wl_dm_gpr_read r)"
  "keeps (same_link L) (wl_dm_read32 a)" "keeps (same_link L) (wl_dm_write32 a v)"
  "keeps (same_link L) (wl_linke_dmi_read reg)" "keeps (same_link L) (wl_linke_dmi_write reg v)"
  unfolding wl_linke_unbrick_def
  by (rule safe_keeps [where H = "\<lambda>_. True"], intro safe_intro safe_pc safe_memory, simp_all)+

lemma keeps_write_flash:
  "c \<in> set chips \<Longrightarrow> keeps (same_link L) (wl_linke_write_flash (Some c) a im v wp vp)"
  by (rule safe_keeps [OF safe_write_flash [where H = "\<lambda>_. True"]]) (simp_all add: chip_okD)

text \<open>The part a command works on, given or detected, is a row of the table.\<close>

lemma chosen_chip_row:
  assumes "\<forall>c. given = Some c \<longrightarrow> c \<in> set chips"
  shows "yields (chosen_chip given after :: ('h, 'w, _, _) hprog) (\<lambda>c. c \<in> set chips)"
proof -
  have w: "yields (with_link wl_linke_identify_chip :: ('h, 'w, _, _) hprog) (\<lambda>c. c \<in> set chips)"
    unfolding yields_def with_link_def
    using identify_row by (fastforce simp: yields_def split: option.splits)
  have r: "yields (reported_failure t (with_link wl_linke_identify_chip) :: ('h, 'w, _, _) hprog) (\<lambda>c. c \<in> set chips)" for t
    unfolding reported_failure_def
    by (rule yields_attempt [OF w]) (auto intro!: yields_ret yields_andThen yields_fail)
  have "yields (andThen (reported_failure t (with_link wl_linke_identify_chip))
      (\<lambda>c. andDo (after c) (ret c))) (\<lambda>c. c \<in> set chips)" for t
    by (rule yields_then [OF r]) (intro yields_andThen yields_ret)
  then show ?thesis
    unfolding chosen_chip_def using assms by (auto split: option.split intro!: yields_ret)
qed

lemma keeps_chosen [keeps_intro]:
  assumes "counts_handles lib held" "\<And>c. keeps (link_up lib held n) (after c)"
  shows "keeps (link_up lib held n) (chosen_chip given after)"
  unfolding chosen_chip_def
  by (intro keeps_intro assms keeps_requests usb_sides)

lemma keeps_flashing [keeps_intro]:
  assumes "counts_handles lib held" "c \<in> set chips"
  shows "keeps (link_up lib held n) (flashing opts c img)"
proof -
  have "link_up lib held n (show_calls cs h)" if "link_up lib held n h" for h cs
    using that by (simp add: link_up_def)
  then show ?thesis
    unfolding flashing_def
    by (intro keeps_intro assms keeps_write_flash)
qed

lemma keeps_cmd_info:
  "counts_handles lib held \<Longrightarrow> keeps (handles_at held n) (cmd_info lib opts)"
  unfolding cmd_info_def
  by (intro keeps_intro keeps_linked keeps_requests usb_sides) simp_all

lemma keeps_cmd_flash:
  assumes c: "counts_handles lib held"
  shows "keeps (handles_at held n) (cmd_flash lib opts)"
proof -
  have work: "keeps (link_up lib held n) (andThen (chosen_chip given detected) (\<lambda>chip.
      andDo (require_flash chip) (andDo (require_fit opts chip (length img))
        (andDo (logs wl_info (t chip)) (andDo (flashing opts chip img) (ret chip))))))"
    if "\<forall>c. given = Some c \<longrightarrow> c \<in> set chips" for given img t
  proof (rule keeps_yields [OF _ chosen_chip_row [OF that]])
    show "keeps (link_up lib held n) (chosen_chip given detected)"
      unfolding detected_def by (intro keeps_intro c usb_sides)
  qed (intro keeps_intro c usb_sides)
  show ?thesis
    unfolding cmd_flash_def
    by (rule keeps_yields [OF keeps_chip_checks(2) [OF usb_sides(1)] given_chip_row])
      (intro keeps_intro keeps_linked [OF c] work usb_sides disjI1 refl, assumption)
qed

lemma keeps_cmd_read:
  "counts_handles lib held \<Longrightarrow> keeps (handles_at held n) (cmd_read lib opts)"
  unfolding cmd_read_def detected_def
  by (intro keeps_intro keeps_linked keeps_requests usb_sides) simp_all

lemma keeps_link_commands:
  assumes c: "counts_handles lib held"
  shows "keeps (handles_at held n) (cmd_reset lib opts)" "keeps (handles_at held n) (cmd_unbrick lib opts)"
    and "keeps (handles_at held n) (cmd_target_halt lib opts)" "keeps (handles_at held n) (cmd_target_resume lib opts)"
    and "keeps (handles_at held n) (cmd_target_reset lib opts)"
  unfolding cmd_reset_def cmd_unbrick_def cmd_target_halt_def cmd_target_resume_def cmd_target_reset_def
  by (intro keeps_intro keeps_linked [OF c] keeps_with_link [OF c] keeps_requests usb_sides disjI1 disjI2 refl)+

lemma keeps_on_usb:
  assumes "\<And>u x u'. f u = (x, u') \<Longrightarrow> held (us_world u') = held (us_world u)"
  shows "keeps (handles_at held n) (on_usb f)"
  using assms by (auto simp: keeps_def on_usb_def handles_at_def split: prod.splits)

lemma switch_held:
  assumes "counts_handles lib held"
    and "\<And>i u r u'. send i u = (r, u') \<Longrightarrow> held (us_world u') = held (us_world u)"
    and "switch_from lib mode send f u = (r, u')"
  shows "held (us_world u') = held (us_world u)"
  using assms(3)
  by (auto simp: switch_from_def wait_for_mode_def dest!: scan_held [OF assms(1)] wait_held [OF assms(1)] assms(2)
      split: if_splits prod.splits sum.splits option.splits)

lemma find_held:
  assumes "counts_handles lib held" "wl_programmer_find lib f u = (r, u')"
  shows "held (us_world u') = held (us_world u)"
  using assms(2) by (auto simp: wl_programmer_find_def dest!: scan_held [OF assms(1)] split: prod.splits sum.splits)

lemma keeps_found [keeps_intro]: "keeps I (found_or_fail r)"
  unfolding found_or_fail_def by (intro keeps_intro)

text \<open>The version is read over a handle of its own, which is closed before anything is printed.\<close>

lemma keeps_print_version:
  assumes c: "counts_handles lib held"
  shows "keeps (handles_at held n) (print_programmer_version lib info)"
proof (rule keepsI)
  fix h r h' assume h: "handles_at held n h" and run: "print_programmer_version lib info h = Some (r, h')"
  obtain q u where 1: "wl_usb_open lib info (h_usb h) = (q, u)" by (cases "wl_usb_open lib info (h_usb h)")
  note o = usb_open_held [OF c 1]
  show "handles_at held n h'"
  proof (cases q)
    case (Inl rc)
    with run 1 o h show ?thesis
      by (auto simp: print_programmer_version_def andThen_def on_usb_def print_def handles_at_def)
  next
    case (Inr usb)
    let ?h = "h\<lparr>h_usb := u, h_link := wl_linke_attach_transport (wl_usb_transport lib) (Some usb), h_calls := []\<rparr>"
    have up: "link_up lib held n ?h"
      using o Inr h by (simp add: link_up_def handles_at_def wl_linke_attach_transport_def)
    have v: "keeps (same_link L) (wl_linke_get_version 64)" for L :: "('b wl_usb_link, 'c) origin"
      by (rule safe_keeps [where H = "\<lambda>_. True"], unfold wl_linke_get_version_def) (intro safe_intro, simp_all)
    obtain r2 h2 where 2: "with_link (wl_linke_get_version 64) ?h = Some (r2, h2)"
      using run 1 Inr by (auto simp: print_programmer_version_def andThen_def on_usb_def attempt_def split: option.splits)
    have "link_up lib held n h2" by (rule keepsD [OF keeps_with_link [OF c v] 2 up])
    moreover have "h_usb h' = (h_usb h2)\<lparr>us_world := wl_usb_close lib (Some usb) (us_world (h_usb h2))\<rparr>"
      using run 1 Inr 2 by (auto simp: print_programmer_version_def andThen_def on_usb_def attempt_def print_def)
    ultimately show ?thesis
      using close_held [OF c, of usb "us_world (h_usb h2)"] o Inr by (simp add: link_up_def handles_at_def)
  qed
qed

lemma keeps_cmd_programmer:
  assumes c: "counts_handles lib held"
  shows "keeps (handles_at held n) (cmd_programmer lib opts)"
proof -
  have f: "keeps (handles_at held n) (on_usb (wl_programmer_find lib s))" for s
    by (rule keeps_on_usb) (rule find_held [OF c])
  have sc: "keeps (handles_at held n) (on_usb (wl_usb_scan lib k))" for k
    by (rule keeps_on_usb) (rule scan_held [OF c])
  have sw: "keeps (handles_at held n) (on_usb (wl_programmer_switch_rv lib s))"
    "keeps (handles_at held n) (on_usb (wl_programmer_eject_iap lib s))" for s
    unfolding wl_programmer_switch_rv_def wl_programmer_eject_iap_def wl_usb_switch_arm_to_rv_def wl_usb_eject_iap_def
    by (rule keeps_on_usb, rule switch_held [OF c], rule boot_held [OF c], assumption, assumption)+
  show ?thesis
    unfolding cmd_programmer_def cmd_programmer_info_def cmd_programmer_list_def cmd_programmer_rv_def
      cmd_programmer_iap_def switched_def
    by (intro keeps_intro usb_sides f sc sw keeps_print_version [OF c])
qed

lemma keeps_debugged:
  assumes c: "counts_handles lib held" and m: "\<And>ch. keeps (link_up lib held n) (m ch)"
  shows "keeps (handles_at held n) (debugged lib opts m)"
proof -
  let ?prep = "\<lambda>chip. with_link (andDo (wl_linke_set_interface (Some chip)) wl_linke_halt)"
  have body: "keeps (handles_at held n) (andDo (open_link lib opts)
       (andDo (attempt (?prep chip) (\<lambda>r. case r of
                   Inl e \<Rightarrow> andDo (ignoring (with_link (wl_linke_close lib))) (fail e)
                 | Inr _ \<Rightarrow> ret ()))
          (cleanup (m chip) (with_link (wl_linke_close_keep_target lib)))))" for chip
  proof (rule keepsI)
    fix h r h' assume h: "handles_at held n h" and run: "andDo (open_link lib opts)
       (andDo (attempt (?prep chip) (\<lambda>r. case r of
                   Inl e \<Rightarrow> andDo (ignoring (with_link (wl_linke_close lib))) (fail e)
                 | Inr _ \<Rightarrow> ret ()))
          (cleanup (m chip) (with_link (wl_linke_close_keep_target lib)))) h = Some (r, h')"
    obtain r1 h1 where 1: "open_link lib opts h = Some (r1, h1)"
      using run by (auto simp: andThen_def split: option.splits)
    note o = open_link_held [OF c h 1]
    show "handles_at held n h'"
    proof (cases r1)
      case (Inl e)
      with run 1 o show ?thesis by (simp add: andThen_def)
    next
      case (Inr u)
      then obtain r2 h2 where 2: "?prep chip h1 = Some (r2, h2)"
        using run 1 by (auto simp: andThen_def [of "open_link _ _"] andThen_def [of "attempt _ _"] attempt_def [of "with_link _"]
            split: option.splits)
      have up: "link_up lib held n h2"
        by (rule keepsD [OF keeps_with_link [OF c keeps_andThen [OF keeps_requests(2) keeps_requests(3)]] 2])
          (use o Inr in simp)
      show ?thesis
      proof (cases r2)
        case (Inl e)
        with close_link_held [OF c up, of "wl_linke_close lib"] run 1 2 \<open>r1 = Inr u\<close> show ?thesis
          by (auto simp: andThen_def attempt_def ignoring_def)
      next
        case (Inr v)
        with run 1 2 \<open>r1 = Inr u\<close> have "cleanup (m chip) (with_link (wl_linke_close_keep_target lib)) h2 = Some (r, h')"
          by (simp add: andThen_def [of "open_link _ _"] andThen_def [of "attempt _ _"] attempt_def [of "with_link _"])
        then obtain r3 h3 where 3: "m chip h2 = Some (r3, h3)"
          "attempt (with_link (wl_linke_close_keep_target lib)) (\<lambda>_ s. Some (r3, s)) h3 = Some (r, h')"
          by (auto simp: cleanup_def attempt_def split: option.splits)
        from close_link_held [OF c keepsD [OF m 3(1) up], of "wl_linke_close_keep_target lib"] 3(2)
        show ?thesis by (auto simp: attempt_def)
      qed
    qed
  qed
  show ?thesis
    unfolding debugged_def by (intro keeps_intro usb_sides body)
qed

lemma keeps_gprs:
  "counts_handles lib held \<Longrightarrow> keeps (link_up lib held n) (print_gprs rs)"
proof (induction rs)
  case (Cons r rs)
  show ?case
    unfolding print_gprs.simps
    by (intro keeps_intro Cons keeps_requests usb_sides)
qed (simp add: keeps_trivial del: ret_apply)

lemma keeps_cmd_target:
  assumes c: "counts_handles lib held"
  shows "keeps (handles_at held n) (cmd_target lib opts)"
proof -
  note d = keeps_debugged [OF c]
  have l: "keeps (link_up lib held n) (with_link m)" if "\<And>L. keeps (same_link L) m" for m :: "('b wl_usb_link, 'c, 'd) lprog"
    by (rule keeps_with_link [OF c that])
  show ?thesis
    unfolding cmd_target_def cmd_target_pc_def cmd_target_regs_def cmd_target_read32_def cmd_target_write32_def
    by (intro keeps_intro usb_sides d keeps_link_commands [OF c] keeps_gprs c keeps_requests)
qed

lemma keeps_terminal_turn: "keeps (same_link L) terminal_turn"
proof -
  have s: "keeps (same_link L) (case p of
         Sdi_ack \<Rightarrow> andDo (ignoring (wl_linke_dmi_write WL_DMI_DATA0 0)) (ret [])
       | Sdi_idle \<Rightarrow> ret []
       | Sdi_text n \<Rightarrow> f n)" if "\<And>n. keeps (same_link L) (f n)" for p and f :: "nat \<Rightarrow> ('a, 'b, string) lprog"
    by (cases p) (simp_all add: that keeps_andThen keeps_ignoring keeps_requests keeps_trivial del: ret_apply)
  show ?thesis
    unfolding terminal_turn_def
    by (intro keeps_andThen keeps_requests s keeps_if keeps_ignoring keeps_trivial)
qed

lemma keeps_terminal_loop:
  assumes c: "counts_handles lib held"
  shows "keeps (link_up lib held n) terminal_loop"
proof -
  let ?I = "link_up lib held n"
  have "?I h \<longrightarrow> ?I (snd y)" if "terminal_loop h = Some y" for h y
  proof (rule terminal_loop.raw_induct [OF _ that, where P = "\<lambda>h y. ?I h \<longrightarrow> ?I (snd y)"])
    fix f h y
    assume IH: "\<And>h y. f h = Some y \<Longrightarrow> ?I h \<longrightarrow> ?I (snd y)"
      and run: "(if h_signal h = Some 0 then Some (Inr (), h)
        else attempt (with_link terminal_turn) (\<lambda>r h1.
            case r of Inl e \<Rightarrow> Some (Inl e, h1)
            | Inr t \<Rightarrow> if t = [] then f h1
                else andThen (write_out t) (\<lambda>all h2. if all then f h2 else Some (Inr (), h2)) h1)
          (h\<lparr>h_signal := map_option (\<lambda>n. n - 1) (h_signal h)\<rparr>)) = Some y"
    have f: "keeps ?I f" using IH by (intro keepsI) fastforce
    have w: "keeps ?I (write_out t)" for t
      by (rule keepsI) (auto simp: write_out_def link_up_def split: list.splits)
    have "keeps ?I (attempt (with_link terminal_turn) (\<lambda>r h1.
            case r of Inl e \<Rightarrow> Some (Inl e, h1)
            | Inr t \<Rightarrow> if t = [] then f h1
                else andThen (write_out t) (\<lambda>all h2. if all then f h2 else Some (Inr (), h2)) h1))"
    proof (rule keeps_attempt [OF keeps_with_link [OF c keeps_terminal_turn]])
      fix r :: "wl_status + string"
      show "keeps ?I (\<lambda>h1. case r of Inl e \<Rightarrow> Some (Inl e, h1)
            | Inr t \<Rightarrow> if t = [] then f h1
                else andThen (write_out t) (\<lambda>all h2. if all then f h2 else Some (Inr (), h2)) h1)"
      proof (cases r)
        case (Inr t)
        have "keeps ?I (andThen (write_out t) (\<lambda>all h2. if all then f h2 else Some (Inr (), h2)))"
          by (rule keeps_andThen [OF w]) (intro keeps_branch f keeps_result)
        with Inr f show ?thesis by (cases "t = []") simp_all
      qed (simp add: keeps_result)
    qed
    moreover have "?I (h\<lparr>h_signal := x\<rparr>) = ?I h" for x by (simp add: link_up_def)
    ultimately show "?I h \<longrightarrow> ?I (snd y)"
      using run by (cases y) (auto dest: keepsD split: if_splits)
  qed
  then show ?thesis by (intro keepsI) fastforce
qed

lemma keeps_cmd_terminal:
  assumes c: "counts_handles lib held"
  shows "keeps (handles_at held n) (cmd_terminal lib opts)"
  unfolding cmd_terminal_def
  by (intro keeps_intro keeps_linked [OF c] keeps_terminal_loop [OF c] keeps_requests c usb_sides disjI1 refl)

lemma gdb_server_held:
  assumes c: "counts_handles lib held" and chip: "chip \<in> set chips"
    and run: "wl_gdb_server_run lib env serial (Some chip) u = Some (r, u')"
  shows "held (us_world u') = held (us_world u)"
proof -
  obtain q u1 where 1: "wl_linke_open lib serial u = (q, u1)" by (cases "wl_linke_open lib serial u")
  note o = linke_open_held [OF c 1]
  show ?thesis
  proof (cases q)
    case (Inl e)
    with run 1 o show ?thesis by (simp add: wl_gdb_server_run_def andThen_def)
  next
    case (Inr l)
    let ?s = "\<lparr>link = l, world = us_world u1, calls = []\<rparr>"
    let ?m = "andDo (gdb_prepare chip) (gdb_accept env chip)"
    obtain usb where usb: "lk_ctx l = Some usb" "ul_handle usb \<noteq> None" "lk_transport l = Some (wl_usb_transport lib)"
      using o Inr by auto
    have "on_opened l (cleanup ?m (wl_linke_close lib)) u1 = Some (r, u')"
      using run 1 Inr by (simp add: wl_gdb_server_run_def andThen_def [of "\<lambda>u. Some (wl_linke_open lib serial u)"])
    then obtain r2 s2 where 2: "?m ?s = Some (r2, s2)"
      "on_opened l (\<lambda>_. attempt (wl_linke_close lib) (\<lambda>_ s. Some (r2, s)) s2) u1 = Some (r, u')"
      by (auto simp: on_opened_def cleanup_def attempt_def [of ?m] split: option.splits)
    have s: "same_link (link ?s, world ?s) s2"
      by (rule keepsD [OF keeps_gdb_session [OF chip_okD [OF chip]] 2(1) same_link_start])
    then have "held (world s2) = held (us_world u1)"
      using served_held [OF c, of l "us_world u1" "world s2"] usb by (simp add: same_link_def)
    moreover have "lk_transport (link s2) = Some (wl_usb_transport lib)" "lk_ctx (link s2) = Some usb"
      using s usb by (simp_all add: same_link_def)
    from linke_close_held [OF c this usb(2)] 2(2)
    have "held (us_world u') = held (world s2) - 1"
      by (auto simp: on_opened_def attempt_def)
    ultimately show ?thesis using o Inr by simp
  qed
qed

lemma keeps_gdb_command:
  assumes "counts_handles lib held" "chip \<in> set chips"
  shows "keeps (handles_at held n) (run_gdb_server lib opts chip)"
  by (rule keepsI)
    (auto simp: run_gdb_server_def handles_at_def dest!: gdb_server_held [OF assms] split: option.splits)

lemma keeps_run_command:
  assumes c: "counts_handles lib held"
  shows "keeps (handles_at held n) (run_command lib command opts)"
proof -
  have chips: "keeps (handles_at held n) cmd_chips"
    unfolding cmd_chips_def by (intro keeps_intro usb_sides)
  have gdb: "keeps (handles_at held n) (andThen (require_chip opts) (run_gdb_server lib opts))"
    by (rule keeps_yields [OF keeps_chip_checks(1) [OF usb_sides(1)] require_chip_row])
      (rule keeps_gdb_command [OF c])
  show ?thesis
    unfolding run_command_def needs_file_def
    by (intro keeps_if keeps_errors keeps_print keeps_with_program keeps_trivial chips gdb usb_sides
        keeps_cmd_info [OF c] keeps_cmd_flash [OF c] keeps_cmd_read [OF c] keeps_link_commands [OF c]
        keeps_cmd_programmer [OF c] keeps_cmd_target [OF c] keeps_cmd_terminal [OF c] keeps_andThen)
qed

lemma keeps_parse_args:
  assumes "usb_side I"
  shows "keeps I (parse_args args pending command opts)"
proof (induction args arbitrary: pending command opts)
  case Nil
  have "keeps I (missing a)" for a
    unfolding missing_def bad_line_def by (intro keeps_intro assms)
  then show ?case by (cases pending) (simp_all add: keeps_trivial del: ret_apply)
next
  case (Cons a args)
  have m: "keeps I (missing b)" for b
    unfolding missing_def bad_line_def by (intro keeps_intro assms)
  have v: "keeps I (parse_value x a opts)" for x
    unfolding parse_value_def by (intro keeps_intro assms m)
  have w: "keeps I (parse_word a command opts)"
    unfolding parse_word_def bad_line_def by (intro keeps_intro assms)
  show ?case
    unfolding parse_args.simps by (intro keeps_intro v w Cons)
qed

lemma keeps_run_main:
  assumes c: "counts_handles lib held"
  shows "keeps (handles_at held n) (run_main lib parsed)"
proof (rule keepsI)
  fix h r h' assume h: "handles_at held n h" and run: "run_main lib parsed h = Some (r, h')"
  obtain cmd opts where parsed: "parsed = (cmd, opts)" by (cases parsed)
  show "handles_at held n h'"
  proof (cases cmd)
    case None
    with run parsed h show ?thesis
      by (auto simp: run_main_def with_program_def print_err_def andThen_def handles_at_def)
  next
    case (Some command)
    define h1 where "h1 = h\<lparr>h_err := h_err h @ wl_debug (h_level h) (h_program h @ '' '' @ WL_VERSION)\<rparr>"
    have 1: "h_usb h1 = h_usb h" "andDo (with_program (\<lambda>p. logs wl_debug (p @ '' '' @ WL_VERSION))) f h = f h1" for f
      by (simp_all add: h1_def with_program_def logs_def andThen_def)
    obtain rc u where u: "wl_usb_global_init lib (h_usb h1) = (rc, u)" by (cases "wl_usb_global_init lib (h_usb h1)")
    have up: "held (us_world u) = n"
      using u 1(1) h counted(12) [OF c] by (auto simp: wl_usb_global_init_def handles_at_def split: if_splits prod.splits)
    note run' = run [unfolded run_main_def parsed Some prod.case option.case 1(2)]
    show ?thesis
    proof (cases "rc < 0")
      case True
      with run' 1 u up show ?thesis
        by (auto simp: andThen_def with_program_def logs_def handles_at_def)
    next
      case False
      with run' 1 u obtain q h2 where 2: "run_command lib command opts (h1\<lparr>h_usb := u\<rparr>) = Some (q, h2)"
        "h_usb h' = wl_usb_global_exit lib (h_usb h2)"
        by (auto simp: andThen_def with_program_def logs_def split: option.splits if_splits)
      have "handles_at held n (h1\<lparr>h_usb := u\<rparr>)" using up by (simp add: handles_at_def)
      then have "handles_at held n h2" by (rule keepsD [OF keeps_run_command [OF c] 2(1)])
      then show ?thesis
        using 2(2) counted(13) [OF c] by (simp add: handles_at_def wl_usb_global_exit_def)
    qed
  qed
qed

text \<open>C9: whatever the command line, the bus, the programmer, the target and the debugger do: if
  the tool's main returns, exactly the USB handles are open that were open before, on every
  command, every error path and every early return.\<close>

theorem no_handle_leaks:
  assumes "counts_handles lib held" and "main lib argv h = Some (code, h')"
  shows "held (us_world (h_usb h')) = held (us_world (h_usb h))"
proof -
  let ?m = "andDo (if argv \<noteq> [] \<and> hd argv \<noteq> [] then updates (\<lambda>h. h\<lparr>h_program := basename (hd argv)\<rparr>) else ret ())
    (andThen (parse_args (tl argv) None None initial_options) (run_main lib))"
  let ?I = "handles_at held (held (us_world (h_usb h)))"
  have "keeps ?I (updates (\<lambda>h. h\<lparr>h_program := x\<rparr>))" for x
    by (rule keeps_updates) (simp add: handles_at_def)
  then have "keeps ?I ?m"
    by (intro keeps_andThen keeps_if keeps_trivial keeps_parse_args usb_sides keeps_run_main [OF assms(1)])
  moreover obtain r where "?m h = Some (r, h')"
    using assms(2) by (auto simp: main_def split: option.splits sum.splits)
  ultimately have "?I h'" by (rule keepsD) (simp add: handles_at_def)
  then show ?thesis by (simp add: handles_at_def)
qed

end
