(* ===== verification/CliProps.thy ===== *)
theory CliProps
  imports CliHandles
begin

text \<open>
  Properties of the command line: numbers, options, exit statuses, what is refused before the
  programmer is touched, and the decoding of the terminal.
\<close>

section \<open>Numbers\<close>

lemma digit_value_digit: "d < 16 \<Longrightarrow> digit_value (digit_char d) = Some d"
  by (auto simp: digit_value_def digit_char_def of_char_of Let_def)

lemma is_digit_digit: "d < 16 \<Longrightarrow> is_digit b (digit_char d) \<longleftrightarrow> d < b"
  by (simp add: is_digit_def digit_value_digit)

lemma digits_append:
  "digits_value b (xs @ ys) v = digits_value b ys (digits_value b xs v)"
  by (induction xs arbitrary: v) simp_all

lemma dec_digits: "list_all (is_digit 10) (dec_str n) \<and> digits_value 10 (dec_str n) 0 = n \<and> dec_str n \<noteq> []"
proof (induction n rule: dec_str.induct)
  case (1 n)
  then show ?case
    by (subst (1 2 3) dec_str.simps) (auto simp: is_digit_digit digits_append digit_value_digit)
qed

lemma hex_digits: "list_all (is_digit 16) (hex_str n) \<and> digits_value 16 (hex_str n) 0 = n \<and> hex_str n \<noteq> []"
proof (induction n rule: hex_str.induct)
  case (1 n)
  then show ?case
    by (subst (1 2 3) hex_str.simps) (auto simp: is_digit_digit digits_append digit_value_digit)
qed

lemma dec_no_zero: "0 < n \<Longrightarrow> hd (dec_str n) \<noteq> CHR ''0''"
proof (induction n rule: dec_str.induct)
  case (1 n)
  show ?case
  proof (cases "n < 10")
    case True
    then have "dec_str n = [digit_char n]" "digit_value (digit_char n) = Some n"
      by (subst dec_str.simps, simp, simp add: digit_value_digit)
    moreover have "digit_value (CHR ''0'') = Some 0" by (simp add: digit_value_def)
    ultimately show ?thesis using 1(2) by auto
  next
    case False
    then have "hd (dec_str n) = hd (dec_str (n div 10))"
      using dec_digits [of "n div 10"] by (subst dec_str.simps) (simp add: hd_append)
    with False 1 show ?thesis by simp
  qed
qed

lemma not_digits:
  assumes "b \<le> 16"
    and "c \<in> {CHR '' '', CHR 0x09, CHR 0x0a, CHR 0x0b, CHR 0x0c, CHR 0x0d, CHR ''-'', CHR ''+'', CHR ''x'', CHR ''X''}"
  shows "\<not> is_digit b c"
  using assms by (elim insertE emptyE) (simp_all add: is_digit_def digit_value_def Let_def)

lemma digit_not_space:
  assumes "is_digit b c" "b \<le> 16"
  shows "\<not> isspace c" "c \<noteq> CHR ''-''" "c \<noteq> CHR ''+''" "c \<noteq> CHR ''x''" "c \<noteq> CHR ''X''"
proof -
  have "c \<notin> {CHR '' '', CHR 0x09, CHR 0x0a, CHR 0x0b, CHR 0x0c, CHR 0x0d, CHR ''-'', CHR ''+'', CHR ''x'', CHR ''X''}"
    using not_digits [OF assms(2)] assms(1) by metis
  then show "\<not> isspace c" "c \<noteq> CHR ''-''" "c \<noteq> CHR ''+''" "c \<noteq> CHR ''x''" "c \<noteq> CHR ''X''"
    by (simp_all add: isspace_def)
qed

lemma take_all: "list_all P xs \<Longrightarrow> takeWhile P xs = xs \<and> dropWhile P xs = []"
  by (simp add: list_all_iff)

text \<open>Texts that \<^verbatim>\<open>strtoul\<close> reads to their end: digits, and hexadecimal digits after \<^verbatim>\<open>0x\<close>.\<close>

lemma strtoul_plain:
  assumes t: "dropWhile isspace t = t" "hd t \<noteq> CHR ''-''" "hd t \<noteq> CHR ''+''" "number_base t = (b, s)"
    and s: "list_all (is_digit b) s" "s \<noteq> []"
  shows "strtoul0 t = (if digits_value b s 0 < 2 ^ 64 then Some (digits_value b s 0, []) else None)"
proof -
  have "takeWhile (is_digit b) s = s" "dropWhile (is_digit b) s = []" using take_all [OF s(1)] by auto
  with t s(2) show ?thesis
    by (simp add: strtoul0_def Let_def del: takeWhile_eq_all_conv dropWhile_eq_Nil_conv)
qed

lemma strtoul_digits:
  assumes s: "list_all (is_digit b) s" "s \<noteq> []" "b \<le> 16" and n: "number_base (pre @ s) = (b, s)"
    and pre: "pre = [] \<or> pre = ''0x''"
  shows "strtoul0 (pre @ s) = (if digits_value b s 0 < 2 ^ 64 then Some (digits_value b s 0, []) else None)"
proof -
  obtain c cs where c: "s = c # cs" "is_digit b c" using s by (cases s) auto
  note d = digit_not_space [OF c(2) s(3)]
  have "dropWhile isspace (pre @ s) = pre @ s" "hd (pre @ s) \<noteq> CHR ''-''" "hd (pre @ s) \<noteq> CHR ''+''"
    using pre d c by (auto simp: isspace_def)
  from strtoul_plain [OF this n s(1,2)] show ?thesis .
qed

lemma parse_u32_dec: "parse_u32 (Some (dec_str n)) = (if n \<le> 0xffffffff then Some (of_nat n) else None)"
proof (cases "n = 0")
  case True
  have "dec_str 0 = ''0''" by code_simp
  moreover have "strtoul0 ([] @ ''0'') = Some (0, [])"
    using strtoul_digits [of 8 "''0''" "[]"] by (simp add: number_base_def is_digit_def digit_value_def)
  then have "parse_u32 (Some ''0'') = Some 0" by (simp add: parse_u32_def)
  ultimately show ?thesis using True by simp
next
  case False
  let ?s = "dec_str n"
  have d: "list_all (is_digit 10) ?s" "digits_value 10 ?s 0 = n" "?s \<noteq> []" using dec_digits [of n] by auto
  have "?s ! 0 \<noteq> CHR ''0''" using dec_no_zero [of n] False d(3) by (simp add: hd_conv_nth)
  then have base: "number_base ([] @ ?s) = (10, ?s)" by (simp add: number_base_def)
  show ?thesis
    using strtoul_digits [OF d(1,3) _ base] d by (simp add: parse_u32_def)
qed

lemma parse_u32_hex:
  assumes "list_all (is_digit 16) s" "s \<noteq> []" "digits_value 16 s 0 \<le> 0xffffffff"
  shows "parse_u32 (Some (''0x'' @ s)) = Some (of_nat (digits_value 16 s 0))"
proof -
  have "is_digit 16 (s ! 0)" using assms(1,2) by (cases s) auto
  then have "number_base (''0x'' @ s) = (16, s)" using assms(2) by (cases s) (auto simp: number_base_def)
  then show ?thesis
    using strtoul_digits [OF assms(1,2), of "''0x''"] assms(3) by (simp add: parse_u32_def)
qed

lemma parse_u32_hex0x: "parse_u32 (Some (hex0x v)) = Some v"
proof -
  have z: "digits_value 16 (replicate k (CHR ''0'') @ s) 0 = digits_value 16 s 0" for k s
    by (induction k) (simp_all add: digit_value_def)
  have "list_all (is_digit 16) (hex8 v)" "hex8 v \<noteq> []" "digits_value 16 (hex8 v) 0 = unat v"
    using hex_digits [of "unat v"] z
    by (auto simp: hex8_def pad_left_def list_all_iff is_digit_def digit_value_def)
  moreover have "unat v \<le> 0xffffffff" using unsigned_less [of v, where ?'a = nat] by simp
  ultimately show ?thesis using parse_u32_hex [of "hex8 v"] by (simp add: hex0x_def)
qed

section \<open>Options\<close>

text \<open>A command line that says everything an options record holds.\<close>

definition spelled :: "string \<Rightarrow> options \<Rightarrow> string list" where
  "spelled command opts =
     (case o_serial opts of None \<Rightarrow> [] | Some v \<Rightarrow> [''-s'', v]) @
     (case o_chip opts of None \<Rightarrow> [] | Some v \<Rightarrow> [''--chip'', v]) @
     (if o_address_given opts then [''--address'', hex0x (o_address opts)] else []) @
     (if o_size_given opts then [''-n'', dec_str (o_size opts)] else []) @
     [''--port'', dec_str (unat (o_port opts))] @
     (if o_verify opts then [''--verify''] else [''--no-verify'']) @
     command # (case o_file opts of None \<Rightarrow> [] | Some f \<Rightarrow> [f]) @ o_extra opts"

text \<open>Options that \<^verbatim>\<open>main\<close> can have read, for a given command.\<close>

definition plain_word :: "string \<Rightarrow> bool" where
  "plain_word w \<longleftrightarrow> w \<noteq> [] \<longrightarrow> hd w \<noteq> CHR ''-''"

definition options_ok :: "string \<Rightarrow> options \<Rightarrow> bool" where
  "options_ok command opts \<longleftrightarrow>
     o_port opts \<noteq> 0 \<and> o_size opts \<le> 0xffffffff \<and>
     (\<not> o_address_given opts \<longrightarrow> o_address opts = 0) \<and> (\<not> o_size_given opts \<longrightarrow> o_size opts = 0) \<and>
     plain_word command \<and> (\<forall>f. o_file opts = Some f \<longrightarrow> plain_word f) \<and> list_all plain_word (o_extra opts) \<and>
     (o_extra opts \<noteq> [] \<longrightarrow> command = ''target'' \<and> o_file opts \<noteq> None) \<and>
     length (o_extra opts) \<le> WL_TARGET_EXTRA_MAX"

lemma plain_word_parsed:
  assumes "plain_word w"
  shows "parse_word w command opts =
     (if command = None then ret (None, Some w, opts)
      else if o_file opts = None then ret (None, command, opts\<lparr>o_file := Some w\<rparr>)
      else if command = Some ''target'' \<and> length (o_extra opts) < WL_TARGET_EXTRA_MAX then
        ret (None, command, opts\<lparr>o_extra := o_extra opts @ [w]\<rparr>)
      else bad_line (''unexpected argument '' @ quote w))"
proof -
  have "w \<noteq> CHR ''-'' # t" for t using assms by (auto simp: plain_word_def)
  moreover have n: "(2 \<le> length w \<and> w ! 0 = CHR ''-'') \<longleftrightarrow> False"
    using assms by (cases w) (auto simp: plain_word_def)
  ultimately show ?thesis unfolding parse_word_def n if_False by (simp add: needs_def)
qed

lemma parse_extra:
  "list_all plain_word xs \<Longrightarrow> o_file opts = Some f \<Longrightarrow> length (o_extra opts) + length xs \<le> WL_TARGET_EXTRA_MAX \<Longrightarrow>
     parse_args xs None (Some ''target'') opts h =
       Some (Inr (Some ''target'', opts\<lparr>o_extra := o_extra opts @ xs\<rparr>), h)"
proof (induction xs arbitrary: opts)
  case (Cons x xs)
  then show ?case
    using Cons.IH [of "opts\<lparr>o_extra := o_extra opts @ [x]\<rparr>"] by (simp add: plain_word_parsed)
qed simp

lemma parse_flagged:
  "parse_args (''-s'' # v # args) None command opts = parse_args args None command (opts\<lparr>o_serial := Some v\<rparr>)"
  "parse_args (''--chip'' # v # args) None command opts = parse_args args None command (opts\<lparr>o_chip := Some v\<rparr>)"
  "parse_args (''--address'' # hex0x a # args) None command opts =
     parse_args args None command (opts\<lparr>o_address := a, o_address_given := True\<rparr>)"
  "n \<le> 0xffffffff \<Longrightarrow> parse_args (''-n'' # dec_str n # args) None command opts =
     parse_args args None command (opts\<lparr>o_size := n, o_size_given := True\<rparr>)"
  "p \<noteq> 0 \<Longrightarrow> parse_args (''--port'' # dec_str (unat (p :: u16)) # args) None command opts =
     parse_args args None command (opts\<lparr>o_port := p\<rparr>)"
  "parse_args (''--verify'' # args) None command opts = parse_args args None command (opts\<lparr>o_verify := True\<rparr>)"
  "parse_args (''--no-verify'' # args) None command opts = parse_args args None command (opts\<lparr>o_verify := False\<rparr>)"
proof -
  note flag = parse_word_def needs_def parse_value_def parse_u32_hex0x parse_u32_dec
  show "parse_args (''-s'' # v # args) None command opts = parse_args args None command (opts\<lparr>o_serial := Some v\<rparr>)"
    "parse_args (''--chip'' # v # args) None command opts = parse_args args None command (opts\<lparr>o_chip := Some v\<rparr>)"
    "parse_args (''--address'' # hex0x a # args) None command opts =
       parse_args args None command (opts\<lparr>o_address := a, o_address_given := True\<rparr>)"
    "parse_args (''--verify'' # args) None command opts = parse_args args None command (opts\<lparr>o_verify := True\<rparr>)"
    "parse_args (''--no-verify'' # args) None command opts = parse_args args None command (opts\<lparr>o_verify := False\<rparr>)"
    by (simp_all add: flag del: ret_apply)
  show "parse_args (''-n'' # dec_str n # args) None command opts =
     parse_args args None command (opts\<lparr>o_size := n, o_size_given := True\<rparr>)" if "n \<le> 0xffffffff"
  proof -
    have "unat (of_nat n :: u32) = n" using that by (simp add: unat_of_nat)
    with that show ?thesis by (simp add: flag del: ret_apply)
  qed
  show "parse_args (''--port'' # dec_str (unat p) # args) None command opts =
     parse_args args None command (opts\<lparr>o_port := p\<rparr>)" if "p \<noteq> 0"
  proof -
    have p: "unat p < 65536" "0 < unat p" using unsigned_less [of p, where ?'a = nat] that by (simp_all add: unat_gt_0)
    have "take_bit 32 (unat p) = unat p" using p by (intro take_bit_nat_eq_self) simp
    then have u: "unat (ucast p :: u32) = unat p" by (simp add: unsigned_ucast_eq)
    have "(ucast p :: u32) \<noteq> 0" "\<not> 65535 < (ucast p :: u32)" "unat p \<le> 0xffffffff"
      using p u by (auto simp: word_less_nat_alt unat_eq_0 [symmetric] simp del: unat_eq_0)
    moreover have "ucast (ucast p :: u32) = p" by (rule bit_word_eqI) (auto simp: bit_simps)
    ultimately show ?thesis by (simp add: flag del: ret_apply)
  qed
qed

lemma parse_words:
  assumes "options_ok command opts" "o_file opts0 = None" "o_extra opts0 = []"
  shows "parse_args (command # (case o_file opts of None \<Rightarrow> [] | Some f \<Rightarrow> [f]) @ o_extra opts) None None opts0 h =
     Some (Inr (Some command, opts0\<lparr>o_file := o_file opts, o_extra := o_extra opts\<rparr>), h)"
proof (cases "o_file opts")
  case None
  then have "o_extra opts = []" "opts0\<lparr>o_file := None, o_extra := []\<rparr> = opts0"
    using assms by (auto simp: options_ok_def)
  then show ?thesis using assms None by (simp add: options_ok_def plain_word_parsed)
next
  case (Some f)
  show ?thesis
  proof (cases "o_extra opts = []")
    case True
    have "opts0\<lparr>o_file := Some f, o_extra := []\<rparr> = opts0\<lparr>o_file := Some f\<rparr>" using assms(3) by simp
    then show ?thesis using assms True Some by (simp add: options_ok_def plain_word_parsed)
  next
    case False
    then have "command = ''target''" "list_all plain_word (o_extra opts)" "length (o_extra opts) \<le> WL_TARGET_EXTRA_MAX"
      using assms(1) by (auto simp: options_ok_def)
    with parse_extra [of "o_extra opts" "opts0\<lparr>o_file := Some f\<rparr>" f h] assms Some
    show ?thesis by (simp add: options_ok_def plain_word_parsed)
  qed
qed

lemma spelled_parsed:
  assumes "options_ok command opts"
  shows "parse_args (spelled command opts) None None initial_options h = Some (Inr (Some command, opts), h)"
proof -
  obtain se ch fi ex ad si ag sg ve po where o: "opts =
    \<lparr>o_serial = se, o_chip = ch, o_file = fi, o_extra = ex, o_address = ad, o_size = si,
     o_address_given = ag, o_size_given = sg, o_verify = ve, o_port = po\<rparr>" by (cases opts)
  have ok: "po \<noteq> 0" "si \<le> 0xffffffff" "\<not> ag \<Longrightarrow> ad = 0" "\<not> sg \<Longrightarrow> si = 0"
    using assms unfolding options_ok_def o by auto
  show ?thesis
    using ok parse_words [OF assms, where h = h] unfolding spelled_def initial_options_def o
    by (cases se; cases ch; cases ag; cases sg; cases ve)
      (simp_all add: parse_flagged del: parse_args.simps)
qed

text \<open>C38: every command and set of options the tool can hold, written as a command line, with
  numbers in decimal or as 0x and eight hexadecimal digits, is read back as exactly that
  command and those options, and reading it prints nothing and touches nothing.\<close>

theorem options_roundtrip:
  assumes "options_ok command opts"
  shows "parse_args (spelled command opts) None None initial_options h = Some (Inr (Some command, opts), h)"
  using assms by (rule spelled_parsed)

definition sample_options :: options where
  "sample_options =
     \<lparr>o_serial = Some ''0001'', o_chip = Some ''ch32v003'', o_file = Some ''write32'', o_extra = [''0x20000000'', ''1''],
      o_address = 0x08000040, o_size = 0, o_address_given = True, o_size_given = False, o_verify = False,
      o_port = 3334\<rparr>"

theorem options_roundtrip_witness:
  "(\<forall>h :: (unit, int) host. parse_args (spelled ''target'' sample_options) None None initial_options h =
     Some (Inr (Some ''target'', sample_options), h)) \<and> o_address sample_options = 0x08000040"
  by (simp add: options_roundtrip options_ok_def sample_options_def plain_word_def WL_TARGET_EXTRA_MAX_def)

section \<open>The terminal\<close>

text \<open>The two data registers as the target fills them: the low byte, then the text.\<close>

definition sdi_words :: "u8 \<Rightarrow> u8 list \<Rightarrow> u32 \<times> u32" where
  "sdi_words low bs =
     (let b = (\<lambda>i. if i < length bs then bs ! i else 0) in
      (word_of low (b 0) (b 1) (b 2), word_of (b 3) (b 4) (b 5) (b 6)))"

lemma sdi_bounds: "sdi_packet_of low = Sdi_text n \<Longrightarrow> 1 \<le> n \<and> n \<le> 7"
  by (auto simp: sdi_packet_of_def Let_def word_le_nat_alt split: if_splits)

lemma sdi_text_words:
  assumes "1 \<le> length bs" "length bs \<le> 7"
  shows "sdi_text (length bs) (fst (sdi_words low bs)) (snd (sdi_words low bs)) =
     map (\<lambda>b. char_of (unat b)) bs"
proof (rule nth_equalityI)
  show "length (sdi_text (length bs) (fst (sdi_words low bs)) (snd (sdi_words low bs))) =
      length (map (\<lambda>b. char_of (unat b)) bs)"
    using assms by (simp add: sdi_text_def)
  fix i assume "i < length (sdi_text (length bs) (fst (sdi_words low bs)) (snd (sdi_words low bs)))"
  then have i: "i < length bs" using assms by (simp add: sdi_text_def)
  then have "i = 0 \<or> i = 1 \<or> i = 2 \<or> i = 3 \<or> i = 4 \<or> i = 5 \<or> i = 6" using assms(2) by linarith
  then show "sdi_text (length bs) (fst (sdi_words low bs)) (snd (sdi_words low bs)) ! i =
      map (\<lambda>b. char_of (unat b)) bs ! i"
    using i assms by (elim disjE)
      (auto simp: sdi_text_def sdi_words_def Let_def nth_append min_def numeral_2_eq_2 [symmetric] numeral_3_eq_3 [symmetric])
qed

text \<open>C40: one to seven bytes of text, packed by the target into the two data registers under
  either of the two packet shapes, are printed as exactly those bytes, a set bit 4 turns a
  packet of the second shape into an acknowledgement, and no value of the low byte announces
  more than seven bytes.\<close>

theorem terminal_decodes:
  assumes "1 \<le> length bs" "length bs \<le> 7"
  shows "sdi_packet_of (of_nat (length bs)) = Sdi_text (length bs) \<and>
     sdi_packet_of (0x80 OR of_nat (length bs + 4)) = Sdi_text (length bs) \<and>
     sdi_packet_of (0x90 OR of_nat (length bs + 4)) = Sdi_ack \<and>
     sdi_text (length bs) (fst (sdi_words low bs)) (snd (sdi_words low bs)) = map (\<lambda>b. char_of (unat b)) bs \<and>
     ucast (fst (sdi_words low bs) AND 0xff) = low \<and>
     (\<forall>l n. sdi_packet_of l = Sdi_text n \<longrightarrow> 1 \<le> n \<and> n \<le> 7)"
proof -
  have "length bs = 1 \<or> length bs = 2 \<or> length bs = 3 \<or> length bs = 4 \<or> length bs = 5 \<or> length bs = 6 \<or> length bs = 7"
    using assms by linarith
  then have "sdi_packet_of (of_nat (length bs)) = Sdi_text (length bs)"
    "sdi_packet_of (0x80 OR of_nat (length bs + 4)) = Sdi_text (length bs)"
    "sdi_packet_of (0x90 OR of_nat (length bs + 4)) = Sdi_ack"
    by (elim disjE; simp add: sdi_packet_of_def Let_def)+
  moreover have "ucast (fst (sdi_words low bs) AND 0xff) = low"
  proof -
    have "byte_of 0 (fst (sdi_words low bs)) = low" by (simp add: sdi_words_def Let_def)
    then show ?thesis by (simp add: byte_of_def)
  qed
  ultimately show ?thesis
    using sdi_text_words [OF assms] sdi_bounds by blast
qed

theorem terminal_decodes_witness:
  "sdi_text 5 (fst (sdi_words 5 [104, 101, 108, 108, 111])) (snd (sdi_words 5 [104, 101, 108, 108, 111])) = ''hello'' \<and>
   sdi_packet_of 0x99 = Sdi_ack"
proof -
  have m: "map (\<lambda>b. char_of (unat b)) [104, 101, 108, 108, 111 :: u8] = ''hello''" by code_simp
  have n: "length [104, 101, 108, 108, 111 :: u8] = 5" by simp
  show ?thesis
    using terminal_decodes [of "[104, 101, 108, 108, 111]" 5] unfolding m n by simp
qed

section \<open>What is refused before the programmer is touched\<close>

text \<open>C10: the flash command with a named part fails with a usage or not-implemented error, before
  the USB bus or any file is touched, when the part is unknown or has no flash algorithm,
  when the file cannot be read whole or is empty, and when the image does not fit the part's
  flash at the address.\<close>

theorem flash_refused_early:
  assumes "o_chip opts = Some nm"
    and "\<not> (\<exists>chip img h1. wl_chip_by_name (Some nm) = Some chip \<and> wl_linke_can_flash (Some chip) \<and>
            read_file (the (o_file opts)) h = Some (Inr img, h1) \<and>
            wl_flash_range_ok (Some chip) (flash_address opts chip) (length img))"
  shows "\<exists>e h'. cmd_flash lib opts h = Some (Inl e, h') \<and> e \<in> {WL_ERR_USAGE, WL_ERR_NOT_IMPLEMENTED} \<and>
     h_usb h' = h_usb h \<and> h_files h' = h_files h"
proof (cases "wl_chip_by_name (Some nm)")
  case None
  then show ?thesis using assms(1)
    by (simp add: cmd_flash_def given_chip_def require_chip_def unknown_part_def usage_error_def
        with_program_def logs_def andThen_def)
next
  case (Some chip)
  then have given: "given_chip opts = ret (Some chip)"
    using assms(1) by (simp add: given_chip_def require_chip_def del: ret_apply)
  show ?thesis
  proof (cases "wl_linke_can_flash (Some chip)")
    case False
    then show ?thesis
      unfolding cmd_flash_def given by (simp add: require_flash_def logs_def andThen_def)
  next
    case flash: True
    obtain r h1 where r: "read_file (the (o_file opts)) h = Some (r, h1)" "h_usb h1 = h_usb h" "h_files h1 = h_files h"
      "\<forall>e. r = Inl e \<longrightarrow> e = WL_ERR_USAGE"
    proof -
      have "safe (\<lambda>h1. h_usb h1 = h_usb h \<and> h_files h1 = h_files h) (\<lambda>e. e = WL_ERR_USAGE) (read_file (the (o_file opts)))"
        unfolding read_file_def errno_error_def file_error_def logs_def by (intro safe_intro) auto
      then show ?thesis using that by (elim safeE) auto
    qed
    show ?thesis
    proof (cases r)
      case (Inl e)
      with r flash show ?thesis
        unfolding cmd_flash_def given by (simp add: require_flash_def andThen_def)
    next
      case (Inr img)
      with assms(2) Some flash r(1) have "\<not> wl_flash_range_ok (Some chip) (flash_address opts chip) (length img)"
        by blast
      with r Inr flash show ?thesis
        unfolding cmd_flash_def given
        by (simp add: require_flash_def require_fit_def usage_error_def logs_def andThen_def)
    qed
  qed
qed

section \<open>Exit statuses\<close>

text \<open>Reading the command line touches nothing but the output and the reporting level.\<close>

definition quiet :: "(('h, 'w) host \<Rightarrow> bool) \<Rightarrow> bool" where
  "quiet I \<longleftrightarrow> (\<forall>h h'. h_usb h' = h_usb h \<longrightarrow> h_files h' = h_files h \<longrightarrow> I h \<longrightarrow> I h')"

lemma quietD: "quiet I \<Longrightarrow> I h \<Longrightarrow> h_usb h' = h_usb h \<Longrightarrow> h_files h' = h_files h \<Longrightarrow> I h'"
  by (simp add: quiet_def)

lemma safe_print [safe_intro]:
  assumes "quiet I"
  shows "safe I H (print t)" "safe I H (print_err t)" "safe I H (logs w t)" "safe I H (wl_log_set_level l)"
  unfolding print_def print_err_def logs_def wl_log_set_level_def
  by (rule safe_updates, erule quietD [OF assms], simp, simp)+

lemma safe_with_program [safe_intro]: "(\<And>p. safe I H (f p)) \<Longrightarrow> safe I H (with_program f)"
  unfolding with_program_def by (intro safe_intro)

lemma safe_parse_args:
  assumes I: "quiet I" and H: "H 0" "H 2"
  shows "safe I H (parse_args args pending command opts)"
proof (induction args arbitrary: pending command opts)
  case Nil
  have "safe I H (missing a)" for a
    unfolding missing_def bad_line_def by (intro safe_intro I H)
  then show ?case by (cases pending) (simp_all add: safe_ret del: ret_apply)
next
  case (Cons a args)
  have m: "safe I H (missing b)" for b
    unfolding missing_def bad_line_def by (intro safe_intro I H)
  have v: "safe I H (parse_value x a opts)" for x
    unfolding parse_value_def by (intro safe_intro m)
  have w: "safe I H (parse_word a command opts)"
    unfolding parse_word_def bad_line_def by (intro safe_intro I H)
  show ?case
    unfolding parse_args.simps by (intro safe_intro v w Cons)
qed

lemma exit_range: "status_to_exit st \<le> 3"
  by (cases st) simp_all

text \<open>The process when the options are looked at: the program's name has been set.\<close>

definition named :: "string list \<Rightarrow> ('h, 'w) host \<Rightarrow> ('h, 'w) host" where
  "named argv h = (if argv \<noteq> [] \<and> hd argv \<noteq> [] then h\<lparr>h_program := basename (hd argv)\<rparr> else h)"

lemma main_named:
  "main lib argv h =
     (case andThen (parse_args (tl argv) None None initial_options) (run_main lib) (named argv h) of
        None \<Rightarrow> None
      | Some (Inl code, h') \<Rightarrow> Some (code, h')
      | Some (Inr code, h') \<Rightarrow> Some (code, h'))"
  by (simp add: main_def named_def andThen_def [of "updates _"])

text \<open>C39: the exit status of the tool is 0, 1, 2 or 3; the command line is read without touching
  the bus or any file, and when it is refused or only asks for help or the version the tool
  ends there, with status 2 or 0.\<close>

theorem exit_statuses:
  assumes "main lib argv h = Some (code, h')"
  shows "code \<le> 3 \<and>
     (\<exists>p h1. parse_args (tl argv) None None initial_options (named argv h) = Some (p, h1) \<and>
        h_usb h1 = h_usb h \<and> h_files h1 = h_files h \<and>
        (\<forall>c. p = Inl c \<longrightarrow> (c = 0 \<or> c = 2) \<and> code = c \<and> h' = h1))"
proof -
  have "safe (\<lambda>h1. h_usb h1 = h_usb h \<and> h_files h1 = h_files h) (\<lambda>c. c = 0 \<or> c = 2)
      (parse_args (tl argv) None None initial_options)"
    by (rule safe_parse_args) (auto simp: quiet_def)
  then obtain p h1 where p: "parse_args (tl argv) None None initial_options (named argv h) = Some (p, h1)"
    "h_usb h1 = h_usb h \<and> h_files h1 = h_files h" "\<And>c. p = Inl c \<Longrightarrow> c = 0 \<or> c = 2"
    by (rule safeE [where s = "named argv h"]) (auto simp: named_def)
  show ?thesis
  proof (cases p)
    case (Inl c)
    with p assms show ?thesis by (auto simp: main_named andThen_def)
  next
    case (Inr q)
    with p(1) assms obtain r where r: "run_main lib q h1 = Some (r, h')" "code = (case r of Inl c \<Rightarrow> c | Inr c \<Rightarrow> c)"
      by (auto simp: main_named andThen_def split: option.splits sum.splits)
    have "code \<le> 3"
      using r by (auto simp: run_main_def with_program_def print_err_def logs_def andThen_def exit_range
          split: prod.splits option.splits if_splits)
    with p Inr show ?thesis by auto
  qed
qed

end
