(* ===== verification/SimProgrammer.thy ===== *)
theory SimProgrammer
  imports Dm
begin

text \<open>
  The simulated programmer and target of \<^verbatim>\<open>tests/sim_programmer.c\<close>: memory, the CH32V00x flash
  controller, the program-buffer interpreter, the debug module and the packet protocol.  It is
  the second implementation of the transport vtable in the repository and the one on which the
  contracts of the protocol layers are discharged.
\<close>

section \<open>State\<close>

definition SIM_FLASH_CTRL :: u32 where "SIM_FLASH_CTRL = 0x40022000"
definition SIM_FLASH_KEYR :: u32 where "SIM_FLASH_KEYR = SIM_FLASH_CTRL + 0x04"
definition SIM_FLASH_STATR :: u32 where "SIM_FLASH_STATR = SIM_FLASH_CTRL + 0x0c"
definition SIM_FLASH_CTLR :: u32 where "SIM_FLASH_CTLR = SIM_FLASH_CTRL + 0x10"
definition SIM_FLASH_ADDR :: u32 where "SIM_FLASH_ADDR = SIM_FLASH_CTRL + 0x14"
definition SIM_FLASH_MODEKEYR :: u32 where "SIM_FLASH_MODEKEYR = SIM_FLASH_CTRL + 0x24"
definition SIM_KEY1 :: u32 where "SIM_KEY1 = 0x45670123"
definition SIM_KEY2 :: u32 where "SIM_KEY2 = 0xcdef89ab"
definition SIM_CTLR_PG :: u32 where "SIM_CTLR_PG = 0x00000001"
definition SIM_CTLR_PER :: u32 where "SIM_CTLR_PER = 0x00000002"
definition SIM_CTLR_STRT :: u32 where "SIM_CTLR_STRT = 0x00000040"
definition SIM_CTLR_LOCK :: u32 where "SIM_CTLR_LOCK = 0x00000080"
definition SIM_CTLR_PAGE_PG :: u32 where "SIM_CTLR_PAGE_PG = 0x00010000"
definition SIM_CTLR_PAGE_ER :: u32 where "SIM_CTLR_PAGE_ER = 0x00020000"
definition SIM_CTLR_BUF_RST :: u32 where "SIM_CTLR_BUF_RST = 0x00080000"
definition SIM_STATR_BSY :: u32 where "SIM_STATR_BSY = 0x00000001"
definition SIM_STATR_WRPRTERR :: u32 where "SIM_STATR_WRPRTERR = 0x00000010"
definition SIM_BUSY_READS :: u32 where "SIM_BUSY_READS = 2"
definition SIM_MAX_STEPS :: nat where "SIM_MAX_STEPS = 256"

lemmas sim_regs =
  SIM_FLASH_CTRL_def SIM_FLASH_KEYR_def SIM_FLASH_STATR_def SIM_FLASH_CTLR_def
  SIM_FLASH_ADDR_def SIM_FLASH_MODEKEYR_def SIM_KEY1_def SIM_KEY2_def

lemmas sim_bits =
  SIM_CTLR_PG_def SIM_CTLR_PER_def SIM_CTLR_STRT_def SIM_CTLR_LOCK_def SIM_CTLR_PAGE_PG_def
  SIM_CTLR_PAGE_ER_def SIM_CTLR_BUF_RST_def SIM_STATR_BSY_def SIM_STATR_WRPRTERR_def
  SIM_BUSY_READS_def

text \<open>
  The arrays whose size depends on the part, and the page buffer, are lists; the register files,
  which the code indexes within their size only, are functions.
\<close>

record wl_sim =
  s_chip :: wl_chip_t
  s_flash :: "u8 list"
  s_ram :: "u8 list"
  s_configured :: bool
  s_chip_id :: u8
  s_interface_speed :: u8
  s_attached :: bool
  s_fail_attach_while_attached :: bool
  s_resets :: u32
  s_dmi :: "u8 \<Rightarrow> u32"
  s_gpr :: "nat \<Rightarrow> u32"
  s_progbuf :: "nat \<Rightarrow> u32"
  s_pc :: u32
  s_dpc :: u32
  s_dcsr :: u32
  s_cmderr :: u32
  s_key_stage :: u32
  s_mode_key_stage :: u32
  s_unlocked :: bool
  s_mode_unlocked :: bool
  s_ctlr :: u32
  s_addr :: u32
  s_page_buf :: "u8 list"
  s_busy_reads :: u32
  s_erases :: u32
  s_programs :: u32
  s_program_errors :: u32
  s_illegal :: u32

section \<open>The target's memory\<close>

definition sim_is_flash :: "u32 \<Rightarrow> bool" where
  "sim_is_flash addr \<longleftrightarrow> addr AND 0xff000000 = 0x08000000 \<or> addr AND 0xff000000 = 0"

definition sim_flash_offset :: "u32 \<Rightarrow> nat" where
  "sim_flash_offset addr = unat (addr AND 0x00ffffff)"

definition sim_is_ram :: "wl_sim \<Rightarrow> u32 \<Rightarrow> bool" where
  "sim_is_ram sim addr \<longleftrightarrow>
     ram_offset (s_chip sim) \<le> addr \<and>
     unat addr < unat (ram_offset (s_chip sim)) + length (s_ram sim)"

definition sim_is_ctrl :: "u32 \<Rightarrow> bool" where
  "sim_is_ctrl addr \<longleftrightarrow> SIM_FLASH_CTRL \<le> addr \<and> addr < SIM_FLASH_CTRL + 0x400"

text \<open>Programming can only clear bits; every byte that would need a bit set again is an error.\<close>

definition program_bytes :: "nat \<Rightarrow> u8 list \<Rightarrow> wl_sim \<Rightarrow> wl_sim" where
  "program_bytes off wanted sim =
     (let cells = zip (drop off (s_flash sim)) wanted
      in sim\<lparr>s_flash := write_at off (map (\<lambda>(old, w). old AND w) cells) (s_flash sim),
             s_program_errors := s_program_errors sim +
               of_nat (length (filter (\<lambda>(old, w). old AND w \<noteq> w) cells))\<rparr>)"

definition sim_flash_program_page :: "wl_sim \<Rightarrow> wl_sim" where
  "sim_flash_program_page sim =
     (if \<not> s_mode_unlocked sim then sim\<lparr>s_program_errors := s_program_errors sim + 1\<rparr>
      else
        (let sim' = program_bytes (sim_flash_offset (s_addr sim)) (s_page_buf sim) sim
         in sim'\<lparr>s_programs := s_programs sim' + 1, s_busy_reads := SIM_BUSY_READS\<rparr>))"

definition sim_erase :: "nat \<Rightarrow> wl_sim \<Rightarrow> wl_sim" where
  "sim_erase n sim =
     sim\<lparr>s_flash := write_at (sim_flash_offset (s_addr sim)) (replicate n 0xff) (s_flash sim),
         s_erases := s_erases sim + 1, s_busy_reads := SIM_BUSY_READS\<rparr>"

definition sim_ctlr_write :: "u32 \<Rightarrow> wl_sim \<Rightarrow> wl_sim" where
  "sim_ctlr_write value sim0 =
     (let sim = sim0\<lparr>s_ctlr := value\<rparr> in
      if value AND SIM_CTLR_BUF_RST \<noteq> 0 then
        (if s_mode_unlocked sim then sim\<lparr>s_page_buf := replicate 64 0xff\<rparr>
         else sim\<lparr>s_program_errors := s_program_errors sim + 1\<rparr>)\<lparr>s_busy_reads := SIM_BUSY_READS\<rparr>
      else if value AND SIM_CTLR_STRT = 0 then sim
      else if value AND SIM_CTLR_PAGE_ER \<noteq> 0 then
        (if \<not> s_mode_unlocked sim then sim\<lparr>s_program_errors := s_program_errors sim + 1\<rparr>
         else sim_erase 64 sim)
      else if value AND SIM_CTLR_PAGE_PG \<noteq> 0 then sim_flash_program_page sim
      else if value AND SIM_CTLR_PER \<noteq> 0 then sim_erase 1024 sim
      else sim\<lparr>s_busy_reads := SIM_BUSY_READS\<rparr>)"

definition sim_ctrl_write :: "u32 \<Rightarrow> u32 \<Rightarrow> wl_sim \<Rightarrow> wl_sim" where
  "sim_ctrl_write addr value sim =
     (if addr = SIM_FLASH_KEYR then
        (if value = SIM_KEY1 then sim\<lparr>s_key_stage := 1\<rparr>
         else if value = SIM_KEY2 \<and> s_key_stage sim = 1
              then sim\<lparr>s_unlocked := True, s_key_stage := 0\<rparr>
         else sim\<lparr>s_key_stage := 0\<rparr>)
      else if addr = SIM_FLASH_MODEKEYR then
        (if value = SIM_KEY1 then sim\<lparr>s_mode_key_stage := 1\<rparr>
         else if value = SIM_KEY2 \<and> s_mode_key_stage sim = 1
              then sim\<lparr>s_mode_unlocked := True, s_mode_key_stage := 0\<rparr>
         else sim\<lparr>s_mode_key_stage := 0\<rparr>)
      else if addr = SIM_FLASH_ADDR then sim\<lparr>s_addr := value\<rparr>
      else if addr = SIM_FLASH_CTLR then sim_ctlr_write value sim
      else sim)"

definition sim_ctrl_read :: "u32 \<Rightarrow> wl_sim \<Rightarrow> u32 \<times> wl_sim" where
  "sim_ctrl_read addr sim =
     (if addr = SIM_FLASH_STATR then
        (let (st, sim') =
               (if 0 < s_busy_reads sim
                then (SIM_STATR_BSY, sim\<lparr>s_busy_reads := s_busy_reads sim - 1\<rparr>) else (0, sim))
         in (if 0 < s_program_errors sim then st OR SIM_STATR_WRPRTERR else st, sim'))
      else if addr = SIM_FLASH_CTLR then
        (if s_unlocked sim then s_ctlr sim AND NOT SIM_CTLR_LOCK else s_ctlr sim OR SIM_CTLR_LOCK,
         sim)
      else if addr = SIM_FLASH_ADDR then (s_addr sim, sim)
      else (0, sim))"

definition value_bytes :: "nat \<Rightarrow> u32 \<Rightarrow> u8 list" where
  "value_bytes width value = map (\<lambda>i. ucast (drop_bit (8 * i) value AND 0xff)) [0..<width]"

definition loaded :: "nat \<Rightarrow> u8 list \<Rightarrow> u32" where
  "loaded size_log2 bs =
     (if size_log2 = 1 then scast (ucast (le_value bs) :: u16) else le_value bs)"

text \<open>One access of the simulated core; \<open>value\<close> goes in and comes out.\<close>

definition sim_access :: "u32 \<Rightarrow> nat \<Rightarrow> bool \<Rightarrow> u32 \<Rightarrow> wl_sim \<Rightarrow> u32 \<times> wl_sim" where
  "sim_access addr size_log2 write value sim =
     (let width = 2 ^ size_log2 in
      if sim_is_ctrl addr then
        (if write then (value, sim_ctrl_write (addr AND NOT 0x3) value sim)
         else sim_ctrl_read (addr AND NOT 0x3) sim)
      else if sim_is_flash addr then
        (let off = sim_flash_offset addr in
         if length (s_flash sim) < off + width then (value, sim)
         else if \<not> write then (loaded size_log2 (take width (drop off (s_flash sim))), sim)
         else if s_mode_unlocked sim \<and> s_ctlr sim AND SIM_CTLR_PAGE_PG \<noteq> 0 \<and> size_log2 = 2 then
           (let page_off = off mod 64 in
            if page_off + 4 \<le> length (s_page_buf sim) then
              (value, sim\<lparr>s_page_buf := write_at page_off (value_bytes 4 value) (s_page_buf sim),
                          s_busy_reads := SIM_BUSY_READS\<rparr>)
            else (value, sim\<lparr>s_program_errors := s_program_errors sim + 1\<rparr>))
         else if \<not> s_unlocked sim \<or> s_ctlr sim AND SIM_CTLR_PG = 0 then
           (value, sim\<lparr>s_program_errors := s_program_errors sim + 1\<rparr>)
         else
           (let sim' = program_bytes off (value_bytes width value) sim
            in (value, sim'\<lparr>s_programs := s_programs sim' + 1, s_busy_reads := SIM_BUSY_READS\<rparr>)))
      else if sim_is_ram sim addr then
        (let off = unat (addr - ram_offset (s_chip sim)) in
         if length (s_ram sim) < off + width then (value, sim)
         else if write then
           (value, sim\<lparr>s_ram := write_at off (value_bytes width value) (s_ram sim)\<rparr>)
         else (loaded size_log2 (take width (drop off (s_ram sim))), sim))
      else (if write then value else 0, sim))"

section \<open>The program-buffer interpreter\<close>

definition sign_extend :: "u32 \<Rightarrow> nat \<Rightarrow> u32" where
  "sign_extend value bits = (let mask = push_bit (bits - 1) 1 in (value XOR mask) - mask)"

definition set_gpr :: "nat \<Rightarrow> u32 \<Rightarrow> wl_sim \<Rightarrow> wl_sim" where
  "set_gpr rd value sim = sim\<lparr>s_gpr := (s_gpr sim)(rd := if rd = 0 then 0 else value)\<rparr>"

definition sim_illegal :: "wl_sim \<Rightarrow> bool \<times> wl_sim" where
  "sim_illegal sim = (False, sim\<lparr>s_illegal := s_illegal sim + 1\<rparr>)"

fun sim_steps :: "nat \<Rightarrow> wl_sim \<Rightarrow> bool \<times> wl_sim" where
  "sim_steps 0 sim = sim_illegal sim"
| "sim_steps (Suc n) sim =
     (let instruction = s_progbuf sim (unat (s_pc sim div 4));
          opcode = instruction AND 0x7f;
          rd = unat (drop_bit 7 instruction AND 0x1f);
          funct3 = drop_bit 12 instruction AND 0x7;
          rs1 = unat (drop_bit 15 instruction AND 0x1f);
          rs2 = unat (drop_bit 20 instruction AND 0x1f);
          next = (\<lambda>sim. if 8 \<le> s_pc sim div 4 then sim_illegal sim else sim_steps n sim)
      in
        if opcode = 0x23 then
          (let imm = push_bit 5 (drop_bit 25 instruction) OR (drop_bit 7 instruction AND 0x1f);
               size = unat (funct3 AND 0x3);
               (_, sim') = sim_access (s_gpr sim rs1 + imm) size True (s_gpr sim rs2) sim
           in next (sim'\<lparr>s_pc := s_pc sim' + 4\<rparr>))
        else if opcode = 0x03 then
          (let imm = drop_bit 20 instruction;
               size = unat (funct3 AND 0x3);
               (value, sim') = sim_access (s_gpr sim rs1 + imm) size False 0 sim;
               value' = (if funct3 = 0x4 then value AND 0xff else value)
           in next (set_gpr rd value' sim'\<lparr>s_pc := s_pc sim' + 4\<rparr>))
        else if opcode = 0x13 then
          (let imm = sign_extend (drop_bit 20 instruction) 12
           in next (set_gpr rd (s_gpr sim rs1 + imm) sim\<lparr>s_pc := s_pc sim + 4\<rparr>))
        else if opcode = 0x63 then
          (let imm = push_bit 12 (drop_bit 31 instruction) OR
                     push_bit 5 (drop_bit 25 instruction AND 0x3f) OR
                     push_bit 1 (drop_bit 8 instruction AND 0xf) OR
                     (drop_bit 7 instruction AND 0x1)
           in next (sim\<lparr>s_pc := s_pc sim +
                (if s_gpr sim rs1 \<noteq> s_gpr sim rs2 then sign_extend imm 13 else 4)\<rparr>))
        else if opcode = 0x73 then
          (if drop_bit 20 instruction = 0x001 then (True, sim) else sim_illegal sim)
        else sim_illegal sim)"

definition sim_run_progbuf :: "wl_sim \<Rightarrow> bool \<times> wl_sim" where
  "sim_run_progbuf sim = sim_steps SIM_MAX_STEPS sim"

section \<open>The debug module\<close>

definition sim_transfer :: "u32 \<Rightarrow> bool \<Rightarrow> u32 \<Rightarrow> wl_sim \<Rightarrow> wl_sim option" where
  "sim_transfer aarsize write regno sim =
     (if regno = WL_DMI_DPC \<or> regno = WL_DMI_DCSR then
        Some (if write then
                (if regno = WL_DMI_DPC then sim\<lparr>s_dpc := s_dmi sim WL_DMI_DATA0\<rparr>
                 else sim\<lparr>s_dcsr := s_dmi sim WL_DMI_DATA0\<rparr>)
              else sim\<lparr>s_dmi := (s_dmi sim)(WL_DMI_DATA0 :=
                     if regno = WL_DMI_DPC then s_dpc sim else s_dcsr sim)\<rparr>)
      else if 0x1000 \<le> regno \<and> regno \<le> 0x101f then
        (let gpr = unat (regno - 0x1000) in
         Some (if write then set_gpr gpr (s_dmi sim WL_DMI_DATA0) sim
               else
                 (let value = s_gpr sim gpr;
                      value' = (if aarsize = 0 then value AND 0xff
                                else if aarsize = 1 then value AND 0xffff else value)
                  in sim\<lparr>s_dmi := (s_dmi sim)(WL_DMI_DATA0 := value')\<rparr>)))
      else None)"

definition sim_execute_command :: "u32 \<Rightarrow> wl_sim \<Rightarrow> wl_sim" where
  "sim_execute_command cmd sim =
     (let cmdtype = drop_bit 24 cmd AND 0x7f;
          aarsize = drop_bit 20 cmd AND 0x7;
          postexec = bit cmd 18;
          transfer = bit cmd 17;
          write = bit cmd 16;
          regno = cmd AND 0xffff
      in
        if cmdtype \<noteq> 0 then sim\<lparr>s_cmderr := 2\<rparr>
        else
          (case (if transfer then sim_transfer aarsize write regno sim else Some sim) of
             None \<Rightarrow> sim\<lparr>s_cmderr := 2\<rparr>
           | Some sim' \<Rightarrow> if postexec then snd (sim_run_progbuf (sim'\<lparr>s_pc := 0\<rparr>)) else sim'))"

definition sim_dmi_write :: "u8 \<Rightarrow> u32 \<Rightarrow> wl_sim \<Rightarrow> wl_sim" where
  "sim_dmi_write reg value sim0 =
     (let sim = (if reg < 128 then sim0\<lparr>s_dmi := (s_dmi sim0)(reg := value)\<rparr> else sim0) in
      if reg = WL_DMI_DMABSTRACTCS then
        sim\<lparr>s_cmderr := s_cmderr sim AND NOT (drop_bit 8 value AND 0x7)\<rparr>
      else if WL_DMI_DMPROGBUF0 \<le> reg \<and> reg \<le> WL_DMI_DMPROGBUF0 + 7 then
        sim\<lparr>s_progbuf := (s_progbuf sim)(unat (reg - WL_DMI_DMPROGBUF0) := value)\<rparr>
      else if reg = WL_DMI_DMCOMMAND then sim_execute_command value sim
      else sim)"

definition sim_dmi_read :: "u8 \<Rightarrow> wl_sim \<Rightarrow> u32" where
  "sim_dmi_read reg sim =
     (if reg = WL_DMI_DMABSTRACTCS then push_bit 8 (s_cmderr sim)
      else if reg < 128 then s_dmi sim reg
      else 0)"

section \<open>The packet protocol\<close>

definition sim_refuse :: "nat \<Rightarrow> u8 list" where
  "sim_refuse reply_max = (if 4 \<le> reply_max then [0x81, 0x55, 0x01, 0x00] else [])"

definition sim_control :: "u8 \<Rightarrow> wl_sim \<Rightarrow> u8 list \<times> wl_sim" where
  "sim_control sub sim =
     (if sub = 0x01 then ([0x82, 0x0d, 0x04, 0x02, 0x07, 18, 0x00], sim)
      else if sub = 0x02 then
        (if s_attached sim \<and> s_fail_attach_while_attached sim then ([0x82, 0x0d, 0x05, 0x09], sim)
         else
           (let model = model_id (s_chip sim) in
            ([0x82, 0x0d, 0x05, linke_id (s_chip sim), ucast (drop_bit 8 model), ucast model,
              0x05, 0x00],
             sim\<lparr>s_attached := True\<rparr>)))
      else if sub = 0x13 then
        ([0x82, 0x0d, 0x05, 0x09],
         if s_attached sim then sim\<lparr>s_resets := s_resets sim + 1\<rparr> else sim)
      else
        ([0x82, 0x0d, 0x05, 0x09], if sub = 0xff then sim\<lparr>s_attached := False\<rparr> else sim))"

definition sim_register :: "u8 list \<Rightarrow> nat \<Rightarrow> wl_sim \<Rightarrow> u8 list \<times> wl_sim" where
  "sim_register request reply_max sim =
     (if length request < 9 then (sim_refuse reply_max, sim)
      else
        (let reg = request ! 3;
             value = word_of (request ! 7) (request ! 6) (request ! 5) (request ! 4);
             operation = request ! 8
         in
           if \<not> s_configured sim then (sim_refuse reply_max, sim)
           else if operation \<noteq> 0x02 \<and> operation \<noteq> 0x01 then (sim_refuse reply_max, sim)
           else
             (let sim' = (if operation = 0x02 then sim_dmi_write reg value sim else sim);
                  v = sim_dmi_read reg sim'
              in ([0x82, 0x08, 0x06, reg] @ be_bytes v @ [0x00], sim'))))"

text \<open>The context is the simulator itself, \<open>None\<close> when it is \<^verbatim>\<open>NULL\<close>.\<close>

definition sim_command ::
  "unit option \<Rightarrow> u8 list \<Rightarrow> nat \<Rightarrow> wl_sim \<Rightarrow> (int \<times> u8 list) \<times> wl_sim" where
  "sim_command cx request reply_max sim =
     (if cx = None \<or> length request < 3 \<or> request ! 0 \<noteq> 0x81 then ((-1, []), sim)
      else
        (let command = request ! 1;
             (reply, sim') =
               (if command = 0x0d then
                  sim_control (if 3 < length request then request ! 3 else 0) sim
                else if command = 0x0c then
                  (if length request < 5 then (sim_refuse reply_max, sim)
                   else ([0x82, 0x0c, 0x02, request ! 3],
                         sim\<lparr>s_chip_id := request ! 3, s_interface_speed := request ! 4,
                             s_configured := True\<rparr>))
                else if command = 0x0b then ([0x82, 0x0b, 0x01], sim\<lparr>s_attached := False\<rparr>)
                else if command = 0x08 then sim_register request reply_max sim
                else (sim_refuse reply_max, sim))
         in ((0, reply), sim')))"

definition sim_bulk_out :: "unit option \<Rightarrow> u8 list \<Rightarrow> wl_sim \<Rightarrow> int \<times> wl_sim" where
  "sim_bulk_out cx data sim = (-1, sim)"

definition sim_transport :: "(unit, wl_sim) wl_transport" where
  "sim_transport = \<lparr>tr_command = sim_command, tr_bulk_out = sim_bulk_out\<rparr>"

section \<open>Construction\<close>

definition wl_sim_new :: "wl_chip_t option \<Rightarrow> wl_sim option" where
  "wl_sim_new chip =
     (case chip of
        None \<Rightarrow> None
      | Some c \<Rightarrow>
          if flash_size c = 0 \<or> ram_size c = 0 then None
          else Some
            \<lparr>s_chip = c, s_flash = replicate (unat (flash_size c)) 0xff,
             s_ram = replicate (unat (ram_size c)) 0, s_configured = False, s_chip_id = 0,
             s_interface_speed = 0, s_attached = False, s_fail_attach_while_attached = False,
             s_resets = 0, s_dmi = (\<lambda>_. 0), s_gpr = (\<lambda>_. 0), s_progbuf = (\<lambda>_. 0), s_pc = 0,
             s_dpc = flash_base c, s_dcsr = 0, s_cmderr = 0, s_key_stage = 0,
             s_mode_key_stage = 0, s_unlocked = False, s_mode_unlocked = False, s_ctlr = 0,
             s_addr = 0, s_page_buf = replicate 64 0xff, s_busy_reads = 0, s_erases = 0,
             s_programs = 0, s_program_errors = 0, s_illegal = 0\<rparr>)"

definition wl_sim_flash_fill :: "nat \<Rightarrow> u8 \<Rightarrow> nat \<Rightarrow> wl_sim \<Rightarrow> wl_sim" where
  "wl_sim_flash_fill off value n sim =
     (if length (s_flash sim) \<le> off then sim
      else
        (let n' = (if length (s_flash sim) < off + n then length (s_flash sim) - off else n)
         in sim\<lparr>s_flash := write_at off (replicate n' value) (s_flash sim)\<rparr>))"

definition wl_sim_flash_poke :: "nat \<Rightarrow> u8 \<Rightarrow> wl_sim \<Rightarrow> wl_sim" where
  "wl_sim_flash_poke off value sim =
     (if off < length (s_flash sim) then sim\<lparr>s_flash := (s_flash sim)[off := value]\<rparr> else sim)"

end
