(* ===== verification/FlashSpec.thy ===== *)
theory FlashSpec
  imports Flash
begin

text \<open>
  What a CH32V00x flash controller does, stated apart from any implementation, the contract that
  a target with such a controller keeps, and the proof that the write sequence of
  \<^verbatim>\<open>src/flash_ch32v0.c\<close> does its job on every target that keeps it.
\<close>

section \<open>The controller\<close>

text \<open>
  The flash array, the page buffer, the control and address registers as last written, how many
  status reads will still report busy, whether both locks are open, whether a write has been
  refused, and everything else of the target that a debugger can see.
\<close>

record 'r fview =
  v_flash :: "u8 list"
  v_buf :: "u8 list"
  v_ctlr :: u32
  v_addr :: u32
  v_busy :: nat
  v_open :: bool
  v_err :: bool
  v_rest :: 'r

definition fc_offset :: "u32 \<Rightarrow> nat" where
  "fc_offset a = unat (a - FB_V)"

definition fc_cells :: "'r fview \<Rightarrow> (u8 \<times> u8) list" where
  "fc_cells v = zip (drop (fc_offset (v_addr v)) (v_flash v)) (v_buf v)"

text \<open>
  A store to the control register: reset of the page buffer, page erase, page program; an
  operation keeps the controller busy for \<open>k\<close> status reads.
\<close>

definition fc_ctlr_store :: "nat \<Rightarrow> u32 \<Rightarrow> 'r fview \<Rightarrow> 'r fview" where
  "fc_ctlr_store k c v =
     (if bit c 19 then v\<lparr>v_ctlr := c, v_buf := replicate 64 0xff, v_busy := k\<rparr>
      else if \<not> bit c 6 then v\<lparr>v_ctlr := c\<rparr>
      else if bit c 17 then
        v\<lparr>v_ctlr := c, v_busy := k,
          v_flash := write_at (fc_offset (v_addr v)) (replicate 64 0xff) (v_flash v)\<rparr>
      else
        v\<lparr>v_ctlr := c, v_busy := k,
          v_flash := write_at (fc_offset (v_addr v)) (map (\<lambda>(old, new). old AND new) (fc_cells v)) (v_flash v),
          v_err := (v_err v \<or> (\<exists>(old, new) \<in> set (fc_cells v). old AND new \<noteq> new))\<rparr>)"

section \<open>The contract\<close>

locale flash_controller = debug_target +
  fixes view :: "'c \<Rightarrow> 'r fview"
    and busy_reads :: nat
  assumes busy_bound: "busy_reads < FLASH_POLL_LIMIT"
    and sizes: "live w \<Longrightarrow> length (v_buf (view (obs w))) = 64 \<and> length (v_flash (view (obs w))) \<le> 0x10000"
    and mem_flash: "i < length (v_flash (view t)) \<Longrightarrow> i < 0x10000 \<Longrightarrow>
       mem t (FB_V + of_nat i) = Some (v_flash (view t) ! i)"
    and statr_load: "live w \<Longrightarrow>
       (bit (fst (r32 FLASH_STATR w)) 0 \<longleftrightarrow> 0 < v_busy (view (obs w))) \<and>
       (bit (fst (r32 FLASH_STATR w)) 4 \<longleftrightarrow> v_err (view (obs w))) \<and>
       view (obs (snd (r32 FLASH_STATR w))) = (view (obs w))\<lparr>v_busy := v_busy (view (obs w)) - 1\<rparr>"
    and ctlr_load: "live w \<Longrightarrow> v_open (view (obs w)) \<Longrightarrow>
       fst (r32 FLASH_CTLR w) = v_ctlr (view (obs w)) AND NOT FLASH_CTLR_LOCK \<and>
       view (obs (snd (r32 FLASH_CTLR w))) = view (obs w)"
    and ctlr_store: "live w \<Longrightarrow> v_open (view (obs w)) \<Longrightarrow> \<not> v_err (view (obs w)) \<Longrightarrow>
       (bit c 6 \<Longrightarrow> (bit c 16 \<or> bit c 17) \<and>
          fc_offset (v_addr (view (obs w))) + 64 \<le> length (v_flash (view (obs w)))) \<Longrightarrow>
       view (obs (w32 FLASH_CTLR c w)) = fc_ctlr_store busy_reads c (view (obs w))"
    and addr_store: "live w \<Longrightarrow> view (obs (w32 FLASH_ADDR a w)) = (view (obs w))\<lparr>v_addr := a\<rparr>"
    and buf_store: "live w \<Longrightarrow> v_open (view (obs w)) \<Longrightarrow> bit (v_ctlr (view (obs w))) 16 \<Longrightarrow>
       4 dvd i \<Longrightarrow> i + 4 \<le> length (v_flash (view (obs w))) \<Longrightarrow>
       view (obs (w32 (FB_V + of_nat i) x w)) =
         (view (obs w))\<lparr>v_buf := write_at (i mod 64) (le_bytes x) (v_buf (view (obs w))),
                       v_busy := busy_reads\<rparr>"
    and keys_store: "live w \<Longrightarrow>
       view (obs (w32 FLASH_MODEKEYR FLASH_KEY2 (w32 FLASH_MODEKEYR FLASH_KEY1
         (w32 FLASH_KEYR FLASH_KEY2 (w32 FLASH_KEYR FLASH_KEY1 w))))) = (view (obs w))\<lparr>v_open := True\<rparr>"

section \<open>The bits of the control register\<close>

lemma bit_flash_bits [simp]:
  "bit FLASH_CTLR_STRT n \<longleftrightarrow> n = 6"
  "bit FLASH_CTLR_LOCK n \<longleftrightarrow> n = 7"
  "bit FLASH_CTLR_PAGE_PG n \<longleftrightarrow> n = 16"
  "bit FLASH_CTLR_PAGE_ER n \<longleftrightarrow> n = 17"
  "bit FLASH_CTLR_BUF_LOAD n \<longleftrightarrow> n = 18"
  "bit FLASH_CTLR_BUF_RST n \<longleftrightarrow> n = 19"
proof -
  have b: "bit (push_bit k 1 :: u32) n \<longleftrightarrow> n = k" if "k < 32" for k
    using that by (auto simp: bit_simps)
  show "bit FLASH_CTLR_STRT n \<longleftrightarrow> n = 6" using b [of 6] by (simp add: flash_bits)
  show "bit FLASH_CTLR_LOCK n \<longleftrightarrow> n = 7" using b [of 7] by (simp add: flash_bits)
  show "bit FLASH_CTLR_PAGE_PG n \<longleftrightarrow> n = 16" using b [of 16] by (simp add: flash_bits)
  show "bit FLASH_CTLR_PAGE_ER n \<longleftrightarrow> n = 17" using b [of 17] by (simp add: flash_bits)
  show "bit FLASH_CTLR_BUF_LOAD n \<longleftrightarrow> n = 18" using b [of 18] by (simp add: flash_bits)
  show "bit FLASH_CTLR_BUF_RST n \<longleftrightarrow> n = 19" using b [of 19] by (simp add: flash_bits)
qed

lemma statr_bits:
  "x AND FLASH_STATR_BSY = 0 \<longleftrightarrow> \<not> bit x 0"
  "x AND FLASH_STATR_WRPRTERR = 0 \<longleftrightarrow> \<not> bit x 4"
  "x AND FLASH_CTLR_LOCK = 0 \<longleftrightarrow> \<not> bit x 7"
  using and_exp_eq_0_iff_not_bit [of x 0] and_exp_eq_0_iff_not_bit [of x 4]
    and_exp_eq_0_iff_not_bit [of x 7]
  by (simp_all add: flash_bits)

text \<open>No operation selected, both locks open, nothing refused, and the last operation done soon.\<close>

definition calm :: "'r fview \<Rightarrow> bool" where
  "calm v \<longleftrightarrow> v_open v \<and> \<not> v_err v \<and> v_busy v < FLASH_POLL_LIMIT \<and>
     \<not> bit (v_ctlr v) 6 \<and> \<not> bit (v_ctlr v) 16 \<and> \<not> bit (v_ctlr v) 17 \<and> \<not> bit (v_ctlr v) 18 \<and>
     \<not> bit (v_ctlr v) 19"

section \<open>Writing page by page\<close>

text \<open>The array once every page below offset \<open>p\<close> has been written.\<close>

definition blend :: "u8 list \<Rightarrow> nat \<Rightarrow> nat \<Rightarrow> u8 list \<Rightarrow> u8 list" where
  "blend img so p F =
     map (\<lambda>j. if so \<le> j \<and> j < so + length img \<and> j < p then img ! (j - so) else F ! j) [0..<length F]"

lemma length_blend [simp]: "length (blend img so p F) = length F"
  by (simp add: blend_def)

lemma nth_blend:
  "j < length F \<Longrightarrow> blend img so p F ! j =
     (if so \<le> j \<and> j < so + length img \<and> j < p then img ! (j - so) else F ! j)"
  by (simp add: blend_def)

lemma blend_start: "p \<le> so \<Longrightarrow> blend img so p F = F"
  by (intro nth_equalityI) (auto simp: nth_blend)

lemma blend_end: "so + length img \<le> p \<Longrightarrow> blend img so p F = write_at so img F"
  by (intro nth_equalityI) (auto simp: nth_blend nth_write_at)

lemma unat_of_nat_flash: "n \<le> 0x10000 \<Longrightarrow> unat (of_nat n :: u32) = n"
  by (simp add: unat_of_nat)

lemma unat_FB_V_plus: "n \<le> 0x10000 \<Longrightarrow> unat (FB_V + of_nat n) = 0x08000000 + n"
  by (simp add: FB_V_def unat_word_ariths unat_of_nat)

lemma fc_offset_plus [simp]: "n \<le> 0x10000 \<Longrightarrow> fc_offset (FB_V + of_nat n) = n"
  by (simp add: fc_offset_def unat_of_nat)

lemma FB_V_less:
  "m \<le> 0x10000 \<Longrightarrow> n \<le> 0x10000 \<Longrightarrow> FB_V + of_nat m < FB_V + of_nat n \<longleftrightarrow> m < n"
  "m \<le> 0x10000 \<Longrightarrow> n \<le> 0x10000 \<Longrightarrow> FB_V + of_nat m \<le> FB_V + of_nat n \<longleftrightarrow> m \<le> n"
  by (simp_all add: word_less_nat_alt word_le_nat_alt unat_FB_V_plus)

lemma FB_V_diff:
  "n \<le> m \<Longrightarrow> m \<le> 0x10000 \<Longrightarrow> unat (FB_V + of_nat m - (FB_V + of_nat n)) = m - n"
  "n \<le> m \<Longrightarrow> m \<le> 0x10000 \<Longrightarrow> unat (of_nat m - of_nat n :: u32) = m - n"
proof -
  assume a: "n \<le> m" "m \<le> 0x10000"
  then have "FB_V + of_nat m - (FB_V + of_nat n) = (of_nat (m - n) :: u32)" by simp
  then show "unat (FB_V + of_nat m - (FB_V + of_nat n)) = m - n"
    using a unat_of_nat_flash [of "m - n"] by simp
  then show "unat (of_nat m - of_nat n :: u32) = m - n" by simp
qed

lemma merge_page_bytes:
  assumes "off + 64 \<le> 0x10000" "so + length img \<le> 0x10000" "i < 64"
  shows "merge_page 64 (FB_V + of_nat so) (FB_V + of_nat (so + length img)) img (FB_V + of_nat off) old ! i =
     (if so \<le> off + i \<and> off + i < so + length img then img ! (off + i - so) else old ! i)"
proof -
  have a: "FB_V + of_nat off + of_nat i = FB_V + of_nat (off + i)" by simp
  show ?thesis
    using assms unfolding merge_page_def
    by (simp only: Let_def nth_map_upt a) (auto simp: FB_V_less FB_V_diff a simp del: of_nat_add)
qed

lemma length_merge_page [simp]: "length (merge_page n start stop img page old) = unat n"
  by (simp add: merge_page_def)

text \<open>Writing one merged page extends the part that is done by that page.\<close>

lemma blend_page:
  assumes "off + 64 \<le> length F" "length F \<le> 0x10000" "so + length img \<le> length F"
    and old: "(so \<le> off \<and> off + 64 \<le> so + length img) \<or> old = take 64 (drop off F)"
  shows "write_at off (merge_page 64 (FB_V + of_nat so) (FB_V + of_nat (so + length img)) img
       (FB_V + of_nat off) old) (blend img so off F) = blend img so (off + 64) F"
proof (intro nth_equalityI)
  fix j assume "j < length (write_at off (merge_page 64 (FB_V + of_nat so)
       (FB_V + of_nat (so + length img)) img (FB_V + of_nat off) old) (blend img so off F))"
  then have j: "j < length F" by simp
  have "merge_page 64 (FB_V + of_nat so) (FB_V + of_nat (so + length img)) img
       (FB_V + of_nat off) old ! (j - off) = blend img so (off + 64) F ! j"
    if "off \<le> j" "j < off + 64"
    using that j assms by (subst merge_page_bytes) (auto simp: nth_blend)
  then show "write_at off (merge_page 64 (FB_V + of_nat so) (FB_V + of_nat (so + length img)) img
       (FB_V + of_nat off) old) (blend img so off F) ! j = blend img so (off + 64) F ! j"
    using j by (auto simp: nth_write_at nth_blend)
qed simp

section \<open>Page operations on a controller that keeps the contract\<close>

context flash_controller
begin

text \<open>The program succeeds and takes the controller from one view to the other.\<close>

definition acts :: "('a, 'b, unit) lprog \<Rightarrow> 'r fview \<Rightarrow> 'r fview \<Rightarrow> bool" where
  "acts m v v' \<longleftrightarrow>
     (\<forall>s. plugged s \<longrightarrow> live (world s) \<longrightarrow> view (obs (world s)) = v \<longrightarrow>
        (\<exists>w. m s = Some (Inr (), s\<lparr>world := w\<rparr>) \<and> live w \<and> view (obs w) = v'))"

lemma actsI:
  assumes "\<And>s. plugged s \<Longrightarrow> live (world s) \<Longrightarrow> view (obs (world s)) = v \<Longrightarrow>
      \<exists>w. m s = Some (Inr (), s\<lparr>world := w\<rparr>) \<and> live w \<and> view (obs w) = v'"
  shows "acts m v v'"
  using assms by (simp add: acts_def)

lemma actsE:
  assumes "acts m v v'" "plugged s" "live (world s)" "view (obs (world s)) = v"
  obtains w where "m s = Some (Inr (), s\<lparr>world := w\<rparr>)" "live w" "view (obs w) = v'"
  using assms unfolding acts_def by blast

lemma acts_seq:
  assumes m: "acts m v v'" and n: "acts n v' v''"
  shows "acts (andDo m n) v v''"
proof (rule actsI)
  fix s :: "('a, 'b) sess"
  assume s: "plugged s" "live (world s)" "view (obs (world s)) = v"
  obtain w where w: "m s = Some (Inr (), s\<lparr>world := w\<rparr>)" "live w" "view (obs w) = v'"
    using actsE [OF m s] .
  obtain w' where "n (s\<lparr>world := w\<rparr>) = Some (Inr (), s\<lparr>world := w\<rparr>\<lparr>world := w'\<rparr>)" "live w'"
    "view (obs w') = v''"
    using actsE [OF n, of "s\<lparr>world := w\<rparr>"] s w by auto
  with w show "\<exists>w. andDo m n s = Some (Inr (), s\<lparr>world := w\<rparr>) \<and> live w \<and> view (obs w) = v''"
    by (auto simp: run)
qed

lemma acts_cleanup:
  assumes m: "acts m v v'" and n: "acts n v' v''"
  shows "acts (cleanup m n) v v''"
proof (rule actsI)
  fix s :: "('a, 'b) sess"
  assume s: "plugged s" "live (world s)" "view (obs (world s)) = v"
  obtain w where w: "m s = Some (Inr (), s\<lparr>world := w\<rparr>)" "live w" "view (obs w) = v'"
    using actsE [OF m s] .
  obtain w' where "n (s\<lparr>world := w\<rparr>) = Some (Inr (), s\<lparr>world := w\<rparr>\<lparr>world := w'\<rparr>)" "live w'"
    "view (obs w') = v''"
    using actsE [OF n, of "s\<lparr>world := w\<rparr>"] s w by auto
  with w show "\<exists>w. cleanup m n s = Some (Inr (), s\<lparr>world := w\<rparr>) \<and> live w \<and> view (obs w) = v''"
    by (auto simp: run)
qed

lemma acts_ret: "acts (ret ()) v v"
proof (rule actsI)
  fix s :: "('a, 'b) sess"
  assume "live (world s)" "view (obs (world s)) = v"
  then show "\<exists>w. ret () s = Some (Inr (), s\<lparr>world := w\<rparr>) \<and> live w \<and> view (obs w) = v"
    by (intro exI [of _ "world s"]) simp
qed

lemma poll_statr_ok:
  assumes "plugged s" "live (world s)" "v_busy (view (obs (world s))) < n"
  shows "\<exists>w st. poll_statr n st0 s = Some (Inr st, s\<lparr>world := w\<rparr>) \<and> live w \<and>
     \<not> bit st 0 \<and> (bit st 4 \<longleftrightarrow> v_err (view (obs (world s)))) \<and>
     view (obs w) = (view (obs (world s)))\<lparr>v_busy := 0\<rparr>"
  using assms
proof (induction n arbitrary: s st0)
  case 0
  then show ?case by simp
next
  case (Suc n)
  let ?v = "view (obs (world s))"
  let ?s' = "s\<lparr>world := snd (r32 FLASH_STATR (world s))\<rparr>"
  note st = statr_load [OF Suc.prems(2)]
  show ?case
  proof (cases "v_busy ?v = 0")
    case True
    then have "?v\<lparr>v_busy := v_busy ?v - 1\<rparr> = ?v\<lparr>v_busy := 0\<rparr>" by simp
    then have "view (obs (snd (r32 FLASH_STATR (world s)))) = ?v\<lparr>v_busy := 0\<rparr>" using st by metis
    then show ?thesis
      using True st Suc.prems
      by (intro exI [of _ "snd (r32 FLASH_STATR (world s))"] exI [of _ "fst (r32 FLASH_STATR (world s))"])
        (simp add: run access_ok statr_bits)
  next
    case False
    then have "v_busy (view (obs (world ?s'))) < n" using st Suc.prems by simp
    with Suc.IH [of ?s' "fst (r32 FLASH_STATR (world s))"] False st Suc.prems show ?thesis
      by (auto simp: run access_ok statr_bits)
  qed
qed

lemma acts_wait_ready:
  assumes "v_busy v < FLASH_POLL_LIMIT" "\<not> v_err v" "v' = v\<lparr>v_busy := 0\<rparr>"
  shows "acts wait_ready v v'"
proof (rule actsI)
  fix s :: "('a, 'b) sess"
  assume "plugged s" "live (world s)" "view (obs (world s)) = v"
  with poll_statr_ok [of s FLASH_POLL_LIMIT 0] assms
  show "\<exists>w. wait_ready s = Some (Inr (), s\<lparr>world := w\<rparr>) \<and> live w \<and> view (obs w) = v'"
    by (auto simp: wait_ready_def run statr_bits)
qed

lemma wait_ready_refused:
  assumes "plugged s" "live (world s)" "v_busy (view (obs (world s))) < FLASH_POLL_LIMIT"
    "v_err (view (obs (world s)))"
  shows "\<exists>w. wait_ready s = Some (Inl WL_ERR_TARGET, s\<lparr>world := w\<rparr>) \<and> live w \<and>
     view (obs w) = (view (obs (world s)))\<lparr>v_busy := 0\<rparr>"
  using poll_statr_ok [OF assms(1-3), of 0] assms(4)
  by (auto simp: wait_ready_def run statr_bits)

text \<open>The value that a read-modify-write of the control register stores.\<close>

definition updated :: "u32 \<Rightarrow> u32 \<Rightarrow> u32 \<Rightarrow> u32" where
  "updated set_bits clear_bits c = (c AND NOT FLASH_CTLR_LOCK OR set_bits) AND NOT clear_bits"

lemma acts_ctlr_update:
  assumes "v_open v" "\<not> v_err v" and "v' = fc_ctlr_store busy_reads (updated a b (v_ctlr v)) v"
    and "bit (updated a b (v_ctlr v)) 6 \<Longrightarrow>
       (bit (updated a b (v_ctlr v)) 16 \<or> bit (updated a b (v_ctlr v)) 17) \<and>
       fc_offset (v_addr v) + 64 \<le> length (v_flash v)"
  shows "acts (ctlr_update a b) v v'"
proof (rule actsI)
  fix s :: "('a, 'b) sess"
  assume s: "plugged s" "live (world s)" "view (obs (world s)) = v"
  note ld = ctlr_load [OF s(2)]
  have "view (obs (w32 FLASH_CTLR (updated a b (v_ctlr v)) (snd (r32 FLASH_CTLR (world s))))) = v'"
    using assms ld s by (subst ctlr_store) simp_all
  then show "\<exists>w. ctlr_update a b s = Some (Inr (), s\<lparr>world := w\<rparr>) \<and> live w \<and> view (obs w) = v'"
    using assms ld s by (simp add: ctlr_update_def run access_ok updated_def)
qed

lemma acts_addr:
  assumes "v' = v\<lparr>v_addr := a\<rparr>"
  shows "acts (wl_dm_write32 FLASH_ADDR a) v v'"
  using assms by (intro actsI) (simp add: access_ok addr_store)

lemma acts_buf:
  assumes "v_open v" "bit (v_ctlr v) 16" "4 dvd i" "i + 4 \<le> length (v_flash v)"
    "v' = v\<lparr>v_buf := write_at (i mod 64) (le_bytes x) (v_buf v), v_busy := busy_reads\<rparr>"
  shows "acts (wl_dm_write32 (FB_V + of_nat i) x) v v'"
  using assms by (intro actsI) (simp add: access_ok buf_store)

lemma acts_unlock: "acts unlock v (v\<lparr>v_open := True\<rparr>)"
proof (rule actsI)
  fix s :: "('a, 'b) sess"
  assume s: "plugged s" "live (world s)" "view (obs (world s)) = v"
  let ?w = "w32 FLASH_MODEKEYR FLASH_KEY2 (w32 FLASH_MODEKEYR FLASH_KEY1
         (w32 FLASH_KEYR FLASH_KEY2 (w32 FLASH_KEYR FLASH_KEY1 (world s))))"
  have v: "view (obs ?w) = v\<lparr>v_open := True\<rparr>" using keys_store s by simp
  then have "fst (r32 FLASH_CTLR ?w) = v_ctlr v AND NOT FLASH_CTLR_LOCK"
    and "view (obs (snd (r32 FLASH_CTLR ?w))) = v\<lparr>v_open := True\<rparr>"
    using ctlr_load [of ?w] s by simp_all
  then show "\<exists>w. unlock s = Some (Inr (), s\<lparr>world := w\<rparr>) \<and> live w \<and> view (obs w) = v\<lparr>v_open := True\<rparr>"
    using s by (simp add: unlock_def run access_ok statr_bits bit_simps)
qed

definition base :: "u32 \<Rightarrow> u32" where
  "base c = c AND NOT FLASH_CTLR_LOCK"

lemma acts_erase_page:
  assumes c: "calm v" and p: "fc_offset page + 64 \<le> length (v_flash v)"
  shows "acts (erase_page_fast page) v (v\<lparr>v_addr := page,
       v_flash := write_at (fc_offset page) (replicate 64 0xff) (v_flash v),
       v_busy := 0, v_ctlr := base (v_ctlr v)\<rparr>)"
proof -
  let ?E = FLASH_CTLR_PAGE_ER and ?S = FLASH_CTLR_STRT
  have final: "updated 0 (?E OR ?S) (updated ?S 0 (updated ?E 0 (v_ctlr v))) = base (v_ctlr v)"
    using c by (intro bit_word_eqI) (auto simp: calm_def updated_def base_def bit_simps)
  let ?v1 = "v\<lparr>v_busy := 0\<rparr>"
  let ?v2 = "?v1\<lparr>v_ctlr := updated ?E 0 (v_ctlr v)\<rparr>"
  let ?v3 = "?v2\<lparr>v_addr := page\<rparr>"
  let ?v4 = "?v3\<lparr>v_ctlr := updated ?S 0 (updated ?E 0 (v_ctlr v)), v_busy := busy_reads,
     v_flash := write_at (fc_offset page) (replicate 64 0xff) (v_flash v)\<rparr>"
  let ?v5 = "?v4\<lparr>v_busy := 0\<rparr>"
  have "acts wait_ready v ?v1" using c by (intro acts_wait_ready) (auto simp: calm_def)
  moreover have "acts (ctlr_update ?E 0) ?v1 ?v2"
    using c by (intro acts_ctlr_update)
      (auto simp: calm_def updated_def bit_simps fc_ctlr_store_def)
  moreover have "acts (wl_dm_write32 FLASH_ADDR page) ?v2 ?v3" by (intro acts_addr) simp
  moreover have "acts (ctlr_update ?S 0) ?v3 ?v4"
    using c p by (intro acts_ctlr_update)
      (auto simp: calm_def updated_def bit_simps fc_ctlr_store_def)
  moreover have "acts wait_ready ?v4 ?v5"
    using c busy_bound by (intro acts_wait_ready) (auto simp: calm_def)
  moreover have "acts (ctlr_update 0 (?E OR ?S)) ?v5 (?v5\<lparr>v_ctlr := base (v_ctlr v)\<rparr>)"
    using c final by (intro acts_ctlr_update)
      (auto simp: calm_def base_def bit_simps fc_ctlr_store_def)
  ultimately have "acts (erase_page_fast page) v (?v5\<lparr>v_ctlr := base (v_ctlr v)\<rparr>)"
    unfolding erase_page_fast_def by (intro acts_cleanup acts_seq)
  then show ?thesis by simp
qed

lemma acts_buffer_reset:
  assumes c: "calm v"
  shows "acts buffer_reset v (v\<lparr>v_buf := replicate 64 0xff, v_busy := 0, v_ctlr := base (v_ctlr v)\<rparr>)"
proof -
  let ?P = FLASH_CTLR_PAGE_PG and ?R = FLASH_CTLR_BUF_RST
  have final: "updated 0 (?P OR ?R) (updated ?R 0 (updated ?P 0 (v_ctlr v))) = base (v_ctlr v)"
    using c by (intro bit_word_eqI) (auto simp: calm_def updated_def base_def bit_simps)
  let ?v1 = "v\<lparr>v_ctlr := updated ?P 0 (v_ctlr v)\<rparr>"
  let ?v2 = "v\<lparr>v_ctlr := updated ?R 0 (updated ?P 0 (v_ctlr v)), v_buf := replicate 64 0xff,
     v_busy := busy_reads\<rparr>"
  let ?v3 = "?v2\<lparr>v_busy := 0\<rparr>"
  have "acts (ctlr_update ?P 0) v ?v1"
    using c by (intro acts_ctlr_update)
      (auto simp: calm_def updated_def bit_simps fc_ctlr_store_def)
  moreover have "acts (ctlr_update ?R 0) ?v1 ?v2"
    using c by (intro acts_ctlr_update)
      (auto simp: calm_def updated_def bit_simps fc_ctlr_store_def)
  moreover have "acts wait_ready ?v2 ?v3"
    using c busy_bound by (intro acts_wait_ready) (auto simp: calm_def)
  moreover have "acts (ctlr_update 0 (?P OR ?R)) ?v3 (?v3\<lparr>v_ctlr := base (v_ctlr v)\<rparr>)"
    using c final by (intro acts_ctlr_update)
      (auto simp: calm_def base_def bit_simps fc_ctlr_store_def)
  ultimately have "acts buffer_reset v (?v3\<lparr>v_ctlr := base (v_ctlr v)\<rparr>)"
    unfolding buffer_reset_def by (intro acts_cleanup acts_seq)
  then show ?thesis by simp
qed

lemma acts_buffer_load:
  assumes c: "calm v" and i: "4 dvd i" "i + 4 \<le> length (v_flash v)"
  shows "acts (buffer_load (FB_V + of_nat i) x) v
     (v\<lparr>v_buf := write_at (i mod 64) (le_bytes x) (v_buf v), v_busy := 0, v_ctlr := base (v_ctlr v)\<rparr>)"
proof -
  let ?P = FLASH_CTLR_PAGE_PG and ?L = FLASH_CTLR_BUF_LOAD
  have final: "updated 0 (?P OR ?L) (updated ?L 0 (updated ?P 0 (v_ctlr v))) = base (v_ctlr v)"
    using c by (intro bit_word_eqI) (auto simp: calm_def updated_def base_def bit_simps)
  let ?v1 = "v\<lparr>v_ctlr := updated ?P 0 (v_ctlr v)\<rparr>"
  let ?v2 = "?v1\<lparr>v_buf := write_at (i mod 64) (le_bytes x) (v_buf v), v_busy := busy_reads\<rparr>"
  let ?v3 = "?v2\<lparr>v_ctlr := updated ?L 0 (updated ?P 0 (v_ctlr v))\<rparr>"
  let ?v4 = "?v3\<lparr>v_busy := 0\<rparr>"
  have "acts (ctlr_update ?P 0) v ?v1"
    using c by (intro acts_ctlr_update)
      (auto simp: calm_def updated_def bit_simps fc_ctlr_store_def)
  moreover have "acts (wl_dm_write32 (FB_V + of_nat i) x) ?v1 ?v2"
    using c i by (intro acts_buf) (auto simp: calm_def updated_def bit_simps)
  moreover have "acts (ctlr_update ?L 0) ?v2 ?v3"
    using c by (intro acts_ctlr_update)
      (auto simp: calm_def updated_def bit_simps fc_ctlr_store_def)
  moreover have "acts wait_ready ?v3 ?v4"
    using c busy_bound by (intro acts_wait_ready) (auto simp: calm_def)
  moreover have "acts (ctlr_update 0 (?P OR ?L)) ?v4 (?v4\<lparr>v_ctlr := base (v_ctlr v)\<rparr>)"
    using c final by (intro acts_ctlr_update)
      (auto simp: calm_def base_def bit_simps fc_ctlr_store_def)
  ultimately have "acts (buffer_load (FB_V + of_nat i) x) v (?v4\<lparr>v_ctlr := base (v_ctlr v)\<rparr>)"
    unfolding buffer_load_def by (intro acts_cleanup acts_seq)
  then show ?thesis by simp
qed

lemma cells_of_erased:
  assumes "take 64 (drop (fc_offset (v_addr v)) (v_flash v)) = replicate 64 0xff" "length (v_buf v) = 64"
  shows "fc_cells v = zip (replicate 64 0xff) (v_buf v)"
proof -
  have "drop (fc_offset (v_addr v)) (v_flash v) =
      replicate 64 0xff @ drop 64 (drop (fc_offset (v_addr v)) (v_flash v))"
    by (metis append_take_drop_id assms(1))
  then have "fc_cells v =
      zip (replicate 64 0xff @ drop 64 (drop (fc_offset (v_addr v)) (v_flash v))) (v_buf v)"
    unfolding fc_cells_def by argo
  also have "\<dots> = zip (replicate 64 0xff) (v_buf v)"
    using assms(2) by (simp only: zip_append1 length_replicate) simp
  finally show ?thesis .
qed

lemma erased_and [simp]: "(0xff :: u8) AND x = x"
proof -
  have "(0xff :: u8) = -1" by simp
  then show ?thesis by (simp only: and.left_neutral)
qed

lemma acts_program_page:
  assumes c: "calm v" and p: "fc_offset page + 64 \<le> length (v_flash v)" and b: "length (v_buf v) = 64"
    and e: "take 64 (drop (fc_offset page) (v_flash v)) = replicate 64 0xff"
  shows "acts (program_page_fast page) v (v\<lparr>v_addr := page,
       v_flash := write_at (fc_offset page) (v_buf v) (v_flash v),
       v_busy := 0, v_ctlr := base (v_ctlr v)\<rparr>)"
proof -
  let ?P = FLASH_CTLR_PAGE_PG and ?S = FLASH_CTLR_STRT
  have final: "updated 0 (?P OR ?S) (updated ?S 0 (updated ?P 0 (v_ctlr v))) = base (v_ctlr v)"
    using c by (intro bit_word_eqI) (auto simp: calm_def updated_def base_def bit_simps)
  let ?v1 = "v\<lparr>v_ctlr := updated ?P 0 (v_ctlr v)\<rparr>"
  let ?v2 = "?v1\<lparr>v_addr := page\<rparr>"
  let ?v3 = "?v2\<lparr>v_ctlr := updated ?S 0 (updated ?P 0 (v_ctlr v)), v_busy := busy_reads,
     v_flash := write_at (fc_offset page) (v_buf v) (v_flash v)\<rparr>"
  let ?v4 = "?v3\<lparr>v_busy := 0\<rparr>"
  have cells: "fc_cells ?v2 = zip (replicate 64 0xff) (v_buf v)"
    using e b by (subst cells_of_erased) simp_all
  have merged: "map (\<lambda>(old, new). old AND new) (fc_cells ?v2) = v_buf v"
    unfolding cells using b by (intro nth_equalityI) simp_all
  have fine: "\<not> (\<exists>(old, new) \<in> set (fc_cells ?v2). old AND new \<noteq> new)"
    unfolding cells by (auto simp: set_zip)
  have "acts (ctlr_update ?P 0) v ?v1"
    using c by (intro acts_ctlr_update)
      (auto simp: calm_def updated_def bit_simps fc_ctlr_store_def)
  moreover have "acts (wl_dm_write32 FLASH_ADDR page) ?v1 ?v2" by (intro acts_addr) simp
  moreover have "fc_ctlr_store busy_reads (updated ?S 0 (updated ?P 0 (v_ctlr v))) ?v2 = ?v3"
    using c merged fine by (auto simp: calm_def updated_def bit_simps fc_ctlr_store_def)
  then have "acts (ctlr_update ?S 0) ?v2 ?v3"
    using c p by (intro acts_ctlr_update) (auto simp: calm_def updated_def bit_simps)
  moreover have "acts wait_ready ?v3 ?v4"
    using c busy_bound by (intro acts_wait_ready) (auto simp: calm_def)
  moreover have "acts (ctlr_update 0 (?P OR ?S)) ?v4 (?v4\<lparr>v_ctlr := base (v_ctlr v)\<rparr>)"
    using c final by (intro acts_ctlr_update)
      (auto simp: calm_def base_def bit_simps fc_ctlr_store_def)
  ultimately have "acts (program_page_fast page) v (?v4\<lparr>v_ctlr := base (v_ctlr v)\<rparr>)"
    unfolding program_page_fast_def by (intro acts_cleanup acts_seq)
  then show ?thesis by simp
qed

lemma base_simps [simp]: "base (base c) = base c" "bit (base c) n \<longleftrightarrow> bit c n \<and> n < 32 \<and> n \<noteq> 7"
  by (auto simp: base_def bit_simps dest: bit_imp_le_length intro!: bit_word_eqI)

text \<open>The controller as the page operations leave it.\<close>

definition rested :: "'r fview \<Rightarrow> bool" where
  "rested v \<longleftrightarrow> calm v \<and> v_busy v = 0 \<and> v_ctlr v = base (v_ctlr v)"

lemma rested_calm: "rested v \<Longrightarrow> calm v"
  by (simp add: rested_def)

lemma calm_rested: "calm v \<Longrightarrow> v' = v\<lparr>v_addr := a, v_flash := f, v_buf := b, v_busy := 0, v_ctlr := base (v_ctlr v)\<rparr> \<Longrightarrow> rested v'"
  by (auto simp: rested_def calm_def FLASH_POLL_LIMIT_def)

lemma rested_updates:
  assumes "rested v"
  shows "v\<lparr>v_buf := b, v_busy := 0, v_ctlr := base (v_ctlr v)\<rparr> = v\<lparr>v_buf := b\<rparr>"
    and "v\<lparr>v_addr := a, v_flash := f, v_busy := 0, v_ctlr := base (v_ctlr v)\<rparr> =
      v\<lparr>v_addr := a, v_flash := f\<rparr>"
  using assms by (cases v; simp add: rested_def)+

lemma acts_load_buffer:
  assumes "rested v" "length (v_buf v) = 64" "length merged = 64" "64 dvd off"
    "off + 64 \<le> length (v_flash v)" "4 dvd i" "i \<le> 64" "take i (v_buf v) = take i merged"
  shows "acts (load_buffer (FB_V + of_nat off) 64 merged i) v (v\<lparr>v_buf := merged\<rparr>)"
  using assms
proof (induction "64 - i" arbitrary: i v rule: less_induct)
  case less
  show ?case
  proof (cases "i < 64")
    case False
    then have "v\<lparr>v_buf := merged\<rparr> = v" using less.prems by simp
    then show ?thesis using False acts_ret [of v] by (simp add: load_buffer.simps)
  next
    case True
    then have i: "i + 4 \<le> 64" using less.prems by (auto elim!: dvdE)
    let ?x = "word_of (merged ! i) (merged ! (i + 1)) (merged ! (i + 2)) (merged ! (i + 3))"
    let ?v = "v\<lparr>v_buf := write_at i (le_bytes ?x) (v_buf v)\<rparr>"
    have m: "(off + i) mod 64 = i" using True less.prems(4) by (auto elim!: dvdE)
    have "acts (buffer_load (FB_V + of_nat (off + i)) ?x) v
       (v\<lparr>v_buf := write_at ((off + i) mod 64) (le_bytes ?x) (v_buf v), v_busy := 0, v_ctlr := base (v_ctlr v)\<rparr>)"
      using less.prems i by (intro acts_buffer_load) (auto intro: rested_calm elim!: dvdE)
    then have one: "acts (buffer_load (FB_V + of_nat off + of_nat i) ?x) v ?v"
      using m by (simp add: rested_updates [OF less.prems(1)] add.assoc)
    have bytes: "le_bytes ?x = take 4 (drop i merged)"
      using i less.prems(3) by (simp add: take4_drop)
    have pre: "v_buf v ! j = merged ! j" if "j < i" for j
      using less.prems(8) that by (metis nth_take)
    have "take (i + 4) (v_buf ?v) = take (i + 4) merged"
      using less.prems(2,3) i unfolding bytes
      by (intro nth_equalityI) (auto simp: nth_write_at pre)
    then have "acts (load_buffer (FB_V + of_nat off) 64 merged (i + 4)) ?v (?v\<lparr>v_buf := merged\<rparr>)"
      using less.prems i True
      by (intro less.hyps) (auto simp: rested_def calm_def)
    then have "acts (load_buffer (FB_V + of_nat off) 64 merged i) v (?v\<lparr>v_buf := merged\<rparr>)"
      using one True by (simp only: load_buffer.simps [of _ _ _ i] if_True) (intro acts_seq)
    then show ?thesis by simp
  qed
qed

lemma write_page_ok:
  assumes s: "plugged s" "live (world s)" "view (obs (world s)) = v" and c: "calm v"
    and off: "64 dvd off" "off + 64 \<le> length (v_flash v)" and sz: "length (v_flash v) \<le> 0x10000"
    and fl: "v_flash v = blend img so off F" and im: "so + length img \<le> length F"
    and so: "so \<le> off + 64"
  shows "\<exists>w v'. write_page progress 64 (FB_V + of_nat so) (FB_V + of_nat (so + length img)) img
       (FB_V + of_nat off) s =
       Some (Inr (), s\<lparr>world := w, calls := calls s @
         called progress (min (off + 64) (so + length img) - so) (length img)\<rparr>) \<and>
     live w \<and> view (obs w) = v' \<and> calm v' \<and> v_flash v' = blend img so (off + 64) F \<and>
     v_rest v' = v_rest v"
proof -
  let ?page = "FB_V + of_nat off :: u32"
  let ?start = "FB_V + of_nat so :: u32" and ?stop = "FB_V + of_nat (so + length img) :: u32"
  define whole where "whole \<longleftrightarrow> ?start \<le> ?page \<and> ?page + 64 \<le> ?stop"
  have lenF: "length (v_flash v) = length F" using fl by simp
  have next_page: "?page + 64 = FB_V + of_nat (off + 64)" by simp
  have whole_iff: "whole \<longleftrightarrow> so \<le> off \<and> off + 64 \<le> so + length img"
    unfolding whole_def next_page using off sz im lenF by (simp add: FB_V_less del: of_nat_add)
  obtain old w0 where w0: "live w0" "obs w0 = obs (world s) \<and>
      (if whole then ret (replicate (unat (64 :: u32)) 0xff) else wl_dm_read_block ?page (unat (64 :: u32))) s =
        Some (Inr old, s\<lparr>world := w0\<rparr>)" and old: "whole \<or> old = take 64 (drop off F)"
  proof (cases whole)
    case True
    then show ?thesis using that [of "world s" "replicate 64 0xff"] s by simp
  next
    case False
    have "holds (obs (world s)) ?page (take 64 (drop off (v_flash v)))"
      unfolding holds_def
    proof (intro allI impI)
      fix i assume "i < length (take 64 (drop off (v_flash v)))"
      then have i: "i < 64" "off + i < length (v_flash v)" using off by auto
      then show "mem (obs (world s)) (?page + of_nat i) = Some (take 64 (drop off (v_flash v)) ! i)"
        using mem_flash [of "off + i" "obs (world s)"] s(3) sz by (simp add: add.assoc)
    qed
    moreover have "take 64 (drop off (v_flash v)) = take 64 (drop off F)"
      using off lenF by (intro nth_equalityI) (auto simp: fl nth_blend)
    ultimately obtain w where "live w" "obs w = obs (world s)"
      "wl_dm_read_block ?page 64 s = Some (Inr (take 64 (drop off F)), s\<lparr>world := w\<rparr>)"
      using read_block_ok [OF s(1,2), of ?page "take 64 (drop off F)" 64] off lenF by auto
    then show ?thesis using that [of w "take 64 (drop off F)"] False by simp
  qed
  let ?m = "merge_page 64 ?start ?stop img ?page old"
  let ?F0 = "write_at off (replicate 64 0xff) (v_flash v)"
  let ?v1 = "v\<lparr>v_addr := ?page, v_flash := ?F0, v_busy := 0, v_ctlr := base (v_ctlr v)\<rparr>"
  let ?v2 = "?v1\<lparr>v_buf := replicate 64 0xff\<rparr>"
  let ?v3 = "?v2\<lparr>v_buf := ?m\<rparr>"
  let ?v4 = "?v3\<lparr>v_addr := ?page, v_flash := write_at off ?m ?F0\<rparr>"
  have off_ok: "off \<le> 0x10000" using off sz by simp
  have r1: "rested ?v1" using c by (auto simp: rested_def calm_def FLASH_POLL_LIMIT_def)
  then have r2: "rested ?v2" and r3: "rested ?v3" by (auto simp: rested_def calm_def)
  have "acts (erase_page_fast ?page) v ?v1"
    using acts_erase_page [OF c, of ?page] off off_ok by simp
  moreover have "acts buffer_reset ?v1 ?v2"
    using acts_buffer_reset [OF rested_calm [OF r1]] unfolding rested_updates(1) [OF r1] .
  moreover have "acts (load_buffer ?page 64 ?m 0) ?v2 ?v3"
    using off r2 by (intro acts_load_buffer) simp_all
  moreover have "acts (program_page_fast ?page) ?v3 ?v4"
    using acts_program_page [OF rested_calm [OF r3], of ?page] off off_ok
      take_drop_write_at [of off "replicate 64 (0xff :: u8)" "v_flash v"]
    unfolding rested_updates(2) [OF r3] by simp
  ultimately have steps: "acts (andDo (erase_page_fast ?page) (andDo buffer_reset
      (andDo (load_buffer ?page 64 ?m 0) (program_page_fast ?page)))) v ?v4"
    by (intro acts_seq)
  obtain w where w: "live w" "view (obs w) = ?v4"
    "andDo (erase_page_fast ?page) (andDo buffer_reset
      (andDo (load_buffer ?page 64 ?m 0) (program_page_fast ?page))) (s\<lparr>world := w0\<rparr>) =
      Some (Inr (), s\<lparr>world := w\<rparr>)"
    using actsE [OF steps, of "s\<lparr>world := w0\<rparr>"] s w0 by auto
  have "write_at off ?m ?F0 = blend img so (off + 64) F"
    using blend_page [of off F so img old] off sz im lenF old whole_iff
    by (simp add: write_at_twice fl)
  moreover have "calm ?v4" using r3 by (auto simp: rested_def calm_def)
  moreover have "write_page progress 64 ?start ?stop img ?page s =
       Some (Inr (), s\<lparr>world := w, calls := calls s @
         called progress (min (off + 64) (so + length img) - so) (length img)\<rparr>)"
  proof -
    let ?R = "report progress (if ?stop \<le> ?page + 64 then length img else unat (?page + 64 - ?start)) (length img)"
    have rest: "andDo (erase_page_fast ?page) (andDo buffer_reset
        (andDo (load_buffer ?page 64 ?m 0) (andDo (program_page_fast ?page) ?R))) (s\<lparr>world := w0\<rparr>) =
        ?R (s\<lparr>world := w\<rparr>)"
      using w(3) by (simp only: andThen_assoc [symmetric])
        (simp add: andThen_def [of "andThen _ _"])
    have amount: "(if ?stop \<le> ?page + 64 then length img else unat (?page + 64 - ?start)) =
        min (off + 64) (so + length img) - so"
      unfolding next_page using off sz im lenF so
      by (auto simp: FB_V_less FB_V_diff simp del: of_nat_add)
    have "write_page progress 64 ?start ?stop img ?page s =
        andDo (erase_page_fast ?page) (andDo buffer_reset
        (andDo (load_buffer ?page 64 ?m 0) (andDo (program_page_fast ?page) ?R))) (s\<lparr>world := w0\<rparr>)"
      using w0(2) unfolding write_page_def Let_def whole_def [symmetric]
      by (simp add: andThen_def [of "if _ then _ else _"])
    from this rest have "write_page progress 64 ?start ?stop img ?page s = ?R (s\<lparr>world := w\<rparr>)"
      by (rule trans)
    then show ?thesis unfolding amount by (simp add: report_def)
  qed
  ultimately show ?thesis using w by (intro exI [of _ w] exI [of _ ?v4]) simp
qed

end

section \<open>The page loop and the commands above it\<close>

lemma page_of_address:
  assumes "so \<le> 0x10000"
  shows "(FB_V + of_nat so) AND NOT (0x40 - 1) = FB_V + of_nat (64 * (so div 64))"
proof -
  let ?a = "FB_V + of_nat so :: u32"
  have m: "(0x40 - 1 :: u32) = mask 6" by (simp add: mask_eq_exp_minus_1)
  have "?a AND NOT (mask 6) = ?a AND NOT (?a AND mask 6)"
    by (rule bit_word_eqI) (auto simp: bit_simps)
  also have "\<dots> = ?a - (?a AND mask 6)"
    by (rule disjunctive_diff_eq_and_not [symmetric]) (rule bit_word_eqI, auto simp: bit_simps)
  also have "?a AND mask 6 = of_nat (so mod 64)"
  proof -
    have "unat (?a AND mask 6) = (0x08000000 + so) mod 64"
      using assms by (simp only: and_mask_unat unat_FB_V_plus) simp
    also have "\<dots> = so mod 64" by (simp add: mod_add_left_eq [symmetric])
    finally show ?thesis by (metis of_nat_unat ucast_id)
  qed
  also have "?a - of_nat (so mod 64) = FB_V + of_nat (64 * (so div 64))"
  proof -
    have "of_nat so = (of_nat (64 * (so div 64)) + of_nat (so mod 64) :: u32)"
      by (simp only: of_nat_add [symmetric] mult_div_mod_eq)
    then show ?thesis by (simp only: add.assoc [symmetric] add_diff_cancel_right')
  qed
  finally show ?thesis unfolding m .
qed

definition page_calls ::
  "progress_fn option \<Rightarrow> nat \<Rightarrow> nat \<Rightarrow> nat \<Rightarrow> (progress_fn \<times> nat \<times> nat) list" where
  "page_calls progress so n k =
     concat (map (\<lambda>j. called progress (min (64 * j + 64) (so + n) - so) n) [k..<(so + n + 63) div 64])"

lemma page_calls_none [simp]: "page_calls None so n k = []"
  by (simp add: page_calls_def called_def concat_eq_Nil_conv)

lemma page_calls_step:
  "64 * k < so + n \<Longrightarrow> page_calls progress so n k =
     called progress (min (64 * k + 64) (so + n) - so) n @ page_calls progress so n (Suc k)"
  by (simp add: page_calls_def upt_conv_Cons)

lemma page_calls_stop: "so + n \<le> 64 * k \<Longrightarrow> page_calls progress so n k = []"
  by (simp add: page_calls_def)

lemma normalise_FB_V:
  assumes "flash_base chip = FB_V" "wl_flash_range_ok (Some chip) addr n"
    "unat (flash_size chip) \<le> 0x10000"
  obtains so where "normalise chip addr = FB_V + of_nat so" "so + n \<le> unat (flash_size chip)"
proof (rule that)
  let ?a = "normalise chip addr"
  have r: "FB_V \<le> ?a" "unat ?a + n \<le> unat FB_V + unat (flash_size chip)"
    using assms by (auto simp: range_ok_unfold Let_def split: if_splits)
  then have "unat FB_V \<le> unat ?a" by (simp add: word_le_nat_alt)
  have eq: "unat (?a - FB_V) = unat ?a - unat FB_V" by (rule unat_sub [OF r(1)])
  show "?a = FB_V + of_nat (unat (?a - FB_V))" by simp
  show "unat (?a - FB_V) + n \<le> unat (flash_size chip)"
    unfolding eq using r \<open>unat FB_V \<le> unat ?a\<close> by simp
qed

context flash_controller
begin

lemma write_pages_ok:
  assumes "plugged s" "live (world s)" "calm (view (obs (world s)))"
    and "v_flash (view (obs (world s))) = blend img so (64 * k) F"
    and "64 dvd length F" "length F \<le> 0x10000" "so + length img \<le> length F" "so \<le> 64 * k + 64"
    and "64 * k \<le> length F"
  shows "\<exists>w. write_pages progress 64 (FB_V + of_nat so) (FB_V + of_nat (so + length img)) img
       (FB_V + of_nat (64 * k)) s =
       Some (Inr (), s\<lparr>world := w, calls := calls s @ page_calls progress so (length img) k\<rparr>) \<and>
     live w \<and> calm (view (obs w)) \<and> v_flash (view (obs w)) = write_at so img F \<and>
     v_rest (view (obs w)) = v_rest (view (obs (world s)))"
  using assms
proof (induction "length F - 64 * k" arbitrary: k s rule: less_induct)
  case less
  let ?start = "FB_V + of_nat so :: u32" and ?stop = "FB_V + of_nat (so + length img) :: u32"
  let ?page = "FB_V + of_nat (64 * k) :: u32"
  have lt: "?page < ?stop \<longleftrightarrow> 64 * k < so + length img"
    using less.prems(6,7,9) by (intro FB_V_less(1)) simp_all
  show ?case
  proof (cases "64 * k < so + length img")
    case False
    then have "write_pages progress 64 ?start ?stop img ?page s = Some (Inr (), s)"
      by (subst write_pages.simps) (simp only: lt if_False)
    then show ?thesis
      using False less.prems by (intro exI [of _ "world s"]) (simp add: blend_end page_calls_stop)
  next
    case True
    have room: "64 * k + 64 \<le> length F"
    proof -
      obtain q where "length F = 64 * q" using less.prems(5) by (rule dvdE)
      moreover from this have "k < q" using True less.prems(7) by linarith
      ultimately show ?thesis by simp
    qed
    obtain w where w: "write_page progress 64 ?start ?stop img ?page s =
       Some (Inr (), s\<lparr>world := w, calls := calls s @
         called progress (min (64 * k + 64) (so + length img) - so) (length img)\<rparr>)"
      "live w" "calm (view (obs w))" "v_flash (view (obs w)) = blend img so (64 * Suc k) F"
      "v_rest (view (obs w)) = v_rest (view (obs (world s)))"
      using write_page_ok [OF less.prems(1,2) refl less.prems(3), of "64 * k" img so F progress]
        less.prems room by (auto simp: add.commute)
    let ?s = "s\<lparr>world := w, calls := calls s @
         called progress (min (64 * k + 64) (so + length img) - so) (length img)\<rparr>"
    have next_page: "?page + 64 = FB_V + of_nat (64 * Suc k)" by simp
    have less_left: "length F - 64 * Suc k < length F - 64 * k" using room by simp
    obtain w' where "write_pages progress 64 ?start ?stop img (?page + 64) ?s =
        Some (Inr (), ?s\<lparr>world := w', calls := calls ?s @ page_calls progress so (length img) (Suc k)\<rparr>)"
      "live w'" "calm (view (obs w'))" "v_flash (view (obs w')) = write_at so img F"
      "v_rest (view (obs w')) = v_rest (view (obs (world ?s)))"
      using less.hyps [OF less_left, of ?s] less.prems room w unfolding next_page by auto
    moreover have "write_pages progress 64 ?start ?stop img ?page s =
        write_pages progress 64 ?start ?stop img (?page + 64) ?s"
      using True w(1) by (subst write_pages.simps) (simp only: lt if_True, simp add: andThen_def)
    ultimately show ?thesis
      using w page_calls_step [OF True, of progress] by (intro exI [of _ w']) simp
  qed
qed

lemma ch32v0_write_ok:
  assumes s: "plugged s" "live (world s)" "calm ((view (obs (world s)))\<lparr>v_open := True\<rparr>)"
    and ch: "erase_size chip = 64"
    and F: "v_flash (view (obs (world s))) = F" "64 dvd length F" "so + length img \<le> length F"
  shows "\<exists>w. wl_flash_ch32v0_write chip (FB_V + of_nat so) img progress s =
       Some (Inr (), s\<lparr>world := w, calls := calls s @ page_calls progress so (length img) (so div 64)\<rparr>) \<and>
     live w \<and> calm (view (obs w)) \<and> v_flash (view (obs w)) = write_at so img F \<and>
     v_rest (view (obs w)) = v_rest (view (obs (world s)))"
proof -
  have sz: "length F \<le> 0x10000" using sizes [OF s(2)] F by simp
  obtain w where w: "unlock s = Some (Inr (), s\<lparr>world := w\<rparr>)" "live w"
    "view (obs w) = (view (obs (world s)))\<lparr>v_open := True\<rparr>"
    using actsE [OF acts_unlock s(1,2) refl] .
  have k: "so \<le> 64 * (so div 64) + 64" "64 * (so div 64) \<le> so" by simp_all
  have page: "(FB_V + of_nat so) AND NOT (0x40 - 1) = FB_V + of_nat (64 * (so div 64))"
    using sz F by (intro page_of_address) simp
  have "write_pages progress 64 (FB_V + of_nat so) (FB_V + of_nat (so + length img)) img
       (FB_V + of_nat (64 * (so div 64))) (s\<lparr>world := w\<rparr>) =
     wl_flash_ch32v0_write chip (FB_V + of_nat so) img progress s"
    using w(1) unfolding wl_flash_ch32v0_write_def Let_def ch page
    by (simp add: andThen_def FLASH_MERGE_MAX_def add.assoc)
  moreover obtain w' where "write_pages progress 64 (FB_V + of_nat so) (FB_V + of_nat (so + length img)) img
       (FB_V + of_nat (64 * (so div 64))) (s\<lparr>world := w\<rparr>) =
     Some (Inr (), s\<lparr>world := w\<rparr>\<lparr>world := w', calls := calls s @ page_calls progress so (length img) (so div 64)\<rparr>)"
     "live w'" "calm (view (obs w'))" "v_flash (view (obs w')) = write_at so img F"
     "v_rest (view (obs w')) = v_rest (view (obs (world s)))"
    using write_pages_ok [of "s\<lparr>world := w\<rparr>" img so "so div 64" F progress] s w F sz k
    by (auto simp: blend_start)
  ultimately show ?thesis by (intro exI [of _ w']) simp
qed

text \<open>The same, entered through the chip table and with any alias of the address.\<close>

lemma flash_write_ok:
  assumes s: "plugged s" "live (world s)" "calm ((view (obs (world s)))\<lparr>v_open := True\<rparr>)"
    and ch: "chip_ok c" "algo c = WL_FLASH_CH32V0" "unat (flash_size c) = length F"
    and F: "v_flash (view (obs (world s))) = F"
    and r: "wl_flash_range_ok (Some c) addr (length img)" "img \<noteq> []"
  shows "\<exists>w so. normalise c addr = FB_V + of_nat so \<and> so + length img \<le> length F \<and>
     wl_flash_write (Some c) addr (Some img) progress s =
       Some (Inr (), s\<lparr>world := w, calls := calls s @ page_calls progress so (length img) (so div 64)\<rparr>) \<and>
     live w \<and> calm (view (obs w)) \<and> v_flash (view (obs w)) = write_at so img F \<and>
     v_rest (view (obs w)) = v_rest (view (obs (world s)))"
proof -
  obtain so where so: "normalise c addr = FB_V + of_nat so" "so + length img \<le> unat (flash_size c)"
    using ch r by (auto simp: chip_ok_def intro: normalise_FB_V [of c addr "length img"])
  have "wl_flash_write (Some c) addr (Some img) progress s =
      wl_flash_ch32v0_write c (FB_V + of_nat so) img progress s"
    using r ch so by (simp add: wl_flash_write_def)
  then show ?thesis
    using ch32v0_write_ok [OF s, of c F so img progress] ch F so by (auto simp: chip_ok_def)
qed

end

context flash_controller
begin

text \<open>The whole flash command.\<close>

lemma write_flash_ok:
  assumes s: "plugged s" "idle (world s)" "set_for c s \<Longrightarrow> ready (world s)"
    and v: "calm ((view (obs (world s)))\<lparr>v_open := True\<rparr>)" "v_flash (view (obs (world s))) = F"
    and ch: "chip_ok c" "algo c = WL_FLASH_CH32V0" "unat (flash_size c) = length F"
    and r: "wl_flash_range_ok (Some c) addr (length img)" "img \<noteq> []"
  shows "\<exists>s' so w. wl_linke_write_flash (Some c) addr (Some img) verify wp vp s = Some (Inr (), s') \<and>
     normalise c addr = FB_V + of_nat so \<and> so + length img \<le> length F \<and>
     plugged s' \<and> live (world s') \<and> set_for c s' \<and> calm (view (obs (world s'))) \<and>
     v_flash (view (obs (world s'))) = write_at so img F \<and>
     v_rest (view (obs (world s'))) = v_rest (view (obs (world s))) \<and>
     world s' = ctl 0x0d 0xff (ctl 0x0d 0x02 (ctl 0x0b 0x01 w)) \<and>
     calls s' = calls s @ page_calls wp so (length img) (so div 64) @
       (if verify then verify_calls vp (length img) 0 else [])"
proof -
  obtain s1 where s1: "andDo (wl_linke_set_interface (Some c)) wl_linke_halt s = Some (Inr (), s1)"
    "plugged s1" "live (world s1)" "obs (world s1) = obs (world s)" "calls s1 = calls s" "set_for c s1"
    using set_and_halt [OF s] by auto
  obtain so w where so: "normalise c addr = FB_V + of_nat so" "so + length img \<le> length F"
    and w: "wl_flash_write (Some c) addr (Some img) wp s1 =
      Some (Inr (), s1\<lparr>world := w, calls := calls s @ page_calls wp so (length img) (so div 64)\<rparr>)"
    "live w" "calm (view (obs w))" "v_flash (view (obs w)) = write_at so img F"
    "v_rest (view (obs w)) = v_rest (view (obs (world s)))"
    using flash_write_ok [of s1 c F addr img wp] s1 v ch r by auto
  let ?s2 = "s1\<lparr>world := w, calls := calls s @ page_calls wp so (length img) (so div 64)\<rparr>"
  have sz: "length F \<le> 0x10000" using sizes [OF w(2)] w(4) by simp
  have "holds (obs w) (normalise c addr) img"
    unfolding holds_def so(1)
  proof (intro allI impI)
    fix i assume "i < length img"
    then show "mem (obs w) (FB_V + of_nat so + of_nat i) = Some (img ! i)"
      using mem_flash [of "so + i" "obs w"] w(4) so(2) sz by (simp add: add.assoc nth_write_at)
  qed
  then obtain s3 where s3: "(if verify then wl_flash_verify (Some c) addr (Some img) vp else ret ()) ?s2 =
      Some (Inr (), s3)" "plugged s3" "live (world s3)" "obs (world s3) = obs w" "set_for c s3"
    "calls s3 = calls ?s2 @ (if verify then verify_calls vp (length img) 0 else [])"
    using verify_ok [of ?s2 c addr img img vp] s1 w(2)
    by (cases verify) (auto simp: live_def set_for_def)
  let ?s4 = "s3\<lparr>world := ctl 0x0d 0xff (ctl 0x0d 0x02 (ctl 0x0b 0x01 (world s3)))\<rparr>"
  have "wl_linke_write_flash (Some c) addr (Some img) verify wp vp s =
      andThen (andDo (wl_linke_set_interface (Some c)) wl_linke_halt)
        (\<lambda>_. andDo (wl_flash_write (Some c) addr (Some img) wp)
          (cleanup (if verify then wl_flash_verify (Some c) addr (Some img) vp else ret ()) wl_linke_resume)) s"
    by (simp add: wl_linke_write_flash_def andThen_assoc)
  also have "\<dots> = cleanup (if verify then wl_flash_verify (Some c) addr (Some img) vp else ret ())
       wl_linke_resume ?s2"
    by (simp only: andThen_def [of "andThen _ _"] s1(1)) (simp add: andThen_def w(1))
  also have "\<dots> = Some (Inr (), ?s4)"
    by (simp add: cleanup_def attempt_def s3(1) resume_ok s3(2) del: if_split)
  finally have "wl_linke_write_flash (Some c) addr (Some img) verify wp vp s = Some (Inr (), ?s4)" .
  then show ?thesis
    using so s1 w s3
    by (intro exI [of _ ?s4] exI [of _ so] exI [of _ "world s3"])
      (simp add: live_def ready_ctl idle_ctl obs_ctl set_for_def)
qed

end
end
