(* ===== verification/SimContracts.thy ===== *)
theory SimContracts
  imports SimProgrammer FlashSpec
begin

text \<open>
  The simulated programmer of \<^verbatim>\<open>tests/sim_programmer.c\<close> keeps the three contracts of the
  protocol layers: it answers requests (\<open>linke_programmer\<close>), its memory can be read and written
  through the two-instruction programs of the debug module (\<open>debug_target\<close>), and its flash
  registers behave as the abstract controller (\<open>flash_controller\<close>).
\<close>

section \<open>What can be observed of the simulated target\<close>

text \<open>\<open>observed\<close> keeps what the software of the target and the flash controller see: both memories,
  the controller's registers and counters, \<open>dpc\<close> and \<open>dcsr\<close>, the resets and the command error.  It
  leaves out what is not theirs: the interface setting, whether the target is attached (halted), the
  debug module's registers and program buffer, and the core registers, two of which (x8 and x9)
  every memory access uses.  Where those matter, \<open>accessed\<close> of the theory \<^verbatim>\<open>SimRegs\<close> says exactly which
  of them may change.\<close>

definition observed :: "wl_sim \<Rightarrow> wl_sim" where
  "observed w = w\<lparr>s_configured := False, s_chip_id := 0, s_interface_speed := 0, s_attached := False,
     s_dmi := (\<lambda>_. 0), s_gpr := (\<lambda>_. 0), s_progbuf := (\<lambda>_. 0), s_pc := 0\<rparr>"

definition sim_ctl :: "u8 \<Rightarrow> u8 \<Rightarrow> wl_sim \<Rightarrow> wl_sim" where
  "sim_ctl c k w = (if c = 0x0d then snd (sim_control k w) else w\<lparr>s_attached := False\<rparr>)"

definition sim_iface :: "u8 \<Rightarrow> u8 \<Rightarrow> wl_sim \<Rightarrow> wl_sim" where
  "sim_iface f sp w = w\<lparr>s_chip_id := f, s_interface_speed := sp, s_configured := True\<rparr>"

lemma observed_fields [simp]:
  "s_chip (observed w) = s_chip w" "s_flash (observed w) = s_flash w" "s_ram (observed w) = s_ram w"
  "s_resets (observed w) = s_resets w" "s_cmderr (observed w) = s_cmderr w"
  "s_key_stage (observed w) = s_key_stage w" "s_mode_key_stage (observed w) = s_mode_key_stage w"
  "s_unlocked (observed w) = s_unlocked w" "s_mode_unlocked (observed w) = s_mode_unlocked w"
  "s_ctlr (observed w) = s_ctlr w" "s_addr (observed w) = s_addr w"
  "s_page_buf (observed w) = s_page_buf w" "s_busy_reads (observed w) = s_busy_reads w"
  "s_erases (observed w) = s_erases w" "s_programs (observed w) = s_programs w"
  "s_program_errors (observed w) = s_program_errors w" "s_illegal (observed w) = s_illegal w"
  by (simp_all add: observed_def)

lemma observed_upd [simp]:
  "observed (w\<lparr>s_dmi := d\<rparr>) = observed w" "observed (w\<lparr>s_gpr := g\<rparr>) = observed w"
  "observed (w\<lparr>s_progbuf := p\<rparr>) = observed w" "observed (w\<lparr>s_pc := n\<rparr>) = observed w"
  "observed (w\<lparr>s_attached := at\<rparr>) = observed w"
  "observed (w\<lparr>s_chip_id := f, s_interface_speed := sp, s_configured := cf\<rparr>) = observed w"
  by (cases w; simp add: observed_def)+

lemma observed_push [simp]:
  "observed (w\<lparr>s_flash := f\<rparr>) = (observed w)\<lparr>s_flash := f\<rparr>"
  "observed (w\<lparr>s_ram := r\<rparr>) = (observed w)\<lparr>s_ram := r\<rparr>"
  "observed (w\<lparr>s_resets := n\<rparr>) = (observed w)\<lparr>s_resets := n\<rparr>"
  "observed (w\<lparr>s_key_stage := n\<rparr>) = (observed w)\<lparr>s_key_stage := n\<rparr>"
  "observed (w\<lparr>s_mode_key_stage := n\<rparr>) = (observed w)\<lparr>s_mode_key_stage := n\<rparr>"
  "observed (w\<lparr>s_unlocked := b\<rparr>) = (observed w)\<lparr>s_unlocked := b\<rparr>"
  "observed (w\<lparr>s_mode_unlocked := b\<rparr>) = (observed w)\<lparr>s_mode_unlocked := b\<rparr>"
  "observed (w\<lparr>s_ctlr := n\<rparr>) = (observed w)\<lparr>s_ctlr := n\<rparr>"
  "observed (w\<lparr>s_addr := n\<rparr>) = (observed w)\<lparr>s_addr := n\<rparr>"
  "observed (w\<lparr>s_page_buf := f\<rparr>) = (observed w)\<lparr>s_page_buf := f\<rparr>"
  "observed (w\<lparr>s_busy_reads := n\<rparr>) = (observed w)\<lparr>s_busy_reads := n\<rparr>"
  "observed (w\<lparr>s_erases := n\<rparr>) = (observed w)\<lparr>s_erases := n\<rparr>"
  "observed (w\<lparr>s_programs := n\<rparr>) = (observed w)\<lparr>s_programs := n\<rparr>"
  "observed (w\<lparr>s_program_errors := n\<rparr>) = (observed w)\<lparr>s_program_errors := n\<rparr>"
  "observed (w\<lparr>s_illegal := n\<rparr>) = (observed w)\<lparr>s_illegal := n\<rparr>"
  by (cases w; simp add: observed_def)+

lemma observed_if: "observed (if b then x else y) = (if b then observed x else observed y)"
  by simp

lemmas observed_pull = observed_push [symmetric]

lemma observed_program_bytes: "program_bytes off bs (observed w) = observed (program_bytes off bs w)"
  by (simp only: program_bytes_def Let_def observed_fields observed_pull)

lemma observed_erase: "sim_erase n (observed w) = observed (sim_erase n w)"
  by (simp only: sim_erase_def observed_fields observed_pull)

lemma observed_program_page:
  "sim_flash_program_page (observed w) = observed (sim_flash_program_page w)"
  by (simp only: sim_flash_program_page_def Let_def observed_if observed_fields observed_pull
      observed_program_bytes)

lemma observed_ctlr_write: "sim_ctlr_write v (observed w) = observed (sim_ctlr_write v w)"
proof -
  have "(if b then (observed x)\<lparr>s_page_buf := p\<rparr> else (observed x)\<lparr>s_program_errors := n\<rparr>)\<lparr>s_busy_reads := k\<rparr> =
    observed ((if b then x\<lparr>s_page_buf := p\<rparr> else x\<lparr>s_program_errors := n\<rparr>)\<lparr>s_busy_reads := k\<rparr>)"
    for b x p n k by simp
  then show ?thesis
  by (simp only: sim_ctlr_write_def Let_def observed_if observed_fields observed_pull
      observed_program_page observed_erase)
qed

lemma observed_ctrl_write: "sim_ctrl_write a v (observed w) = observed (sim_ctrl_write a v w)"
  by (simp only: sim_ctrl_write_def observed_if observed_fields observed_pull observed_ctlr_write)

lemma observed_ctrl_read:
  "sim_ctrl_read a (observed w) = apsnd observed (sim_ctrl_read a w)"
  by (simp add: sim_ctrl_read_def Let_def)

lemma apsnd_if: "apsnd f (if b then x else y) = (if b then apsnd f x else apsnd f y)"
  by simp

lemma observed_is_ram: "sim_is_ram (observed w) a = sim_is_ram w a"
  by (simp only: sim_is_ram_def observed_fields)

lemma observed_access:
  "sim_access a n wr v (observed w) = apsnd observed (sim_access a n wr v w)"
  by (simp only: sim_access_def Let_def observed_ctrl_write observed_ctrl_read observed_is_ram
      observed_program_bytes observed_fields observed_pull apsnd_if apsnd_conv)

section \<open>What an access of the core leaves alone\<close>

definition kept where
  "kept w = ((s_chip w, s_configured w, s_chip_id w, s_interface_speed w, s_attached w,
      s_fail_attach_while_attached w, s_resets w, s_dmi w, s_gpr w, s_progbuf w),
     (s_pc w, s_dpc w, s_dcsr w, s_cmderr w, s_illegal w, length (s_flash w), length (s_ram w)))"

lemma kept_upd [simp]:
  "length f = length (s_flash w) \<Longrightarrow> kept (w\<lparr>s_flash := f\<rparr>) = kept w"
  "length r = length (s_ram w) \<Longrightarrow> kept (w\<lparr>s_ram := r\<rparr>) = kept w"
  "kept (w\<lparr>s_key_stage := n\<rparr>) = kept w"
  "kept (w\<lparr>s_mode_key_stage := n\<rparr>) = kept w"
  "kept (w\<lparr>s_unlocked := b\<rparr>) = kept w"
  "kept (w\<lparr>s_mode_unlocked := b\<rparr>) = kept w"
  "kept (w\<lparr>s_ctlr := n\<rparr>) = kept w"
  "kept (w\<lparr>s_addr := n\<rparr>) = kept w"
  "kept (w\<lparr>s_page_buf := f'\<rparr>) = kept w"
  "kept (w\<lparr>s_busy_reads := n\<rparr>) = kept w"
  "kept (w\<lparr>s_erases := n\<rparr>) = kept w"
  "kept (w\<lparr>s_programs := n\<rparr>) = kept w"
  "kept (w\<lparr>s_program_errors := n\<rparr>) = kept w"
  by (simp_all add: kept_def)

lemma kept_if: "kept (if b then x else y) = (if b then kept x else kept y)"
  by simp

lemma snd_if: "snd (if b then x else y) = (if b then snd x else snd y)"
  by simp

lemma kept_program_bytes [simp]: "kept (program_bytes off bs w) = kept w"
  by (simp only: program_bytes_def Let_def kept_upd length_write_at)

lemma kept_erase [simp]: "kept (sim_erase n w) = kept w"
  by (simp only: sim_erase_def kept_upd length_write_at)

lemma kept_program_page [simp]: "kept (sim_flash_program_page w) = kept w"
  by (simp only: sim_flash_program_page_def Let_def kept_if kept_upd kept_program_bytes if_cancel)

lemma kept_ctlr_write [simp]: "kept (sim_ctlr_write v w) = kept w"
  by (simp only: sim_ctlr_write_def Let_def kept_if kept_upd kept_program_page kept_erase if_cancel)

lemma kept_ctrl_write [simp]: "kept (sim_ctrl_write a v w) = kept w"
  by (simp only: sim_ctrl_write_def kept_if kept_upd kept_ctlr_write if_cancel)

lemma kept_ctrl_read [simp]: "kept (snd (sim_ctrl_read a w)) = kept w"
  by (simp only: sim_ctrl_read_def Let_def kept_if kept_upd snd_if split_def snd_conv if_cancel)

lemma kept_access [simp]: "kept (snd (sim_access a n wr v w)) = kept w"
  by (simp only: sim_access_def Let_def kept_if kept_upd snd_if snd_conv kept_program_bytes
      kept_ctrl_write kept_ctrl_read length_write_at if_cancel)

lemma access_kept [simp]:
  "s_chip (snd (sim_access a n wr v w)) = s_chip w"
  "s_configured (snd (sim_access a n wr v w)) = s_configured w"
  "s_attached (snd (sim_access a n wr v w)) = s_attached w"
  "s_resets (snd (sim_access a n wr v w)) = s_resets w"
  "s_dmi (snd (sim_access a n wr v w)) = s_dmi w"
  "s_gpr (snd (sim_access a n wr v w)) = s_gpr w"
  "s_progbuf (snd (sim_access a n wr v w)) = s_progbuf w"
  "s_pc (snd (sim_access a n wr v w)) = s_pc w"
  "s_cmderr (snd (sim_access a n wr v w)) = s_cmderr w"
  "s_illegal (snd (sim_access a n wr v w)) = s_illegal w"
  "length (s_flash (snd (sim_access a n wr v w))) = length (s_flash w)"
  "length (s_ram (snd (sim_access a n wr v w))) = length (s_ram w)"
  using kept_access [of a n wr v w] unfolding kept_def by blast+

text \<open>The page buffer keeps its size.\<close>

definition buf64 :: "wl_sim \<Rightarrow> bool" where
  "buf64 w \<longleftrightarrow> length (s_page_buf w) = 64"

lemma buf64_upd [simp]:
  "buf64 (w\<lparr>s_flash := f\<rparr>) = buf64 w" "buf64 (w\<lparr>s_ram := f\<rparr>) = buf64 w"
  "buf64 (w\<lparr>s_key_stage := n\<rparr>) = buf64 w" "buf64 (w\<lparr>s_mode_key_stage := n\<rparr>) = buf64 w"
  "buf64 (w\<lparr>s_unlocked := b\<rparr>) = buf64 w" "buf64 (w\<lparr>s_mode_unlocked := b\<rparr>) = buf64 w"
  "buf64 (w\<lparr>s_ctlr := n\<rparr>) = buf64 w" "buf64 (w\<lparr>s_addr := n\<rparr>) = buf64 w"
  "buf64 (w\<lparr>s_page_buf := p\<rparr>) = (length p = 64)"
  "buf64 (w\<lparr>s_busy_reads := n\<rparr>) = buf64 w" "buf64 (w\<lparr>s_erases := n\<rparr>) = buf64 w"
  "buf64 (w\<lparr>s_programs := n\<rparr>) = buf64 w" "buf64 (w\<lparr>s_program_errors := n\<rparr>) = buf64 w"
  by (simp_all add: buf64_def)

lemma buf64_if: "buf64 (if b then x else y) = (if b then buf64 x else buf64 y)"
  by simp

lemma buf64_ctlr [simp]:
  "buf64 (program_bytes off bs w) = buf64 w" "buf64 (sim_erase n w) = buf64 w"
  "buf64 (sim_flash_program_page w) = buf64 w"
  by (simp_all only: program_bytes_def sim_erase_def sim_flash_program_page_def Let_def buf64_upd
      buf64_if if_cancel)

lemma buf64_access: "buf64 w \<Longrightarrow> buf64 (snd (sim_access a n wr v w))"
  unfolding sim_access_def sim_ctrl_write_def sim_ctrl_read_def sim_ctlr_write_def Let_def
  by (simp only: buf64_if buf64_upd buf64_ctlr snd_if snd_conv split_def length_write_at
      length_replicate if_cancel simp_thms buf64_def [of w] split: if_split) 

section \<open>The two-instruction programs\<close>

lemma encoded:
  "write_programs 2 = [0x0084a023, 0x00100073]" "write_programs 1 = [0x00849023, 0x00100073]"
  "write_programs 0 = [0x00848023, 0x00100073]" "read_programs 2 = [0x0004a403, 0x00100073]"
  "read_programs 1 = [0x00049403, 0x00100073]" "read_programs 0 = [0x0004c403, 0x00100073]"
  by (simp_all add: write_programs_def read_programs_def wl_rv_store_def wl_rv_load_def
      wl_rv_ebreak_def Let_def)

lemma max_steps: "SIM_MAX_STEPS = Suc (Suc 254)"
  by (simp add: SIM_MAX_STEPS_def)

definition store_word :: "nat \<Rightarrow> u32" where
  "store_word k = (if k = 2 then 0x0084a023 else if k = 1 then 0x00849023 else 0x00848023)"

definition load_word :: "nat \<Rightarrow> u32" where
  "load_word k = (if k = 2 then 0x0004a403 else if k = 1 then 0x00049403 else 0x0004c403)"

lemma steps_ebreak:
  assumes "s_pc w = 4" "s_progbuf w (Suc 0) = 0x00100073"
  shows "sim_steps 255 w = (True, w)"
proof -
  have "sim_steps (Suc 254) w = (True, w)"
    using assms by (subst sim_steps.simps) (simp add: Let_def del: sim_steps.simps)
  then show ?thesis by simp
qed

lemma not_8_le_1: "\<not> (8 :: u32) \<le> 1"
  by (simp add: word_le_nat_alt)

lemma run_store:
  assumes "s_pc w = 0" "s_progbuf w 0 = store_word k" "s_progbuf w 1 = 0x00100073" "k \<le> 2"
  shows "sim_run_progbuf w =
     (True, (snd (sim_access (s_gpr w 9) k True (s_gpr w 8) w))\<lparr>s_pc := 4\<rparr>)"
proof -
  consider "k = 0" | "k = 1" | "k = 2" using assms(4) by linarith
  then show ?thesis
  proof cases
    case 1 then show ?thesis using assms unfolding sim_run_progbuf_def max_steps
      by (subst sim_steps.simps) (simp add: Let_def store_word_def split_def steps_ebreak not_8_le_1 del: sim_steps.simps)
  next
    case 2 then show ?thesis using assms unfolding sim_run_progbuf_def max_steps
      by (subst sim_steps.simps) (simp add: Let_def store_word_def split_def steps_ebreak not_8_le_1 del: sim_steps.simps)
  next
    case 3 then show ?thesis using assms unfolding sim_run_progbuf_def max_steps
      by (subst sim_steps.simps) (simp add: Let_def store_word_def split_def steps_ebreak not_8_le_1 del: sim_steps.simps)
  qed
qed

lemma run_load:
  assumes "s_pc w = 0" "s_progbuf w 0 = load_word k" "s_progbuf w 1 = 0x00100073" "k \<le> 2"
  shows "sim_run_progbuf w =
     (True, set_gpr 8 (if k = 0 then fst (sim_access (s_gpr w 9) k False 0 w) AND 0xff
                       else fst (sim_access (s_gpr w 9) k False 0 w))
        (snd (sim_access (s_gpr w 9) k False 0 w))\<lparr>s_pc := 4\<rparr>)"
proof -
  consider "k = 0" | "k = 1" | "k = 2" using assms(4) by linarith
  then show ?thesis
  proof cases
    case 1 then show ?thesis using assms unfolding sim_run_progbuf_def max_steps
      by (subst sim_steps.simps) (simp add: Let_def load_word_def split_def steps_ebreak not_8_le_1 set_gpr_def del: sim_steps.simps)
  next
    case 2 then show ?thesis using assms unfolding sim_run_progbuf_def max_steps
      by (subst sim_steps.simps) (simp add: Let_def load_word_def split_def steps_ebreak not_8_le_1 set_gpr_def del: sim_steps.simps)
  next
    case 3 then show ?thesis using assms unfolding sim_run_progbuf_def max_steps
      by (subst sim_steps.simps) (simp add: Let_def load_word_def split_def steps_ebreak not_8_le_1 set_gpr_def del: sim_steps.simps)
  qed
qed

section \<open>The debug module\<close>

lemma dmi_write_plain:
  "sim_dmi_write 0x04 v w = w\<lparr>s_dmi := (s_dmi w)(0x04 := v)\<rparr>"
  "sim_dmi_write 0x18 v w = w\<lparr>s_dmi := (s_dmi w)(0x18 := v)\<rparr>"
  "sim_dmi_write 0x20 v w =
     w\<lparr>s_dmi := (s_dmi w)(0x20 := v), s_progbuf := (s_progbuf w)(0 := v)\<rparr>"
  "sim_dmi_write 0x21 v w =
     w\<lparr>s_dmi := (s_dmi w)(0x21 := v), s_progbuf := (s_progbuf w)(Suc 0 := v)\<rparr>"
  "sim_dmi_write 0x17 v w = sim_execute_command v (w\<lparr>s_dmi := (s_dmi w)(0x17 := v)\<rparr>)"
  by (simp_all add: sim_dmi_write_def dmi_regs Let_def word_less_nat_alt word_le_nat_alt)

lemma command_words:
  "WL_DM_CMD_GPR_BASE OR WL_DM_CMD_TRANSFER OR WL_DM_CMD_WRITE OR WL_DM_GPR_REGNO 9 = 0x00231009"
  "WL_DM_CMD_GPR_BASE OR WL_DM_CMD_TRANSFER OR WL_DM_CMD_WRITE OR WL_DM_CMD_POSTEXEC OR
     WL_DM_GPR_REGNO 8 = 0x00271008"
  "WL_DM_CMD_GPR_BASE OR WL_DM_CMD_TRANSFER OR WL_DM_GPR_REGNO 8 = 0x00221008"
  by (simp_all add: dm_cmds)

lemma execute_words:
  "sim_execute_command 0x00231009 w = set_gpr 9 (s_dmi w 4) w"
  "sim_execute_command 0x00271008 w =
     snd (sim_run_progbuf ((set_gpr 8 (s_dmi w 4) w)\<lparr>s_pc := 0\<rparr>))"
  "sim_execute_command 0x00221008 w = w\<lparr>s_dmi := (s_dmi w)(0x04 := s_gpr w 8)\<rparr>"
  by (simp_all add: sim_execute_command_def sim_transfer_def dmi_regs Let_def word_le_nat_alt)

definition sim_prepare :: "u32 \<Rightarrow> u32 \<Rightarrow> wl_sim \<Rightarrow> wl_sim" where
  "sim_prepare instruction a w =
     sim_dmi_write 0x17 0x00231009 (sim_dmi_write 0x04 a (sim_dmi_write 0x21 0x00100073
       (sim_dmi_write 0x20 instruction (sim_dmi_write 0x18 0 w))))"

definition sim_poke :: "nat \<Rightarrow> u32 \<Rightarrow> u32 \<Rightarrow> wl_sim \<Rightarrow> wl_sim" where
  "sim_poke k a v w =
     sim_dmi_write 0x17 0x00271008 (sim_dmi_write 0x04 v (sim_prepare (store_word k) a w))"

definition sim_peek :: "nat \<Rightarrow> u32 \<Rightarrow> wl_sim \<Rightarrow> u32 \<times> wl_sim" where
  "sim_peek k a w =
     (let w' = sim_dmi_write 0x17 0x00221008
                 (sim_dmi_write 0x17 0x00271008 (sim_dmi_write 0x04 0 (sim_prepare (load_word k) a w)))
      in (sim_dmi_read 0x04 w', w'))"

definition dbg :: "(u8 \<Rightarrow> u32) \<Rightarrow> (nat \<Rightarrow> u32) \<Rightarrow> (nat \<Rightarrow> u32) \<Rightarrow> u32 \<Rightarrow> wl_sim \<Rightarrow> wl_sim" where
  "dbg d g p n w = w\<lparr>s_progbuf := p, s_dmi := d, s_gpr := g, s_pc := n\<rparr>"

lemma dbg_fields [simp]:
  "s_dmi (dbg d g p n w) = d" "s_gpr (dbg d g p n w) = g" "s_progbuf (dbg d g p n w) = p"
  "s_pc (dbg d g p n w) = n" "observed (dbg d g p n w) = observed w"
  "s_cmderr (dbg d g p n w) = s_cmderr w" "s_configured (dbg d g p n w) = s_configured w"
  "s_flash (dbg d g p n w) = s_flash w" "buf64 (dbg d g p n w) = buf64 w"
  "dbg d' g' p' n' (dbg d g p n w) = dbg d' g' p' n' w"
  by (simp_all add: dbg_def buf64_def)

lemma to_dbg:
  "w\<lparr>s_dmi := d\<rparr> = dbg d (s_gpr w) (s_progbuf w) (s_pc w) w"
  "w\<lparr>s_gpr := g\<rparr> = dbg (s_dmi w) g (s_progbuf w) (s_pc w) w"
  "w\<lparr>s_progbuf := p\<rparr> = dbg (s_dmi w) (s_gpr w) p (s_pc w) w"
  "w\<lparr>s_pc := n\<rparr> = dbg (s_dmi w) (s_gpr w) (s_progbuf w) n w"
  by (simp_all add: dbg_def)

lemma prepared:
  "sim_prepare i a w = dbg
     ((s_dmi w)(0x18 := 0, 0x20 := i, 0x21 := 0x00100073, 0x04 := a, 0x17 := 0x00231009))
     ((s_gpr w)(9 := a)) ((s_progbuf w)(0 := i, Suc 0 := 0x00100073)) (s_pc w) w"
  by (simp add: sim_prepare_def dmi_write_plain execute_words set_gpr_def dbg_def)

lemma poke_eq:
  assumes "k \<le> 2"
  shows "sim_poke k a v w = (snd (sim_access a k True v
     (dbg ((s_dmi w)(0x18 := 0, 0x20 := store_word k, 0x21 := 0x00100073, 0x04 := v, 0x17 := 0x00271008))
       ((s_gpr w)(9 := a, 8 := v)) ((s_progbuf w)(0 := store_word k, Suc 0 := 0x00100073)) 0 w)))\<lparr>s_pc := 4\<rparr>"
    (is "_ = (snd (sim_access a k True v ?w))\<lparr>s_pc := 4\<rparr>")
proof -
  have "sim_poke k a v w = snd (sim_run_progbuf ?w)"
    by (simp add: sim_poke_def prepared dmi_write_plain execute_words set_gpr_def dbg_def)
  also have "\<dots> = (snd (sim_access a k True v ?w))\<lparr>s_pc := 4\<rparr>"
    using assms by (subst run_store [of _ k]) simp_all
  finally show ?thesis .
qed

lemma poked:
  assumes "k \<le> 2"
  shows "\<exists>d g p n d' g' p' n'. sim_poke k a v w =
     dbg d' g' p' n' (snd (sim_access a k True v (dbg d g p n w)))"
  unfolding poke_eq [OF assms] to_dbg by blast

lemma peek_eq:
  assumes "k \<le> 2"
  shows "\<exists>d p d'. sim_peek k a w =
     (let r = sim_access a k False 0 (dbg d ((s_gpr w)(9 := a, 8 := 0)) p 0 w);
          x = (if k = 0 then fst r AND 0xff else fst r)
      in (x, (set_gpr 8 x (snd r))\<lparr>s_pc := 4, s_dmi := d'\<rparr>))"
proof -
  let ?d = "(s_dmi w)(0x18 := 0, 0x20 := load_word k, 0x21 := 0x00100073, 0x04 := 0, 0x17 := 0x00271008)"
  let ?g = "(s_gpr w)(9 := a, 8 := 0)"
  let ?p = "(s_progbuf w)(0 := load_word k, Suc 0 := 0x00100073)"
  let ?w = "dbg ?d ?g ?p 0 w"
  let ?x = "if k = 0 then fst (sim_access a k False 0 ?w) AND 0xff else fst (sim_access a k False 0 ?w)"
  let ?u = "set_gpr 8 ?x (snd (sim_access a k False 0 ?w))\<lparr>s_pc := 4\<rparr>"
  have "sim_dmi_write 0x17 0x00271008 (sim_dmi_write 0x04 0 (sim_prepare (load_word k) a w)) =
      snd (sim_run_progbuf ?w)"
    by (simp add: prepared dmi_write_plain execute_words set_gpr_def dbg_def)
  also have "\<dots> = ?u"
    using assms by (subst run_load [of _ k]) simp_all
  finally have "sim_peek k a w =
      (?x, ?u\<lparr>s_dmi := (s_dmi ?u)(0x17 := 0x00221008, 0x04 := ?x)\<rparr>)"
    by (simp add: sim_peek_def dmi_write_plain execute_words sim_dmi_read_def dmi_regs set_gpr_def)
  then show ?thesis unfolding Let_def by blast
qed

lemma peeked:
  assumes "k \<le> 2"
  shows "\<exists>d g p n d' g' p' n'. sim_peek k a w =
     (if k = 0 then fst (sim_access a k False 0 (dbg d g p n w)) AND 0xff
      else fst (sim_access a k False 0 (dbg d g p n w)),
      dbg d' g' p' n' (snd (sim_access a k False 0 (dbg d g p n w))))"
proof -
  from peek_eq [OF assms, of a w] obtain d p d' where "sim_peek k a w =
     (let r = sim_access a k False 0 (dbg d ((s_gpr w)(9 := a, 8 := 0)) p 0 w);
          x = (if k = 0 then fst r AND 0xff else fst r)
      in (x, (set_gpr 8 x (snd r))\<lparr>s_pc := 4, s_dmi := d'\<rparr>))"
    by blast
  then show ?thesis unfolding Let_def to_dbg set_gpr_def dbg_fields by blast
qed

section \<open>The contract of the programmer\<close>

lemma observed_snd_access:
  "observed (snd (sim_access a k wr v w)) = snd (sim_access a k wr v (observed w))"
  "fst (sim_access a k wr v (observed w)) = fst (sim_access a k wr v w)"
  by (simp_all add: observed_access)

lemma steps_preserve:
  assumes acc: "\<And>a k wr v w. P w \<Longrightarrow> P (snd (sim_access a k wr v w))"
    and pc: "\<And>n w. P w \<Longrightarrow> P (w\<lparr>s_pc := n\<rparr>)"
    and gpr: "\<And>g w. P w \<Longrightarrow> P (w\<lparr>s_gpr := g\<rparr>)"
    and ill: "\<And>n w. P w \<Longrightarrow> P (w\<lparr>s_illegal := n\<rparr>)"
  shows "P w \<Longrightarrow> P (snd (sim_steps n w))"
proof (induction n arbitrary: w)
  case 0
  then show ?case by (simp add: sim_illegal_def ill)
next
  case (Suc n)
  have stop: "P (snd (sim_illegal x))" if "P x" for x
    using ill [OF that] by (simp add: sim_illegal_def)
  have cond: "(b \<Longrightarrow> P (snd x)) \<Longrightarrow> (\<not> b \<Longrightarrow> P (snd y)) \<Longrightarrow> P (snd (if b then x else y))" for b x y
    by simp
  have halt: "P (snd (True, x))" if "P x" for x
    using that by simp
  have set: "P (set_gpr r v x)" if "P x" for r v x
    using gpr [OF that] by (simp add: set_gpr_def)
  show ?case
    unfolding sim_steps.simps Let_def split_def
    by (intro cond halt Suc.IH stop set pc acc Suc.prems)
qed

lemma execute_preserve:
  assumes acc: "\<And>a k wr v w. P w \<Longrightarrow> P (snd (sim_access a k wr v w))"
    and dmi: "\<And>d w. P w \<Longrightarrow> P (w\<lparr>s_dmi := d\<rparr>)"
    and pc: "\<And>n w. P w \<Longrightarrow> P (w\<lparr>s_pc := n\<rparr>)"
    and gpr: "\<And>g w. P w \<Longrightarrow> P (w\<lparr>s_gpr := g\<rparr>)"
    and pb: "\<And>g w. P w \<Longrightarrow> P (w\<lparr>s_progbuf := g\<rparr>)"
    and dpc: "\<And>n w. P w \<Longrightarrow> P (w\<lparr>s_dpc := n\<rparr>)"
    and dcsr: "\<And>n w. P w \<Longrightarrow> P (w\<lparr>s_dcsr := n\<rparr>)"
    and err: "\<And>n w. P w \<Longrightarrow> P (w\<lparr>s_cmderr := n\<rparr>)"
    and ill: "\<And>n w. P w \<Longrightarrow> P (w\<lparr>s_illegal := n\<rparr>)"
    and P: "P w"
  shows "P (sim_dmi_write reg v w)"
proof -
  have t: "P x'" if "P x" "sim_transfer sz wr r x = Some x'" for x x' sz wr r
    using that dmi gpr dpc dcsr by (auto simp: sim_transfer_def set_gpr_def Let_def split: if_splits)
  have run: "P (snd (sim_run_progbuf (x\<lparr>s_pc := 0\<rparr>)))" if "P x" for x
    unfolding sim_run_progbuf_def using that by (intro steps_preserve [of P] acc pc gpr ill)
  have ex: "P (sim_execute_command c x)" if "P x" for c x
    using that run t err by (auto simp: sim_execute_command_def Let_def split: option.split)
  have cond: "(b \<Longrightarrow> P x) \<Longrightarrow> (\<not> b \<Longrightarrow> P y) \<Longrightarrow> P (if b then x else y)" for b x y
    by simp
  show ?thesis
    unfolding sim_dmi_write_def Let_def by (intro cond ex err pb dmi P)
qed

lemma dmi_write_configured: "s_configured (sim_dmi_write r v w) = s_configured w"
  by (rule execute_preserve [where P = "\<lambda>x. s_configured x = s_configured w"]) simp_all

interpretation sim_link: linke_programmer sim_transport "Some ()" s_configured sim_ctl sim_iface
  "\<lambda>r w. (sim_dmi_read r w, w)" sim_dmi_write
proof
  fix c a :: u8 and w :: wl_sim
  assume "c \<in> {0x0b, 0x0d}"
  then show "\<exists>reply. tr_command sim_transport (Some ()) [0x81, c, 0x01, a] 64 w = ((0, reply), sim_ctl c a w)"
    by (auto simp: sim_transport_def sim_command_def sim_ctl_def split_def Let_def)
next
  fix f sp :: u8 and w :: wl_sim
  show "\<exists>reply. tr_command sim_transport (Some ()) [0x81, 0x0c, 0x02, f, sp] 64 w =
      ((0, reply), sim_iface f sp w) \<and> reply_ok reply"
    by (auto simp: sim_transport_def sim_command_def sim_iface_def reply_ok_def wire_consts Let_def)
next
  fix w :: wl_sim and r :: u8
  assume "s_configured w"
  then show "\<exists>st. st \<notin> {2, 3} \<and> tr_command sim_transport (Some ()) (reg_request r 0 0x01) 64 w =
      ((0, [0x82, 0x08, 0x06, r] @ be_bytes (fst (sim_dmi_read r w, w)) @ [st]), snd (sim_dmi_read r w, w))"
    by (intro exI [of _ 0]) (simp add: sim_transport_def sim_command_def reg_request_def wire_consts
      sim_register_def Let_def)
next
  fix w :: wl_sim and r :: u8 and v :: u32
  assume "s_configured w"
  then show "\<exists>b st. st \<notin> {2, 3} \<and> tr_command sim_transport (Some ()) (reg_request r v 0x02) 64 w =
      ((0, [0x82, 0x08, 0x06, r] @ be_bytes b @ [st]), sim_dmi_write r v w)"
    by (intro exI [of _ 0] exI [of _ "sim_dmi_read r (sim_dmi_write r v w)"])
      (simp add: sim_transport_def sim_command_def reg_request_def wire_consts sim_register_def Let_def)
next
  fix w :: wl_sim and c k :: u8
  assume "s_configured w"
  then show "s_configured (sim_ctl c k w)"
    by (auto simp: sim_ctl_def sim_control_def Let_def)
qed (simp_all add: sim_iface_def dmi_write_configured)


section \<open>The contract of the target\<close>

definition sim_idle :: "wl_sim \<Rightarrow> bool" where
  "sim_idle w \<longleftrightarrow> s_cmderr w = 0 \<and> buf64 w \<and> length (s_flash w) \<le> 0x10000"

definition sim_mem :: "wl_sim \<Rightarrow> u32 \<Rightarrow> u8 option" where
  "sim_mem t a =
     (if sim_is_ctrl a then None
      else if sim_is_flash a then
        (if sim_flash_offset a < length (s_flash t) then Some (s_flash t ! sim_flash_offset a) else None)
      else if sim_is_ram t a then Some (s_ram t ! unat (a - ram_offset (s_chip t)))
      else None)"

lemma sim_clean: "s_cmderr w = 0 \<Longrightarrow> sim_link.clean w"
  unfolding sim_link.clean_def by (simp add: sim_dmi_read_def)

lemma sim_settled [simp]: "sim_link.settled w = w"
  by (simp add: sim_link.settled_def)

lemma dmi_cmderr_plain:
  "s_cmderr (sim_prepare i a w) = s_cmderr w" "s_configured (sim_prepare i a w) = s_configured w"
  by (simp_all add: prepared)

lemma sim_link_command:
  assumes "sim_link.plugged s" "s_configured (world s)"
    and "s_cmderr (sim_link.issued c v b (world s)) = 0"
  shows "dm_command c v b False s = Some (Inr 0, s\<lparr>world := sim_link.issued c v b (world s)\<rparr>)"
    and "dm_command c v b True s = Some (Inr (sim_dmi_read 0x04 (sim_link.issued c v b (world s))),
       s\<lparr>world := sim_link.issued c v b (world s)\<rparr>)"
  using sim_link.dm_command_done [OF assms(1,2) sim_clean [OF assms(3)]]
    sim_link.dm_command_result [OF assms(1,2) sim_clean [OF assms(3)]]
  by (simp_all add: WL_DMI_DATA0_def)

lemma sim_run:
  assumes "sim_link.plugged s" "s_configured (world s)" "s_cmderr (world s) = 0"
  shows "andDo (dm_load_program [i, 0x00100073]) (andDo (wl_dm_gpr_write 9 a) f) s =
     f (s\<lparr>world := sim_prepare i a (world s)\<rparr>)"
proof -
  let ?w = "sim_dmi_write 0x21 0x00100073 (sim_dmi_write 0x20 i (sim_dmi_write 0x18 0 (world s)))"
  have "dm_load_program [i, 0x00100073] s = Some (Inr (), s\<lparr>world := ?w\<rparr>)"
    using assms by (simp add: dm_load_program_def WL_DM_PROGBUF_WORDS_def run sim_link.dmi_write_ok
        dmi_write_configured dmi_regs)
  moreover have "sim_link.issued 0x00231009 a True ?w = sim_prepare i a (world s)"
    by (simp add: sim_link.issued_def sim_prepare_def dmi_regs)
  then have "wl_dm_gpr_write 9 a (s\<lparr>world := ?w\<rparr>) = Some (Inr (), s\<lparr>world := sim_prepare i a (world s)\<rparr>)"
    using assms sim_link_command(1) [of "s\<lparr>world := ?w\<rparr>" "0x00231009" a True]
    by (simp add: wl_dm_gpr_write_def command_words run dmi_cmderr_plain dmi_write_configured)
  ultimately show ?thesis by (simp add: andThen_def)
qed


lemma dbg_access [simp]:
  "s_cmderr (snd (sim_access a k wr v (dbg d g p n w))) = s_cmderr w"
  "s_configured (snd (sim_access a k wr v (dbg d g p n w))) = s_configured w"
  "length (s_flash (snd (sim_access a k wr v (dbg d g p n w)))) = length (s_flash w)"
  "observed (snd (sim_access a k wr v (dbg d g p n w))) = snd (sim_access a k wr v (observed w))"
  "buf64 w \<Longrightarrow> buf64 (snd (sim_access a k wr v (dbg d g p n w)))"
  by (simp_all add: observed_snd_access buf64_access)

lemma fst_access_dbg [simp]:
  "fst (sim_access a k wr v (dbg d g p n w)) = fst (sim_access a k wr v (observed w))"
  using observed_snd_access(2) [of a k wr v "dbg d g p n w"] by simp

lemma poke_facts:
  assumes "k \<le> 2"
  shows "s_cmderr (sim_poke k a v w) = s_cmderr w"
    and "s_configured (sim_poke k a v w) = s_configured w"
    and "observed (sim_poke k a v w) = snd (sim_access a k True v (observed w))"
    and "sim_idle w \<Longrightarrow> sim_idle (sim_poke k a v w)"
  using poked [OF assms, of a v w] by (auto simp: sim_idle_def)

lemma peek_facts:
  assumes "k \<le> 2"
  shows "s_cmderr (snd (sim_peek k a w)) = s_cmderr w"
    and "s_configured (snd (sim_peek k a w)) = s_configured w"
    and "observed (snd (sim_peek k a w)) = snd (sim_access a k False 0 (observed w))"
    and "sim_idle w \<Longrightarrow> sim_idle (snd (sim_peek k a w))"
    and "fst (sim_peek k a w) = (if k = 0 then fst (sim_access a k False 0 (observed w)) AND 0xff
      else fst (sim_access a k False 0 (observed w)))"
  using peeked [OF assms, of a w] by (auto simp: sim_idle_def)

lemma sim_store_run:
  assumes "sim_link.plugged s" "s_configured (world s)" "s_cmderr (world s) = 0" "k \<le> 2"
  shows "dm_run [store_word k, 0x00100073] a v False s =
     Some (Inr 0, s\<lparr>world := sim_poke k a v (world s)\<rparr>)"
proof -
  let ?s = "s\<lparr>world := sim_prepare (store_word k) a (world s)\<rparr>"
  have i: "sim_link.issued 0x00271008 v True (world ?s) = sim_poke k a v (world s)"
    by (simp add: sim_link.issued_def sim_poke_def dmi_regs)
  have "dm_command 0x00271008 v True False ?s = Some (Inr 0, s\<lparr>world := sim_poke k a v (world s)\<rparr>)"
    using assms sim_link_command(1) [of ?s "0x00271008" v True] unfolding i
    by (simp add: dmi_cmderr_plain poke_facts)
  moreover have "dm_run [store_word k, 0x00100073] a v False s =
     andDo (dm_load_program [store_word k, 0x00100073]) (andDo (wl_dm_gpr_write 9 a)
       (andDo (dm_command 0x00271008 v True False) (ret 0))) s"
    by (simp add: dm_run_def command_words)
  ultimately show ?thesis
    by (simp add: sim_run [OF assms(1-3)] andThen_def [of "dm_command _ _ _ _"])
qed

lemma sim_load_run:
  assumes "sim_link.plugged s" "s_configured (world s)" "s_cmderr (world s) = 0" "k \<le> 2"
  shows "dm_run [load_word k, 0x00100073] a 0 True s =
     Some (Inr (fst (sim_peek k a (world s))), s\<lparr>world := snd (sim_peek k a (world s))\<rparr>)"
proof -
  let ?s = "s\<lparr>world := sim_prepare (load_word k) a (world s)\<rparr>"
  let ?t = "s\<lparr>world := sim_dmi_write 0x17 0x00271008 (sim_dmi_write 0x04 0 (world ?s))\<rparr>"
  have i: "sim_link.issued 0x00271008 0 True (world ?s) = world ?t"
    by (simp add: sim_link.issued_def dmi_regs)
  have j: "sim_link.issued 0x00221008 0 False (world ?t) = snd (sim_peek k a (world s))"
    by (simp add: sim_link.issued_def dmi_regs sim_peek_def Let_def)
  have r: "sim_dmi_read 0x04 (snd (sim_peek k a (world s))) = fst (sim_peek k a (world s))"
    by (simp add: sim_peek_def Let_def)
  have e: "s_cmderr (world ?t) = 0" "s_configured (world ?t)"
    using peek_facts(1,2) [OF assms(4), of a "world s"] assms
    by (simp_all add: sim_peek_def Let_def dmi_write_plain execute_words)
  have "dm_command 0x00271008 0 True False ?s = Some (Inr 0, ?t)"
    using assms sim_link_command(1) [of ?s "0x00271008" 0 True] e unfolding i
    by (simp add: dmi_cmderr_plain)
  moreover have "dm_command 0x00221008 0 False True ?t =
      Some (Inr (fst (sim_peek k a (world s))), s\<lparr>world := snd (sim_peek k a (world s))\<rparr>)"
    using assms sim_link_command(2) [of ?t "0x00221008" 0 False] e r unfolding j
    by (simp add: peek_facts(1))
  then have "wl_dm_gpr_read 8 ?t =
      Some (Inr (fst (sim_peek k a (world s))), s\<lparr>world := snd (sim_peek k a (world s))\<rparr>)"
    by (simp add: wl_dm_gpr_read_def command_words)
  moreover have "dm_run [load_word k, 0x00100073] a 0 True s =
     andDo (dm_load_program [load_word k, 0x00100073]) (andDo (wl_dm_gpr_write 9 a)
       (andDo (dm_command 0x00271008 0 True False) (wl_dm_gpr_read 8))) s"
    by (simp add: dm_run_def command_words)
  ultimately show ?thesis
    by (simp add: sim_run [OF assms(1-3)] andThen_def [of "dm_command _ _ _ _"])
qed

lemma sim_read32:
  assumes "sim_link.plugged s" "s_configured (world s)" "sim_idle (world s)"
  shows "wl_dm_read32 a s =
     Some (Inr (fst (sim_peek 2 a (world s))), s\<lparr>world := snd (sim_peek 2 a (world s))\<rparr>)"
  using assms sim_load_run [of s 2 a]
  by (simp add: wl_dm_read32_def dm_read_sized_def wl_dm_run_read_def encoded load_word_def sim_idle_def)

lemma sim_read8:
  assumes "sim_link.plugged s" "s_configured (world s)" "sim_idle (world s)"
  shows "dm_read_sized 0 a s =
     Some (Inr (fst (sim_peek 0 a (world s))), s\<lparr>world := snd (sim_peek 0 a (world s))\<rparr>)"
  using assms sim_load_run [of s 0 a]
  by (simp add: dm_read_sized_def wl_dm_run_read_def encoded load_word_def sim_idle_def)

lemma sim_write32:
  assumes "sim_link.plugged s" "s_configured (world s)" "sim_idle (world s)"
  shows "wl_dm_write32 a v s = Some (Inr (), s\<lparr>world := sim_poke 2 a v (world s)\<rparr>)"
  using assms sim_store_run [of s 2 a v]
  by (simp add: wl_dm_write32_def wl_dm_run_write_def encoded store_word_def sim_idle_def andThen_def)

lemma small_unat:
  assumes "(i :: u32) AND 3 = i"
  shows "unat i \<le> 3"
proof -
  have m: "(3 :: u32) = mask 2" by (simp add: mask_eq_exp_minus_1)
  have "unat i = unat (i AND mask 2)" using assms unfolding m by simp
  then show ?thesis by (simp add: and_mask_unat)
qed

lemma ucast_8_32 [simp]: "ucast (ucast (b :: u8) :: u32) = b"
  by (rule bit_word_eqI) (auto simp: bit_simps)

lemma aligned_or:
  assumes "(a :: u32) AND 3 = 0" "i AND 3 = i"
  shows "a + i = a OR i"
proof (rule disjunctive_add_eq_or)
  have "a AND i = (a AND 3) AND i" using assms(2) by (metis and.assoc and.commute)
  then show "a AND i = 0" using assms(1) by simp
qed

lemma aligned_flash:
  assumes a: "(a :: u32) AND 3 = 0" and i: "i AND 3 = i"
  shows "sim_is_flash (a + i) = sim_is_flash a"
    and "sim_flash_offset (a + i) = sim_flash_offset a + unat i"
proof -
  have "i AND 0xff000000 = (i AND 3) AND 0xff000000" using i by simp
  then have hi: "i AND 0xff000000 = 0" by (simp only: and.assoc) simp
  have "i AND 0x00ffffff = (i AND 3) AND 0x00ffffff" using i by simp
  also have "\<dots> = i AND 3" by (simp only: and.assoc) simp
  finally have lo: "i AND 0x00ffffff = i" using i by simp
  show "sim_is_flash (a + i) = sim_is_flash a"
    by (simp add: sim_is_flash_def aligned_or [OF a i] and.commute [of _ "0xff000000"]
        bit.conj_disj_distrib hi [unfolded and.commute [of i]])
  let ?b = "a AND 0x00ffffff"
  have "?b AND 3 = (a AND 3) AND 0x00ffffff" by (simp only: ac_simps)
  then have b: "?b AND 3 = 0" using a by simp
  have "(a + i) AND 0x00ffffff = ?b OR i"
    by (simp add: aligned_or [OF a i] and.commute [of _ "0x00ffffff"] bit.conj_disj_distrib
        lo [unfolded and.commute [of i]])
  also have "\<dots> = ?b + i" by (rule aligned_or [OF b i, symmetric])
  finally have e: "(a + i) AND 0x00ffffff = ?b + i" .
  have m: "(0x00ffffff :: u32) = mask 24" by (simp add: mask_eq_exp_minus_1)
  have "unat ?b < 2 ^ 24" unfolding m by (simp add: and_mask_unat)
  moreover have "unat i \<le> 3" using i by (rule small_unat)
  ultimately show "sim_flash_offset (a + i) = sim_flash_offset a + unat i"
    unfolding sim_flash_offset_def e by (simp add: unat_word_ariths)
qed

lemma aligned_unat:
  assumes "(a :: u32) AND 3 = 0" "unat i \<le> 3"
  shows "unat (a + i) = unat a + unat i"
proof -
  have "unat a mod 4 = 0" using assms(1) by (simp add: and3_unat)
  moreover have "unat a < 4294967296" using unsigned_less [of a] by simp
  ultimately have "unat a + 3 < 4294967296" by presburger
  then show ?thesis using assms(2) by (simp add: unat_word_ariths)
qed

lemma le_value_take4:
  "off + 4 \<le> length xs \<Longrightarrow> loaded 2 (take 4 (drop off xs)) =
     word_of (xs ! off) (xs ! (off + 1)) (xs ! (off + 2)) (xs ! (off + 3))"
  by (simp add: loaded_def take4_drop le_value_4 del: le_value.simps)

lemma access_mem32:
  assumes a: "a AND 3 = 0" and m: "sim_mem t a = Some b0" "sim_mem t (a + 1) = Some b1"
    "sim_mem t (a + 2) = Some b2" "sim_mem t (a + 3) = Some b3"
  shows "sim_access a 2 False 0 t = (word_of b0 b1 b2 b3, t)"
proof -
  have fl: "sim_is_flash (a + 1) = sim_is_flash a" "sim_is_flash (a + 2) = sim_is_flash a"
    "sim_is_flash (a + 3) = sim_is_flash a" "sim_flash_offset (a + 1) = sim_flash_offset a + 1"
    "sim_flash_offset (a + 2) = sim_flash_offset a + 2" "sim_flash_offset (a + 3) = sim_flash_offset a + 3"
    using aligned_flash [OF a, of 1] aligned_flash [OF a, of 2] aligned_flash [OF a, of 3] by simp_all
  have c: "\<not> sim_is_ctrl a" using m(1) by (auto simp: sim_mem_def)
  show ?thesis
  proof (cases "sim_is_flash a")
    case True
    then have "sim_flash_offset a + 4 \<le> length (s_flash t)"
      "b0 = s_flash t ! sim_flash_offset a" "b1 = s_flash t ! (sim_flash_offset a + 1)"
      "b2 = s_flash t ! (sim_flash_offset a + 2)" "b3 = s_flash t ! (sim_flash_offset a + 3)"
      using m fl by (auto simp: sim_mem_def split: if_splits)
    then show ?thesis
      using True c le_value_take4 [of "sim_flash_offset a" "s_flash t"]
      by (simp add: sim_access_def Let_def)
  next
    case False
    let ?ro = "ram_offset (s_chip t)"
    have ram: "sim_is_ram t a" "sim_is_ram t (a + 3)"
      using m(1,4) False fl by (auto simp: sim_mem_def split: if_splits)
    then have le: "unat ?ro \<le> unat a" by (simp add: sim_is_ram_def word_le_nat_alt)
    have off: "unat (a + i - ?ro) = unat (a - ?ro) + unat i" if "unat i \<le> 3" for i
    proof -
      have "unat (a + i) = unat a + unat i" by (rule aligned_unat [OF a that])
      then show ?thesis using le by (simp add: unat_sub_if' )
    qed
    have len: "unat (a - ?ro) + 4 \<le> length (s_ram t)"
      using ram(2) aligned_unat [OF a, of 3] le by (simp add: sim_is_ram_def unat_sub_if') arith
    have "b0 = s_ram t ! unat (a - ?ro)" "b1 = s_ram t ! (unat (a - ?ro) + 1)"
      "b2 = s_ram t ! (unat (a - ?ro) + 2)" "b3 = s_ram t ! (unat (a - ?ro) + 3)"
      using m False fl off [of 1] off [of 2] off [of 3] by (auto simp: sim_mem_def split: if_splits)
    then show ?thesis
      using False c ram(1) len le_value_take4 [OF len] by (simp add: sim_access_def Let_def)
  qed
qed

lemma access_mem8:
  assumes m: "sim_mem t a = Some b"
  shows "sim_access a 0 False 0 t = (ucast b, t)"
proof -
  have c: "\<not> sim_is_ctrl a" using m by (auto simp: sim_mem_def)
  have one: "off < length xs \<Longrightarrow> take (Suc 0) (drop off xs) = [xs ! off]" for off and xs :: "u8 list"
    by (simp add: Cons_nth_drop_Suc [symmetric])
  show ?thesis
  proof (cases "sim_is_flash a")
    case True
    then show ?thesis using m c
      by (auto simp: sim_mem_def sim_access_def Let_def loaded_def one split: if_splits)
  next
    case False
    let ?ro = "ram_offset (s_chip t)"
    have ram: "sim_is_ram t a" "b = s_ram t ! unat (a - ?ro)"
      using m False by (auto simp: sim_mem_def split: if_splits)
    then have "unat ?ro \<le> unat a" "unat (a - ?ro) < length (s_ram t)"
      by (auto simp: sim_is_ram_def word_le_nat_alt unat_sub_if')
    then show ?thesis using False c ram
      by (simp add: sim_access_def Let_def loaded_def one)
  qed
qed

lemma sim_idle_control:
  "sim_idle (sim_ctl c k w) = sim_idle w" "sim_idle (sim_iface f sp w) = sim_idle w"
  "c \<noteq> 0x0d \<or> k \<noteq> 0x13 \<Longrightarrow> observed (sim_ctl c k w) = observed w"
  "observed (sim_iface f sp w) = observed w"
  by (simp_all add: sim_idle_def sim_ctl_def sim_control_def sim_iface_def buf64_def Let_def)

interpretation sim_target: debug_target sim_transport "Some ()" s_configured sim_ctl sim_iface
  "\<lambda>r w. (sim_dmi_read r w, w)" sim_dmi_write sim_idle observed sim_mem "sim_peek 2" "sim_peek 0"
  "sim_poke 2"
proof
  fix a v :: u32 and s :: "(unit, wl_sim) sess"
  assume s: "sim_link.plugged s" "s_configured (world s)" "sim_idle (world s)"
  show "wl_dm_read32 a s =
       Some (Inr (fst (sim_peek 2 a (world s))), s\<lparr>world := snd (sim_peek 2 a (world s))\<rparr>)"
    by (rule sim_read32 [OF s])
  show "dm_read_sized 0 a s =
       Some (Inr (fst (sim_peek 0 a (world s))), s\<lparr>world := snd (sim_peek 0 a (world s))\<rparr>)"
    by (rule sim_read8 [OF s])
  show "wl_dm_write32 a v s = Some (Inr (), s\<lparr>world := sim_poke 2 a v (world s)\<rparr>)"
    by (rule sim_write32 [OF s])
next
  fix w a b0 b1 b2 b3
  assume "a AND 3 = 0" "sim_mem (observed w) a = Some b0" "sim_mem (observed w) (a + 1) = Some b1"
    "sim_mem (observed w) (a + 2) = Some b2" "sim_mem (observed w) (a + 3) = Some b3"
  from access_mem32 [OF this]
  show "fst (sim_peek 2 a w) = word_of b0 b1 b2 b3 \<and> observed (snd (sim_peek 2 a w)) = observed w"
    by (simp add: peek_facts)
next
  fix w a b assume "sim_mem (observed w) a = Some b"
  from access_mem8 [OF this]
  show "ucast (fst (sim_peek 0 a w)) = b \<and> observed (snd (sim_peek 0 a w)) = observed w"
    by (simp add: peek_facts)
qed (simp_all add: poke_facts peek_facts sim_idle_control)

section \<open>The contract of the flash controller\<close>

definition sim_view :: "wl_sim \<Rightarrow> (wl_chip_t \<times> u8 list \<times> u32 \<times> u32) fview" where
  "sim_view t =
     \<lparr>v_flash = s_flash t, v_buf = s_page_buf t, v_ctlr = s_ctlr t, v_addr = s_addr t,
      v_busy = unat (s_busy_reads t), v_open = (s_unlocked t \<and> s_mode_unlocked t),
      v_err = (0 < s_program_errors t),
      v_rest = (s_chip t, s_ram t, s_resets t, s_illegal t)\<rparr>"

lemma same_regs:
  "FLASH_KEYR = 0x40022004" "FLASH_STATR = 0x4002200c" "FLASH_CTLR = 0x40022010"
  "FLASH_ADDR = 0x40022014" "FLASH_MODEKEYR = 0x40022024"
  "SIM_FLASH_KEYR = 0x40022004" "SIM_FLASH_STATR = 0x4002200c" "SIM_FLASH_CTLR = 0x40022010"
  "SIM_FLASH_ADDR = 0x40022014" "SIM_FLASH_MODEKEYR = 0x40022024"
  by (simp_all add: flash_regs sim_regs)

lemma ctrl_region:
  "sim_is_ctrl 0x40022004" "sim_is_ctrl 0x4002200c" "sim_is_ctrl 0x40022010"
  "sim_is_ctrl 0x40022014" "sim_is_ctrl 0x40022024"
  by (simp_all add: sim_is_ctrl_def sim_regs word_le_nat_alt word_less_nat_alt)

lemma ctrl_access:
  "sim_access 0x40022004 2 True v t = (v, sim_ctrl_write 0x40022004 v t)"
  "sim_access 0x40022010 2 True v t = (v, sim_ctrl_write 0x40022010 v t)"
  "sim_access 0x40022014 2 True v t = (v, sim_ctrl_write 0x40022014 v t)"
  "sim_access 0x40022024 2 True v t = (v, sim_ctrl_write 0x40022024 v t)"
  "sim_access 0x40022010 2 False 0 t = sim_ctrl_read 0x40022010 t"
  "sim_access 0x4002200c 2 False 0 t = sim_ctrl_read 0x4002200c t"
  by (simp_all add: sim_access_def ctrl_region Let_def)

lemma flash_address:
  assumes "i < 0x10000"
  shows "\<not> sim_is_ctrl (FB_V + of_nat i)" "sim_is_flash (FB_V + of_nat i)"
    "sim_flash_offset (FB_V + of_nat i) = i"
proof -
  have u: "unat (FB_V + of_nat i) = 0x08000000 + i" using assms by (intro unat_FB_V_plus) simp
  then show "\<not> sim_is_ctrl (FB_V + of_nat i)"
    using assms by (simp add: sim_is_ctrl_def sim_regs word_le_nat_alt)
  have m: "(0x00ffffff :: u32) = mask 24" by (simp add: mask_eq_exp_minus_1)
  show "sim_flash_offset (FB_V + of_nat i) = i"
    unfolding sim_flash_offset_def m and_mask_unat u using assms
    by (simp add: mod_add_left_eq [symmetric])
  let ?n = "of_nat i :: u32"
  have m16: "(0xffff :: u32) = mask 16" by (simp add: mask_eq_exp_minus_1)
  have "unat (?n AND 0xffff) = unat ?n"
    unfolding m16 and_mask_unat using assms by (simp add: unat_of_nat)
  then have n: "?n AND 0xffff = ?n" by (simp only: word_unat_eq_iff)
  have "FB_V AND ?n = (FB_V AND 0xffff) AND ?n" using n by (metis and.assoc and.commute)
  then have "FB_V + ?n = FB_V OR ?n" by (intro disjunctive_add_eq_or) (simp add: FB_V_def)
  moreover have "?n AND 0xff000000 = (?n AND 0xffff) AND 0xff000000" using n by simp
  then have "0xff000000 AND ?n = 0" by (simp only: and.assoc and.commute [of _ ?n]) simp
  ultimately show "sim_is_flash (FB_V + of_nat i)"
    by (simp add: sim_is_flash_def and.commute [of _ "0xff000000"] bit.conj_disj_distrib FB_V_def)
qed

lemma sim_bits_tests:
  "v AND SIM_CTLR_BUF_RST \<noteq> 0 \<longleftrightarrow> bit v 19" "v AND SIM_CTLR_STRT = 0 \<longleftrightarrow> \<not> bit v 6"
  "v AND SIM_CTLR_PAGE_ER \<noteq> 0 \<longleftrightarrow> bit v 17" "v AND SIM_CTLR_PAGE_PG \<noteq> 0 \<longleftrightarrow> bit v 16"
  using and_exp_eq_0_iff_not_bit [of v 19] and_exp_eq_0_iff_not_bit [of v 6]
    and_exp_eq_0_iff_not_bit [of v 17] and_exp_eq_0_iff_not_bit [of v 16]
  by (simp_all add: sim_bits)

lemma fc_offset_sim: "fc_offset a + 64 \<le> 0x10000 \<Longrightarrow> sim_flash_offset a = fc_offset a"
  using flash_address(3) [of "fc_offset a"] by (simp add: fc_offset_def)

lemma some_errors:
  assumes "length cells = (64 :: nat)"
  shows "(0 :: u32) < 0 + of_nat (length (filter P cells)) \<longleftrightarrow> (\<exists>x \<in> set cells. P x)"
proof -
  have le: "length (filter P cells) \<le> 64" using assms length_filter_le [of P cells] by simp
  then have "unat (of_nat (length (filter P cells)) :: u32) = length (filter P cells)"
    by (intro unat_of_nat_flash) simp
  then have "(0 :: u32) < of_nat (length (filter P cells)) \<longleftrightarrow> 0 < length (filter P cells)"
    by (simp add: word_less_nat_alt)
  then show ?thesis by (auto simp: filter_empty_conv)
qed

lemma view_ctlr_store:
  assumes o: "s_unlocked t" "s_mode_unlocked t" "s_program_errors t = 0"
    and sz: "length (s_page_buf t) = 64" "length (s_flash t) \<le> 0x10000"
    and c: "bit c 6 \<Longrightarrow> (bit c 16 \<or> bit c 17) \<and> fc_offset (s_addr t) + 64 \<le> length (s_flash t)"
  shows "sim_view (sim_ctlr_write c t) = fc_ctlr_store 2 c (sim_view t)"
proof -
  consider "bit c 19" | "\<not> bit c 19" "\<not> bit c 6" | "\<not> bit c 19" "bit c 6" "bit c 17"
    | "\<not> bit c 19" "bit c 6" "\<not> bit c 17" "bit c 16"
    using c by blast
  then show ?thesis
  proof cases
    case 1
    then show ?thesis using o
      by (simp add: sim_ctlr_write_def sim_bits_tests Let_def fc_ctlr_store_def sim_view_def SIM_BUSY_READS_def)
  next
    case 2
    then show ?thesis using o
      by (simp add: sim_ctlr_write_def sim_bits_tests Let_def fc_ctlr_store_def sim_view_def)
  next
    case 3
    then have "sim_flash_offset (s_addr t) = fc_offset (s_addr t)" using c sz by (intro fc_offset_sim) auto
    with 3 o show ?thesis
      by (simp add: sim_ctlr_write_def sim_bits_tests Let_def fc_ctlr_store_def sim_view_def sim_erase_def
          SIM_BUSY_READS_def)
  next
    case 4
    then have e: "sim_flash_offset (s_addr t) = fc_offset (s_addr t)" using c sz by (intro fc_offset_sim) auto
    let ?cells = "zip (drop (fc_offset (s_addr t)) (s_flash t)) (s_page_buf t)"
    have "length ?cells = 64" using 4 c sz by simp
    from some_errors [OF this, of "\<lambda>(old, w). old AND w \<noteq> w"] 4 o e show ?thesis
      by (simp add: sim_ctlr_write_def sim_bits_tests Let_def fc_ctlr_store_def sim_view_def
          sim_flash_program_page_def program_bytes_def SIM_BUSY_READS_def fc_cells_def split_def)
  qed
qed

lemma view_keys:
  "sim_view (sim_ctrl_write 0x40022024 FLASH_KEY2 (sim_ctrl_write 0x40022024 FLASH_KEY1
     (sim_ctrl_write 0x40022004 FLASH_KEY2 (sim_ctrl_write 0x40022004 FLASH_KEY1 t)))) =
   (sim_view t)\<lparr>v_open := True\<rparr>"
  by (simp add: sim_ctrl_write_def same_regs FLASH_KEY1_def FLASH_KEY2_def SIM_KEY1_def SIM_KEY2_def
      sim_view_def)

lemma view_statr:
  "bit (fst (sim_ctrl_read 0x4002200c t)) 0 \<longleftrightarrow> 0 < v_busy (sim_view t)"
  "bit (fst (sim_ctrl_read 0x4002200c t)) 4 \<longleftrightarrow> v_err (sim_view t)"
  "sim_view (snd (sim_ctrl_read 0x4002200c t)) = (sim_view t)\<lparr>v_busy := v_busy (sim_view t) - 1\<rparr>"
proof -
  have b: "0 < s_busy_reads t \<Longrightarrow> unat (s_busy_reads t - 1) = unat (s_busy_reads t) - 1"
    by (simp add: unat_minus_one)
  show "bit (fst (sim_ctrl_read 0x4002200c t)) 0 \<longleftrightarrow> 0 < v_busy (sim_view t)"
    "bit (fst (sim_ctrl_read 0x4002200c t)) 4 \<longleftrightarrow> v_err (sim_view t)"
    by (auto simp: sim_ctrl_read_def same_regs sim_view_def SIM_STATR_BSY_def SIM_STATR_WRPRTERR_def
        Let_def word_less_nat_alt bit_simps)
  show "sim_view (snd (sim_ctrl_read 0x4002200c t)) = (sim_view t)\<lparr>v_busy := v_busy (sim_view t) - 1\<rparr>"
    using b by (cases "s_busy_reads t = 0")
      (auto simp: sim_ctrl_read_def same_regs sim_view_def Let_def word_gt_0)
qed

lemma value_bytes_4: "value_bytes 4 x = le_bytes x"
  by (simp add: value_bytes_def le_bytes_def byte_of_def upt_rec)

lemma view_buf_store:
  assumes o: "s_mode_unlocked t" "bit (s_ctlr t) 16" and i: "4 dvd i" "i + 4 \<le> length (s_flash t)"
    and sz: "length (s_page_buf t) = 64" "length (s_flash t) \<le> 0x10000"
  shows "sim_view (snd (sim_access (FB_V + of_nat i) 2 True x t)) =
    (sim_view t)\<lparr>v_buf := write_at (i mod 64) (le_bytes x) (v_buf (sim_view t)), v_busy := 2\<rparr>"
proof -
  have "i < 0x10000" using i sz by simp
  note a = flash_address [OF this]
  obtain q where "i = 4 * q" using i(1) by (rule dvdE)
  then have "i mod 64 + 4 \<le> 64" by presburger
  then show ?thesis
    using o i sz a by (simp add: sim_access_def Let_def sim_bits_tests value_bytes_4 sim_view_def SIM_BUSY_READS_def)
qed

interpretation sim_flash: flash_controller sim_transport "Some ()" s_configured sim_ctl sim_iface
  "\<lambda>r w. (sim_dmi_read r w, w)" sim_dmi_write sim_idle observed sim_mem "sim_peek 2" "sim_peek 0"
  "sim_poke 2" sim_view 2
proof
  show "2 < FLASH_POLL_LIMIT" by (simp add: FLASH_POLL_LIMIT_def)
next
  fix w assume l: "sim_target.live w"
  have live: "s_configured w" "sim_idle w" using l by (simp_all add: sim_target.live_def)
  show "length (v_buf (sim_view (observed w))) = 64 \<and> length (v_flash (sim_view (observed w))) \<le> 0x10000"
    using live by (simp add: sim_view_def sim_idle_def buf64_def)
  show "(bit (fst (sim_peek 2 FLASH_STATR w)) 0 \<longleftrightarrow> 0 < v_busy (sim_view (observed w))) \<and>
       (bit (fst (sim_peek 2 FLASH_STATR w)) 4 \<longleftrightarrow> v_err (sim_view (observed w))) \<and>
       sim_view (observed (snd (sim_peek 2 FLASH_STATR w))) =
         (sim_view (observed w))\<lparr>v_busy := v_busy (sim_view (observed w)) - 1\<rparr>"
    by (simp add: peek_facts same_regs ctrl_access view_statr)
  show "sim_view (observed (sim_poke 2 FLASH_ADDR a w)) = (sim_view (observed w))\<lparr>v_addr := a\<rparr>" for a
    by (simp add: poke_facts same_regs ctrl_access sim_ctrl_write_def sim_view_def)
  show "sim_view (observed (sim_poke 2 FLASH_MODEKEYR FLASH_KEY2 (sim_poke 2 FLASH_MODEKEYR FLASH_KEY1
         (sim_poke 2 FLASH_KEYR FLASH_KEY2 (sim_poke 2 FLASH_KEYR FLASH_KEY1 w))))) =
      (sim_view (observed w))\<lparr>v_open := True\<rparr>"
    unfolding view_keys [symmetric] by (simp add: poke_facts same_regs ctrl_access)
  assume "v_open (sim_view (observed w))"
  then have o: "s_unlocked w" "s_mode_unlocked w" by (simp_all add: sim_view_def)
  show "fst (sim_peek 2 FLASH_CTLR w) = v_ctlr (sim_view (observed w)) AND NOT FLASH_CTLR_LOCK \<and>
       sim_view (observed (snd (sim_peek 2 FLASH_CTLR w))) = sim_view (observed w)"
    using o by (simp add: peek_facts same_regs ctrl_access sim_ctrl_read_def sim_view_def
        FLASH_CTLR_LOCK_def SIM_CTLR_LOCK_def)
  show "bit (v_ctlr (sim_view (observed w))) 16 \<Longrightarrow> 4 dvd i \<Longrightarrow>
      i + 4 \<le> length (v_flash (sim_view (observed w))) \<Longrightarrow>
      sim_view (observed (sim_poke 2 (FB_V + of_nat i) x w)) =
        (sim_view (observed w))\<lparr>v_buf := write_at (i mod 64) (le_bytes x) (v_buf (sim_view (observed w))),
           v_busy := 2\<rparr>" for i x
    using view_buf_store [of "observed w" i x] o live
    by (simp add: poke_facts sim_idle_def buf64_def) (simp add: sim_view_def)
next
  fix w :: wl_sim and c :: u32
  assume l: "sim_target.live w" and v: "v_open (sim_view (observed w))" "\<not> v_err (sim_view (observed w))"
    and c: "bit c 6 \<Longrightarrow> (bit c 16 \<or> bit c 17) \<and>
      fc_offset (v_addr (sim_view (observed w))) + 64 \<le> length (v_flash (sim_view (observed w)))"
  have "s_unlocked w" "s_mode_unlocked w" "s_program_errors w = 0" using v
    by (simp_all add: sim_view_def word_gt_0)
  moreover have "sim_idle w" using l by (simp add: sim_target.live_def)
  moreover have "bit c 6 \<Longrightarrow> (bit c 16 \<or> bit c 17) \<and> fc_offset (s_addr w) + 64 \<le> length (s_flash w)"
    using c by (simp add: sim_view_def)
  ultimately have "sim_view (sim_ctlr_write c (observed w)) = fc_ctlr_store 2 c (sim_view (observed w))"
    by (intro view_ctlr_store) (simp_all add: sim_idle_def buf64_def)
  then show "sim_view (observed (sim_poke 2 FLASH_CTLR c w)) = fc_ctlr_store 2 c (sim_view (observed w))"
    by (simp add: poke_facts same_regs ctrl_access sim_ctrl_write_def)
next
  fix i t assume "i < length (v_flash (sim_view t))" "i < 0x10000"
  then show "sim_mem t (FB_V + of_nat i) = Some (v_flash (sim_view t) ! i)"
    using flash_address [of i] by (simp add: sim_mem_def sim_view_def)
qed
section \<open>Sessions with the simulated programmer\<close>

definition sim_session :: "wl_sim \<Rightarrow> (unit, wl_sim) sess" where
  "sim_session w = \<lparr>link = wl_linke_attach_transport sim_transport (Some ()), world = w, calls = []\<rparr>"

lemma sim_session_simps [simp]:
  "sim_link.plugged (sim_session w)" "world (sim_session w) = w" "calls (sim_session w) = []"
  "\<not> set_for c (sim_session w)"
  by (simp_all add: sim_session_def sim_link.plugged_def wl_linke_attach_transport_def set_for_def)

text \<open>A new simulator, with any content in its flash, is ready for the flash command.\<close>

lemma new_sim:
  assumes "wl_sim_new (Some c) = Some w"
  shows "s_chip w = c" "length (s_flash w) = unat (flash_size c)" "s_program_errors w = 0"
    "s_cmderr w = 0" "buf64 w" "s_busy_reads w = 0" "s_ctlr w = 0" "s_attached w = False" "s_resets w = 0"
    "s_illegal w = 0" "length (s_ram w) = unat (ram_size c)" "s_configured w = False"
  using assms by (auto simp: wl_sim_new_def buf64_def split: if_splits)

text \<open>A new simulator for the first part of the table, the CH32V003.\<close>

lemma v003: "hd chips \<in> set chips" "algo (hd chips) = WL_FLASH_CH32V0" "flash_size (hd chips) = 0x4000"
  "flash_base (hd chips) = FB_V"
  by (simp_all add: chips_def chip_table chip_row)

definition v003_sim :: wl_sim where
  "v003_sim = the (wl_sim_new (Some (hd chips)))"

lemma v003_new: "wl_sim_new (Some (hd chips)) = Some v003_sim"
  by (simp add: v003_sim_def wl_sim_new_def chips_def chip_table chip_row)

end
