(* ===== verification/SimRegs.thy ===== *)
theory SimRegs
  imports SimContracts
begin

text \<open>
  What reading and writing the target's memory does beside its purpose.  Every access runs a
  two-instruction program from the debug module's program buffer, with the address in x9 and the
  value in x8.  So it overwrites these two registers, the program buffer and the registers of the
  debug module, and it must leave alone everything else: the other core registers, whether the target
  is attached, and the interface setting.
\<close>

section \<open>The traces of an access\<close>

definition accessed :: "wl_sim \<Rightarrow> wl_sim \<Rightarrow> bool" where
  "accessed w w' \<longleftrightarrow> (\<exists>d p n x y.
     w' = w\<lparr>s_dmi := d, s_progbuf := p, s_pc := n, s_gpr := (s_gpr w)(8 := x, 9 := y)\<rparr>)"

text \<open>The part of the simulator that \<open>observed\<close> leaves out and no access may change.\<close>

definition settings :: "wl_sim \<Rightarrow> (bool \<times> u8 \<times> u8 \<times> bool) \<times> (nat \<Rightarrow> u32)" where
  "settings w = ((s_configured w, s_chip_id w, s_interface_speed w, s_attached w), (s_gpr w)(8 := 0, 9 := 0))"

lemma gprs_but_two:
  fixes g h :: "nat \<Rightarrow> u32"
  assumes "g(8 := 0, 9 := 0) = h(8 := 0, 9 := 0)"
  shows "g = h(8 := g 8, 9 := g 9)"
proof (rule ext)
  fix r show "g r = (h(8 := g 8, 9 := g 9)) r"
    using fun_cong [OF assms, of r] by (simp add: fun_upd_def split: if_splits)
qed

lemma accessed_iff: "accessed w w' \<longleftrightarrow> observed w' = observed w \<and> settings w' = settings w"
proof
  assume "accessed w w'"
  then obtain d p n x y where
    w': "w' = w\<lparr>s_dmi := d, s_progbuf := p, s_pc := n, s_gpr := (s_gpr w)(8 := x, 9 := y)\<rparr>"
    by (auto simp: accessed_def)
  show "observed w' = observed w \<and> settings w' = settings w"
    unfolding w' by (simp add: settings_def fun_eq_iff) 
next
  assume h: "observed w' = observed w \<and> settings w' = settings w"
  then have g: "s_gpr w' = (s_gpr w)(8 := s_gpr w' 8, 9 := s_gpr w' 9)"
    by (intro gprs_but_two) (simp add: settings_def)
  have "w' = w\<lparr>s_dmi := s_dmi w', s_progbuf := s_progbuf w', s_pc := s_pc w', s_gpr := s_gpr w'\<rparr>"
    using h by (cases w; cases w') (simp add: observed_def settings_def)
  with g show "accessed w w'" unfolding accessed_def by metis
qed

lemma settings_access [simp]: "settings (snd (sim_access a n wr v w)) = settings w"
  using kept_access [of a n wr v w] unfolding kept_def settings_def by simp

lemma settings_parts [simp]:
  "settings (w\<lparr>s_pc := n\<rparr>) = settings w" "settings (w\<lparr>s_dmi := d\<rparr>) = settings w"
  "settings (set_gpr 8 x w) = settings w"
  by (simp_all add: settings_def set_gpr_def fun_eq_iff)

lemma settings_dbg: "settings (dbg d ((s_gpr w)(9 := a, 8 := v)) p n w) = settings w"
  by (simp add: settings_def dbg_def fun_eq_iff)

lemma settings_poke: "k \<le> 2 \<Longrightarrow> settings (sim_poke k a v w) = settings w"
  by (simp add: poke_eq settings_dbg)

lemma settings_peek: "k \<le> 2 \<Longrightarrow> settings (snd (sim_peek k a w)) = settings w"
  using peek_eq [of k a w] by (auto simp: Let_def settings_dbg)

section \<open>Sessions that only access memory\<close>

abbreviation anyhow :: "wl_status \<Rightarrow> bool" where
  "anyhow \<equiv> \<lambda>_. True"

text \<open>The target is ready and no access has changed the link or the settings.\<close>

definition steady :: "(unit, wl_sim) wl_linke_t \<Rightarrow> wl_sim \<Rightarrow> (unit, wl_sim) sess \<Rightarrow> bool" where
  "steady l w s \<longleftrightarrow> sim_link.plugged s \<and> link s = l \<and> s_configured (world s) \<and> sim_idle (world s) \<and>
     settings (world s) = settings w"

lemma idle_calm: "sim_idle w \<Longrightarrow> s_cmderr w = 0"
  by (simp add: sim_idle_def)

lemma steady_load:
  assumes "k \<le> 2"
  shows "safe (steady l w) H (dm_run [load_word k, 0x00100073] a 0 True)"
  unfolding safe_def steady_def
  using sim_load_run [OF _ _ idle_calm assms] peek_facts(2,4) [OF assms] settings_peek [OF assms] by auto

lemma steady_store:
  assumes "k \<le> 2"
  shows "safe (steady l w) H (dm_run [store_word k, 0x00100073] a v False)"
  unfolding safe_def steady_def
  using sim_store_run [OF _ _ idle_calm assms] poke_facts(2,4) [OF assms] settings_poke [OF assms] by auto

lemma steady_read [safe_intro]:
  "safe (steady l w) H (dm_read_sized 0 a)" "safe (steady l w) H (wl_dm_read32 a)"
  using steady_load [of 0 l w H a] steady_load [of 2 l w H a]
  by (simp_all add: wl_dm_read32_def dm_read_sized_def wl_dm_run_read_def encoded load_word_def)

lemma steady_write8 [safe_intro]: "safe (steady l w) H (wl_dm_write8 a b)"
  using steady_store [of 0 l w H a "ucast b"]
  by (auto simp: wl_dm_write8_def wl_dm_run_write_def encoded store_word_def intro!: safe_intro)

lemma steady_read_block [safe_intro]: "safe (steady l w) H (wl_dm_read_block a n)"
proof -
  have h: "safe (steady l w) H (read_head n a out)" for n a out
    by (induction n arbitrary: a out) (auto intro!: safe_intro)
  have m: "safe (steady l w) H (read_words n a out)" for n a out
  proof (induction n a out rule: read_words.induct)
    case (1 n a out)
    then show ?case by (subst read_words.simps) (auto intro!: safe_intro)
  qed
  have t: "safe (steady l w) H (read_tail n a out)" for n a out
    by (induction n arbitrary: a out) (auto intro!: safe_intro)
  show ?thesis unfolding wl_dm_read_block_def by (auto intro!: safe_intro h m t)
qed

lemma steady_after:
  assumes "safe (steady l w) anyhow m" "steady l w s" "m s = Some (r, s')"
  shows "steady l w s'"
  using assms by (auto simp: safe_def)

lemma steady_start: "s_configured w \<Longrightarrow> sim_idle w \<Longrightarrow> steady (link (sim_session w)) w (sim_session w)"
  by (simp add: steady_def)

text \<open>A ready session keeps its settings over one such program.\<close>

lemma steady_settings:
  assumes "\<And>l w. safe (steady l w) anyhow m"
    and "sim_link.plugged s" "s_configured (world s)" "sim_idle (world s)" "m s = Some (r, s')"
  shows "settings (world s') = settings (world s)"
  using steady_after [OF assms(1) _ assms(5), of "link s" "world s"] assms(2-4) by (simp add: steady_def)

section \<open>Verification\<close>

text \<open>What setting the interface and halting leaves of the simulator, and what verification starts
  from: that, or a link that has not been set up yet.\<close>

definition set_up :: "wl_chip_t \<Rightarrow> wl_sim \<Rightarrow> wl_sim" where
  "set_up c w = w\<lparr>s_chip_id := linke_id c, s_interface_speed := interface_speed c,
     s_configured := True, s_attached := True\<rparr>"

definition verifying :: "wl_chip_t \<Rightarrow> wl_sim \<Rightarrow> (unit, wl_sim) sess \<Rightarrow> bool" where
  "verifying c w s \<longleftrightarrow> sim_link.plugged s \<and> sim_idle (world s) \<and>
     (if set_for c s then s_configured (world s) \<and> settings (world s) = settings (set_up c w)
      else settings (world s) = settings w)"

lemma attach_eq: "sim_ctl 0x0d 0x02 w = w\<lparr>s_attached := True\<rparr>"
  by (cases w) (simp add: sim_ctl_def sim_control_def Let_def)

lemma read_memory_settings:
  assumes v: "verifying c w s" and m: "wl_linke_read_memory (Some c) a n s = Some (r, s')"
  shows "verifying c w s'" "set_for c s'"
proof -
  define s1 where "s1 = (if set_for c s then s else
    s\<lparr>link := (link s)\<lparr>lk_chip_id := linke_id c, lk_configured := True\<rparr>,
      world := sim_iface (linke_id c) (interface_speed c) (world s)\<rparr>)"
  define s2 where "s2 = s1\<lparr>world := sim_ctl 0x0d 0x02 (world s1)\<rparr>"
  have p: "sim_link.plugged s" using v by (simp add: verifying_def)
  have p1: "sim_link.plugged s1" using p by (simp add: s1_def sim_link.plugged_def)
  have 1: "wl_linke_set_interface (Some c) s = Some (Inr (), s1)"
    using sim_link.set_interface_ok [OF p, of c] by (simp add: s1_def set_for_def)
  have 2: "wl_linke_halt s1 = Some (Inr (), s2)"
    using sim_link.halt_ok [OF p1] by (simp add: s2_def)
  have set1: "set_for c s1" by (auto simp: s1_def set_for_def)
  have "settings (world s2) = settings (set_up c w)"
    unfolding s2_def using v
    by (auto simp: attach_eq s1_def verifying_def settings_def set_up_def sim_iface_def)
  moreover have "s_configured (world s2)" "sim_idle (world s2)"
    unfolding s2_def using v
    by (auto simp: attach_eq s1_def verifying_def sim_idle_def buf64_def sim_iface_def)
  ultimately have st: "steady (link s1) (set_up c w) s2"
    using p1 by (simp add: steady_def s2_def)
  have "wl_linke_read_memory (Some c) a n s = wl_dm_read_block a n s2"
    by (simp add: wl_linke_read_memory_def andThen_def 1 2)
  with m have "steady (link s1) (set_up c w) s'"
    using steady_after [OF steady_read_block st] by simp
  then show "verifying c w s'" "set_for c s'"
    using set1 by (auto simp: steady_def verifying_def set_for_def)
qed

lemma verify_settings:
  assumes "verifying c w s" "verify_loop (Some c) start expected progress doneb s = Some (r, s')"
  shows "verifying c w s'" "doneb < length expected \<Longrightarrow> set_for c s'"
proof -
  have "verifying c w s' \<and> (doneb < length expected \<longrightarrow> set_for c s')"
    using assms
  proof (induction "Some c" start expected progress doneb arbitrary: s rule: verify_loop.induct)
    case (1 start expected progress doneb)
    show ?case
    proof (cases "doneb < length expected")
      case False
      then show ?thesis using "1.prems" by (simp add: verify_loop.simps)
    next
      case True
      let ?n = "min (length expected - doneb) 256"
      obtain r1 s1 where m: "wl_linke_read_memory (Some c) (start + of_nat doneb) ?n s = Some (r1, s1)"
        using "1.prems"(2) True by (auto simp: verify_loop.simps [of _ _ _ _ doneb] andThen_def Let_def split: option.splits)
      note v = read_memory_settings [OF "1.prems"(1) m]
      show ?thesis
      proof (cases "r1 = Inr (take ?n (drop doneb expected))")
        case False
        then show ?thesis using "1.prems"(2) True m v
          by (cases r1) (auto simp: verify_loop.simps [of _ _ _ _ doneb] andThen_def Let_def)
      next
        case here: True
        define s2 where "s2 = s1\<lparr>calls := calls s1 @ called progress (doneb + ?n) (length expected)\<rparr>"
        have "report progress (doneb + ?n) (length expected) s1 = Some (Inr (), s2)"
          by (cases progress) (simp_all add: report_def s2_def called_def)
        then have "verify_loop (Some c) start expected progress (doneb + ?n) s2 = Some (r, s')"
          using "1.prems"(2) True m here by (simp add: verify_loop.simps [of _ _ _ _ doneb] andThen_def Let_def)
        moreover have "verifying c w s2" "set_for c s2"
          using v by (simp_all add: s2_def verifying_def set_for_def)
        ultimately show ?thesis
          using "1.hyps" [OF True refl, of _ s2] True
          by (cases "doneb + ?n < length expected") (auto simp: verify_loop.simps)
      qed
    qed
  qed
  then show "verifying c w s'" "doneb < length expected \<Longrightarrow> set_for c s'" by auto
qed

end
