(* ===== verification/FlashProps.thy ===== *)
theory FlashProps
  imports SimRegs
begin

text \<open>
  What the flash command achieves, end to end: on the simulated target of
  \<^verbatim>\<open>tests/sim_programmer.c\<close>, with every layer between the command and the flash array in place.
\<close>


section \<open>The flash command\<close>

lemma new_calm:
  assumes "wl_sim_new (Some c) = Some w"
  shows "calm ((sim_view (observed (w\<lparr>s_flash := F\<rparr>)))\<lparr>v_open := True\<rparr>)"
  using new_sim [OF assms] by (simp add: calm_def sim_view_def FLASH_POLL_LIMIT_def)

lemma normalise_offset:
  assumes "chip_ok c" "algo c = WL_FLASH_CH32V0" "normalise c addr = FB_V + of_nat so" "so \<le> 0x10000"
  shows "unat (normalise c addr - flash_base c) = so"
  using assms unat_of_nat_flash [of so] by (simp add: chip_ok_def)

lemma sim_flash_command:
  assumes c: "c \<in> set chips" "algo c = WL_FLASH_CH32V0"
    and w: "wl_sim_new (Some c) = Some w" and F: "length F = unat (flash_size c)"
    and r: "wl_flash_range_ok (Some c) addr (length img)" "img \<noteq> []"
  shows "\<exists>s'. wl_linke_write_flash (Some c) addr (Some img) verify wp vp (sim_session (w\<lparr>s_flash := F\<rparr>)) =
       Some (Inr (), s') \<and>
     s_flash (world s') = write_at (unat (normalise c addr - flash_base c)) img F \<and>
     s_program_errors (world s') = 0 \<and> s_ram (world s') = s_ram w \<and> s_resets (world s') = 0 \<and>
     s_illegal (world s') = 0 \<and> \<not> s_attached (world s') \<and> s_cmderr (world s') = 0 \<and>
     sim_link.plugged s' \<and> sim_target.live (world s') \<and> set_for c s' \<and>
     calls s' = page_calls wp (unat (normalise c addr - flash_base c)) (length img)
         (unat (normalise c addr - flash_base c) div 64) @
       (if verify then verify_calls vp (length img) 0 else [])"
proof -
  have ok: "chip_ok c" using c by (simp add: chip_okD)
  let ?s = "sim_session (w\<lparr>s_flash := F\<rparr>)"
  have idle: "sim_idle (world ?s)"
    using new_sim [OF w] F ok c by (simp add: sim_idle_def buf64_def chip_ok_def)
  have v: "v_flash (sim_view (observed (world ?s))) = F"
    "v_rest (sim_view (observed (world ?s))) = (c, s_ram w, 0, 0)"
    using new_sim [OF w] by (simp_all add: sim_view_def)
  have "calm ((sim_view (observed (world ?s)))\<lparr>v_open := True\<rparr>)" using new_calm [OF w] by simp
  from sim_flash.write_flash_ok [OF _ idle _ this v(1) ok c(2) _ r, of verify wp vp]
  obtain s' so x where s': "wl_linke_write_flash (Some c) addr (Some img) verify wp vp ?s = Some (Inr (), s')"
    "normalise c addr = FB_V + of_nat so" "so + length img \<le> length F"
    "sim_link.plugged s'" "sim_target.live (world s')" "set_for c s'" "calm (sim_view (observed (world s')))"
    "v_flash (sim_view (observed (world s'))) = write_at so img F"
    "v_rest (sim_view (observed (world s'))) = v_rest (sim_view (observed (world ?s)))"
    "world s' = sim_ctl 0x0d 0xff (sim_ctl 0x0d 0x02 (sim_ctl 0x0b 0x01 x))"
    "calls s' = calls ?s @ page_calls wp so (length img) (so div 64) @
       (if verify then verify_calls vp (length img) 0 else [])"
    using F by auto
  have so: "unat (normalise c addr - flash_base c) = so"
    using s'(2,3) F ok c by (intro normalise_offset) (auto simp: chip_ok_def)
  have "\<not> s_attached (world s')"
    unfolding s'(10) by (simp add: sim_ctl_def sim_control_def)
  then show ?thesis
    using s' v so by (auto simp: sim_view_def calm_def sim_target.live_def sim_idle_def word_gt_0)
qed

text \<open>C1: the flash command, given any image and any address (home address or alias) that lie
  inside the flash of a supported part, returns success and leaves in flash exactly the
  image at its offset and the old bytes everywhere else, whatever the flash held before; RAM
  is untouched, the controller has refused nothing, no illegal instruction has been run, and
  the target has been released. The reset line is not driven: the README says that the
  target is reset afterwards, but the code ends with the run, attach and release requests
  only (see the findings).\<close>

theorem flash_writes_image:
  assumes "c \<in> set chips" "algo c = WL_FLASH_CH32V0" "wl_sim_new (Some c) = Some w"
    and "length F = unat (flash_size c)" "wl_flash_range_ok (Some c) addr (length img)" "img \<noteq> []"
  shows "\<exists>s'. wl_linke_write_flash (Some c) addr (Some img) verify wp vp (sim_session (w\<lparr>s_flash := F\<rparr>)) =
       Some (Inr (), s') \<and>
     s_flash (world s') = write_at (unat (normalise c addr - flash_base c)) img F \<and>
     s_program_errors (world s') = 0 \<and> s_ram (world s') = s_ram w \<and> s_resets (world s') = 0 \<and>
     s_illegal (world s') = 0 \<and> \<not> s_attached (world s')"
  using sim_flash_command [OF assms] by blast

lemma v003_range: "wl_flash_range_ok (Some (hd chips)) 0x08000041 (length [0x11 :: u8, 0x22, 0x33])"
  by (simp add: range_ok_unfold normalise_def v003 FB_V_def word_le_nat_alt)

theorem flash_writes_image_witness:
  "\<exists>s'. wl_linke_write_flash (Some (hd chips)) 0x08000041 (Some [0x11, 0x22, 0x33]) True (Some Write_progress) None
       (sim_session (v003_sim\<lparr>s_flash := replicate 0x4000 0xa5\<rparr>)) = Some (Inr (), s') \<and>
     take 6 (drop 0x40 (s_flash (world s'))) = [0xa5, 0x11, 0x22, 0x33, 0xa5, 0xa5]"
proof -
  have "take 6 (drop 0x40 (write_at 0x41 [0x11, 0x22, 0x33] (replicate 0x4000 0xa5))) =
      [0xa5, 0x11, 0x22, 0x33, 0xa5, 0xa5 :: u8]"
    by (simp add: write_at_def take_Cons' drop_Cons' numeral_2_eq_2)
  then show ?thesis
  using flash_writes_image [OF v003(1,2) v003_new, of "replicate 0x4000 0xa5" "0x08000041"
      "[0x11, 0x22, 0x33]" True "Some Write_progress" None] v003_range
  by (auto simp: v003 normalise_def FB_V_def)
qed

text \<open>C16: the progress callbacks of a flash command are called once per 64-byte page written and
  once per 256-byte chunk verified, with the number of image bytes done so far, the last
  call of each phase being the whole image.\<close>

theorem flash_reports_progress:
  assumes "c \<in> set chips" "algo c = WL_FLASH_CH32V0" "wl_sim_new (Some c) = Some w"
    and "length F = unat (flash_size c)" "wl_flash_range_ok (Some c) addr (length img)" "img \<noteq> []"
  shows "\<exists>s'. wl_linke_write_flash (Some c) addr (Some img) verify (Some Write_progress) (Some Verify_progress)
      (sim_session (w\<lparr>s_flash := F\<rparr>)) =
       Some (Inr (), s') \<and>
     (let so = unat (normalise c addr - flash_base c); n = length img in
      calls s' = map (\<lambda>k. (Write_progress, min (64 * k + 64) (so + n) - so, n)) [so div 64..<(so + n + 63) div 64] @
        (if verify then map (\<lambda>k. (Verify_progress, min (256 * k + 256) n, n)) [0..<(n + 255) div 256] else []))"
  using sim_flash_command [OF assms, of verify "Some Write_progress" "Some Verify_progress"]
  by (auto simp: page_calls_def verify_calls_def called_def Let_def)

theorem flash_reports_progress_witness:
  "\<exists>s'. wl_linke_write_flash (Some (hd chips)) 0x0800003f (Some [0x11, 0x22, 0x33]) True
       (Some Write_progress) (Some Verify_progress)
       (sim_session (v003_sim\<lparr>s_flash := replicate 0x4000 0xa5\<rparr>)) = Some (Inr (), s') \<and>
     calls s' = [(Write_progress, 1, 3), (Write_progress, 3, 3), (Verify_progress, 3, 3)]"
proof -
  have r: "wl_flash_range_ok (Some (hd chips)) 0x0800003f (length [0x11 :: u8, 0x22, 0x33])"
    by (simp add: range_ok_unfold normalise_def v003 FB_V_def word_le_nat_alt)
  show ?thesis
    using flash_reports_progress [OF v003(1,2) v003_new, of "replicate 0x4000 0xa5" "0x0800003f"
        "[0x11, 0x22, 0x33]" True] r
    by (auto simp: v003 normalise_def FB_V_def Let_def upt_rec)
qed

text \<open>C7: verification succeeds exactly when the flash holds the image, otherwise it reports a
  verification error. Either way flash, RAM, the flash controller, dpc, dcsr and every core
  register but x8 and x9 are as before; x8, x9, the program buffer and the debug module's
  own registers are used by the reads and may be overwritten, and unless the image is empty
  the programmer is left set up for the part and the target attached (halted).\<close>

theorem verify_decides:
  assumes "c \<in> set chips" "algo c = WL_FLASH_CH32V0" "wl_sim_new (Some c) = Some w"
    and "length F = unat (flash_size c)" "wl_flash_range_ok (Some c) addr (length img)"
  shows "\<exists>s'. wl_flash_verify (Some c) addr (Some img) progress (sim_session (w\<lparr>s_flash := F\<rparr>)) =
       Some (if take (length img) (drop (unat (normalise c addr - flash_base c)) F) = img
             then Inr () else Inl WL_ERR_VERIFY, s') \<and>
     accessed (if img = [] then w\<lparr>s_flash := F\<rparr> else set_up c (w\<lparr>s_flash := F\<rparr>)) (world s')"
proof -
  have ok: "chip_ok c" using assms(1) by (simp add: chip_okD)
  obtain so where so: "normalise c addr = FB_V + of_nat so" "so + length img \<le> length F"
    using normalise_FB_V [of c addr "length img"] ok assms by (auto simp: chip_ok_def)
  have sz: "length F \<le> 0x10000" using ok assms by (simp add: chip_ok_def)
  have off: "unat (normalise c addr - flash_base c) = so"
    using so sz ok assms by (intro normalise_offset) auto
  let ?s = "sim_session (w\<lparr>s_flash := F\<rparr>)" and ?old = "take (length img) (drop so F)"
  have idle: "sim_idle (world ?s)"
    using new_sim [OF assms(3)] sz by (simp add: sim_idle_def buf64_def)
  have "sim_target.holds (observed (world ?s)) (normalise c addr) ?old"
    unfolding sim_target.holds_def
  proof (intro allI impI)
    fix i assume "i < length ?old"
    then have "i + so < length F" "i < length img" by auto
    then show "sim_mem (observed (world ?s)) (normalise c addr + of_nat i) = Some (?old ! i)"
      using flash_address [of "so + i"] sz so by (simp add: sim_mem_def add.assoc)
  qed
  from sim_target.verify_ok [OF _ idle _ this, where expected = img and progress = progress] so off
  obtain s' where s': "wl_flash_verify (Some c) addr (Some img) progress ?s =
       Some (if take (length img) (drop (unat (normalise c addr - flash_base c)) F) = img
             then Inr () else Inl WL_ERR_VERIFY, s')" "observed (world s') = observed (world ?s)"
    by auto
  have start: "verifying c (world ?s) ?s" using idle by (simp add: verifying_def)
  have run: "verify_loop (Some c) (normalise c addr) img progress 0 ?s =
       Some (if take (length img) (drop (unat (normalise c addr - flash_base c)) F) = img
             then Inr () else Inl WL_ERR_VERIFY, s')"
    using s'(1) by (simp add: wl_flash_verify_def)
  show ?thesis
  proof (cases "img = []")
    case True
    then have "s' = ?s" using run by (simp add: verify_loop.simps)
    then show ?thesis using s'(1) True by (simp add: accessed_iff)
  next
    case False
    note v = verify_settings [OF start run]
    have "settings (world s') = settings (set_up c (world ?s))"
      using v False by (simp add: verifying_def)
    then have "accessed (set_up c (w\<lparr>s_flash := F\<rparr>)) (world s')"
      using s'(2) by (simp add: accessed_iff set_up_def)
    then show ?thesis using s'(1) False by auto
  qed
qed

theorem verify_decides_witness:
  "\<exists>s'. wl_flash_verify (Some (hd chips)) 0x08000041 (Some [0x11, 0x22, 0x33]) None
       (sim_session (v003_sim\<lparr>s_flash := replicate 0x4000 0xa5\<rparr>)) = Some (Inl WL_ERR_VERIFY, s')"
  using verify_decides [OF v003(1,2) v003_new, of "replicate 0x4000 0xa5" "0x08000041"
      "[0x11, 0x22, 0x33]" None] v003_range
  by (auto simp: v003 normalise_def FB_V_def numeral_3_eq_3)

text \<open>Requests that cannot be served are turned down before anything is sent.\<close>

text \<open>C14: without an image, for a part with no flash algorithm or for a range outside the flash,
  the writer reports a usage or not-implemented error before sending anything to the
  programmer.\<close>

theorem flash_write_refused:
  assumes "im = None \<or> im = Some [] \<or> algo c = WL_FLASH_UNSUPPORTED \<or>
     \<not> wl_flash_range_ok (Some c) addr (length (the im))"
  shows "wl_flash_write (Some c) addr im progress s =
     Some (Inl (if im = None \<or> im = Some [] then WL_ERR_USAGE
                else if algo c = WL_FLASH_UNSUPPORTED then WL_ERR_NOT_IMPLEMENTED else WL_ERR_USAGE), s)"
  using assms by (auto simp: wl_flash_write_def split: option.split)

theorem flash_write_refused_witness:
  "wl_flash_write (Some (hd chips)) 0x08003fff (Some [1, 2]) (Some Write_progress) (sim_session v003_sim) =
     Some (Inl WL_ERR_USAGE, sim_session v003_sim)"
proof -
  have "\<not> wl_flash_range_ok (Some (hd chips)) 0x08003fff (length (the (Some [1 :: u8, 2])))"
    by (simp add: range_ok_unfold normalise_def v003 FB_V_def)
  then show ?thesis
    using flash_write_refused [of "Some [1, 2]" "hd chips" "0x08003fff" "Some Write_progress" "sim_session v003_sim"]
    by (simp add: v003)
qed

text \<open>C15: for every length of 64 bits the range check, whose sum wraps at 2^64 as in the code,
  accepts a range exactly when every byte of it lies inside the part's flash, or when the
  sum wraps and what is left of it does not pass the end of flash; the second case needs a
  length near 2^64, which no object has.\<close>

theorem range_ok_every_byte:
  assumes "c \<in> set chips" "0 < n"
  shows "let a = unat (normalise c addr); base = unat (flash_base c); stop = base + unat (flash_size c) in
     range_ok64 (Some c) addr n \<longleftrightarrow>
       (\<forall>i < unat n. base \<le> a + i \<and> a + i < stop) \<or>
       base \<le> a \<and> 2 ^ 64 \<le> a + unat n \<and> a + unat n - 2 ^ 64 \<le> stop"
proof -
  define a stop where "a = unat (normalise c addr)" and "stop = unat (flash_base c) + unat (flash_size c)"
  let ?b = "unat (flash_base c)" and ?n = "unat n"
  have z: "flash_size c \<noteq> 0" using chip_okD [OF assms(1)] by (auto simp: chip_ok_def)
  have pos: "0 < ?n" using assms(2) by (simp add: word_less_nat_alt)
  have lt: "a < 2 ^ 32" "stop < 2 ^ 33" "?n < 2 ^ 64"
    using u32_bound [of "normalise c addr"] u32_bound [of "flash_base c"] u32_bound [of "flash_size c"]
      unsigned_less [of n] by (simp_all add: a_def stop_def)
  have every: "(\<forall>i < ?n. ?b \<le> a + i \<and> a + i < stop) \<longleftrightarrow> ?b \<le> a \<and> a + ?n \<le> stop"
  proof
    assume h: "\<forall>i < ?n. ?b \<le> a + i \<and> a + i < stop"
    from h [rule_format, of 0] h [rule_format, of "?n - 1"] pos
    show "?b \<le> a \<and> a + ?n \<le> stop" by auto
  qed auto
  have wrap: "(a + ?n) mod 2 ^ 64 = (if 2 ^ 64 \<le> a + ?n then a + ?n - 2 ^ 64 else a + ?n)"
    using lt by (simp add: mod_if)
  have "range_ok64 (Some c) addr n \<longleftrightarrow> ?b \<le> a \<and> (a + ?n) mod 2 ^ 64 \<le> stop"
    using z by (simp add: range_ok64_unat a_def stop_def word_le_nat_alt)
  also have "\<dots> \<longleftrightarrow> ?b \<le> a \<and> (a + ?n \<le> stop \<or> 2 ^ 64 \<le> a + ?n \<and> a + ?n - 2 ^ 64 \<le> stop)"
    unfolding wrap using lt by auto
  also have "\<dots> \<longleftrightarrow> (\<forall>i < ?n. ?b \<le> a + i \<and> a + i < stop) \<or>
      ?b \<le> a \<and> 2 ^ 64 \<le> a + ?n \<and> a + ?n - 2 ^ 64 \<le> stop"
    unfolding every by blast
  finally show ?thesis unfolding a_def stop_def Let_def .
qed

theorem range_ok_every_byte_witness:
  "range_ok64 (Some (hd chips)) 0x3fff 1 \<and> \<not> range_ok64 (Some (hd chips)) 0x3fff 2 \<and>
   range_ok64 (Some (hd chips)) 1 0xffffffffffffffff"
  using range_ok_every_byte [OF v003(1), of 1 "0x3fff"] range_ok_every_byte [OF v003(1), of 2 "0x3fff"]
    range_ok_every_byte [OF v003(1), of "0xffffffffffffffff" 1]
  by (auto simp: normalise_def v003 FB_V_def less_2_cases_iff Let_def)

text \<open>The alias of flash at address 0 and its home address name the same byte.\<close>

theorem normalise_alias:
  assumes "flash_base c = FB_V" "a AND 0xff000000 = 0"
  shows "normalise c a = normalise c (FB_V + a) \<and> normalise c (normalise c a) = normalise c a \<and>
     sim_flash_offset (normalise c a) = sim_flash_offset a \<and> sim_is_flash (normalise c a)"
proof -
  have or: "FB_V + a = FB_V OR a"
  proof (rule disjunctive_add_eq_or)
    have "FB_V AND a = (FB_V AND 0xff000000) AND a" by (simp add: FB_V_def)
    then show "FB_V AND a = 0" using assms(2) by (simp only: ac_simps) simp
  qed
  have hi: "(FB_V OR a) AND 0xff000000 = FB_V"
    using assms(2) by (simp add: and.commute [of _ "0xff000000"] bit.conj_disj_distrib FB_V_def)
  have lo: "(FB_V OR a) AND 0x00ffffff = a AND 0x00ffffff"
    by (simp add: and.commute [of _ "0x00ffffff"] bit.conj_disj_distrib FB_V_def)
  have n: "normalise c a = FB_V OR a" "normalise c (FB_V OR a) = FB_V OR a"
    using assms hi by (simp_all add: normalise_def FB_V_def or.commute)
  then show ?thesis
    using or hi lo by (simp add: sim_flash_offset_def sim_is_flash_def FB_V_def)
qed

theorem normalise_alias_witness:
  "normalise (hd chips) 0x100 = normalise (hd chips) 0x08000100"
  using normalise_alias [OF v003(4), of "0x100"] by (simp add: FB_V_def)
end
