(* ===== verification/CliRuns.thy ===== *)
theory CliRuns
  imports CliProps FlashProps
begin

text \<open>
  Runs of \<^verbatim>\<open>main\<close> on a bus with one programmer, at which the properties of the command line apply.
\<close>

definition idle_host :: "(unit, int) host" where
  "idle_host =
     \<lparr>h_usb = \<lparr>us_context = False, us_world = 0\<rparr>,
      h_link = wl_linke_attach_transport (wl_usb_transport one_probe) None, h_calls = [],
      h_program = ''wchlink'', h_level = WL_LEVEL_INFO, h_out = [], h_err = [],
      h_last_write = -1, h_last_verify = -1,
      h_files = (\<lambda>path. if path = ''big.bin'' then
          Some \<lparr>fn_regular = True, fn_size = 20000, fn_opens = True, fn_bytes = replicate 20000 0\<rparr> else None),
      h_sinks = (\<lambda>path. \<lparr>fs_creates = False, fs_takes = 0, fs_closes = False\<rparr>),
      h_strerror = ''No such file or directory'', h_signal = None, h_takes = [],
      h_gdb = \<lparr>ge_listens = False, ge_client = None, ge_stack = []\<rparr>\<rparr>"

text \<open>Printing always returns, and what it prints is all that changes.\<close>

definition same_side :: "('h, 'w) host \<Rightarrow> ('h, 'w) host \<Rightarrow> bool" where
  "same_side h h' \<longleftrightarrow> h_usb h' = h_usb h \<and> h_files h' = h_files h \<and> h_level h' = h_level h"

lemma listing_returns: "\<exists>h'. list_programmers i fs h = Some (Inr (), h') \<and> same_side h h'"
  by (induction i fs arbitrary: h rule: list_programmers.induct)
    (fastforce simp: same_side_def andThen_def print_def print_programmer_info_def)+

lemma one_probe_programmers:
  "wl_usb_scan one_probe WL_MAX_PROGRAMMERS \<lparr>us_context = True, us_world = 0\<rparr> =
      (Inr [\<lparr>ui_mode = WL_USB_MODE_RV, ui_vid = 0x1a86, ui_pid = 0x8010, ui_bus = 1, ui_address = 5,
             ui_accessible = True, ui_serial = ''0001'', ui_product = ''0001''\<rparr>],
       \<lparr>us_context = True, us_world = 0\<rparr>)"
  by (simp add: wl_usb_scan_def one_probe_def probe_device_def read_string_def classify_def usb_ids
      WL_MAX_PROGRAMMERS_def WL_USB_SERIAL_MAX_def WL_USB_PRODUCT_MAX_def)

lemma one_probe_init:
  "wl_usb_global_init one_probe \<lparr>us_context = False, us_world = 0\<rparr> = (0, \<lparr>us_context = True, us_world = 0\<rparr>)"
  "wl_usb_global_exit one_probe \<lparr>us_context = True, us_world = 0\<rparr> = \<lparr>us_context = False, us_world = 0\<rparr>"
  by (simp_all add: wl_usb_global_init_def wl_usb_global_exit_def one_probe_def)

lemma list_command:
  assumes "h_usb h = \<lparr>us_context = True, us_world = 0\<rparr>"
  shows "\<exists>h'. run_command one_probe ''programmer'' (initial_options\<lparr>o_file := Some ''list''\<rparr>) h = Some (Inr (), h') \<and>
     same_side h h'"
proof -
  have r: "run_command one_probe ''programmer'' (initial_options\<lparr>o_file := Some ''list''\<rparr>) =
      cmd_programmer_list one_probe (initial_options\<lparr>o_file := Some ''list''\<rparr>)"
    by (simp add: run_command_def cmd_programmer_def)
  have h: "h\<lparr>h_usb := \<lparr>us_context = True, us_world = 0\<rparr>\<rparr> = h" using assms by simp
  show ?thesis
    unfolding r cmd_programmer_list_def andThen_def [of "on_usb _"] on_usb_def assms one_probe_programmers
    using listing_returns by (fastforce simp: andThen_def print_def same_side_def h simp del: list_programmers.simps)
qed

lemma idle_logs: "logs wl_debug t idle_host = Some (Inr (), idle_host)"
  by (simp add: logs_def quiet_hides_the_rest idle_host_def)

lemma list_run:
  "\<exists>h'. main one_probe [''wchlink'', ''programmer'', ''list''] idle_host = Some (0, h')"
proof -
  have p: "parse_args [''programmer'', ''list''] None None initial_options h =
      Some (Inr (Some ''programmer'', initial_options\<lparr>o_file := Some ''list''\<rparr>), h)" for h :: "(unit, int) host"
    by (simp add: parse_word_def needs_def initial_options_def)
  have n: "named [''wchlink'', ''programmer'', ''list''] idle_host = idle_host"
    by (simp add: named_def basename_def idle_host_def)
  have i: "h_usb idle_host = \<lparr>us_context = False, us_world = 0\<rparr>" "h_level idle_host = WL_LEVEL_INFO"
    by (simp_all add: idle_host_def)
  obtain h' where "run_command one_probe ''programmer'' (initial_options\<lparr>o_file := Some ''list''\<rparr>)
      (idle_host\<lparr>h_usb := \<lparr>us_context = True, us_world = 0\<rparr>\<rparr>) = Some (Inr (), h')"
    "same_side (idle_host\<lparr>h_usb := \<lparr>us_context = True, us_world = 0\<rparr>\<rparr>) h'"
    using list_command [of "idle_host\<lparr>h_usb := \<lparr>us_context = True, us_world = 0\<rparr>\<rparr>"] by auto
  then show ?thesis
    unfolding main_named list.sel n andThen_def [of "parse_args _ _ _ _"] p run_main_def
    by (simp add: andThen_def with_program_def i idle_logs one_probe_init same_side_def)
qed

theorem no_handle_leaks_witness:
  "\<exists>h'. main one_probe [''wchlink'', ''programmer'', ''list''] idle_host = Some (0, h') \<and> us_world (h_usb h') = 0"
proof -
  obtain h' where h': "main one_probe [''wchlink'', ''programmer'', ''list''] idle_host = Some (0, h')"
    using list_run by blast
  then have "us_world (h_usb h') = us_world (h_usb idle_host)"
    by (rule no_handle_leaks [OF one_probe_counts])
  with h' show ?thesis by (simp add: idle_host_def)
qed

theorem exit_statuses_witness:
  "\<exists>h'. main one_probe [''wchlink'', ''programmer'', ''list''] idle_host = Some (0, h') \<and> (0 :: nat) \<le> 3 \<and>
     (\<exists>p h1. parse_args [''programmer'', ''list''] None None initial_options
        (named [''wchlink'', ''programmer'', ''list''] idle_host) = Some (p, h1) \<and> h_usb h1 = h_usb idle_host)"
proof -
  obtain h' where h': "main one_probe [''wchlink'', ''programmer'', ''list''] idle_host = Some (0, h')"
    using list_run by blast
  from exit_statuses [OF this] h' show ?thesis by auto
qed

lemma v003_named: "wl_chip_by_name (Some ''ch32v003'') = Some (hd chips)"
  by code_simp

theorem flash_refused_early_witness:
  "\<exists>e h'. cmd_flash one_probe (initial_options\<lparr>o_chip := Some ''ch32v003'', o_file := Some ''big.bin''\<rparr>) idle_host =
       Some (Inl e, h') \<and> us_world (h_usb h') = 0"
proof -
  let ?opts = "initial_options\<lparr>o_chip := Some ''ch32v003'', o_file := Some ''big.bin''\<rparr>"
  have "read_file ''big.bin'' idle_host = Some (Inr img, h1) \<Longrightarrow> length img = 20000" for img h1
    by (auto simp: read_file_def idle_host_def andThen_def split: if_splits)
  moreover have "\<not> wl_flash_range_ok (Some (hd chips)) a 20000" for a
    by (simp add: range_ok_unfold Let_def v003 word_le_nat_alt FB_V_def)
  ultimately have "\<not> (\<exists>chip img h1. wl_chip_by_name (Some ''ch32v003'') = Some chip \<and> wl_linke_can_flash (Some chip) \<and>
      read_file (the (o_file ?opts)) idle_host = Some (Inr img, h1) \<and>
      wl_flash_range_ok (Some chip) (flash_address ?opts chip) (length img))"
    using v003_named by auto
  from flash_refused_early [OF _ this, where lib = one_probe]
  show ?thesis by (auto simp: idle_host_def)
qed

end
