(* ===== verification/Alike.thy ===== *)
theory Alike
  imports Flash
begin

text \<open>
  The link layer, the debug module and the flash layer see a programmer through its transport only:
  over two transports that answer alike, every one of their functions returns the same result and
  leaves two worlds that are still alike.  So what is proved of a function over one transport holds
  over every transport that answers like it.
\<close>

section \<open>Programs that do the same\<close>

text \<open>
  From related states, whenever the first program returns so does the second, with the same result
  and again in related states.
\<close>

definition mirrored :: "('s \<Rightarrow> 't \<Rightarrow> bool) \<Rightarrow> ('s, 'e, 'a) prog \<Rightarrow> ('t, 'e, 'a) prog \<Rightarrow> bool" where
  "mirrored R m n \<longleftrightarrow>
     (\<forall>s t r s'. R s t \<longrightarrow> m s = Some (r, s') \<longrightarrow> (\<exists>t'. n t = Some (r, t') \<and> R s' t'))"

named_theorems mirror_intro "rules that reduce a correspondence of programs to their parts"

lemma mirroredI:
  "(\<And>s t r s'. R s t \<Longrightarrow> m s = Some (r, s') \<Longrightarrow> \<exists>t'. n t = Some (r, t') \<and> R s' t') \<Longrightarrow> mirrored R m n"
  by (simp add: mirrored_def)

lemma mirroredE:
  assumes "mirrored R m n" "R s t" "m s = Some (r, s')"
  obtains t' where "n t = Some (r, t')" "R s' t'"
  using assms unfolding mirrored_def by blast

lemma mirrored_trivial [mirror_intro]:
  "mirrored R (ret x) (ret x)" "mirrored R (fail e) (fail e)" "mirrored R (\<lambda>s. Some (r, s)) (\<lambda>s. Some (r, s))"
  by (auto simp: mirrored_def)

lemma mirrored_updates [mirror_intro]:
  "(\<And>s t. R s t \<Longrightarrow> R (f s) (g t)) \<Longrightarrow> mirrored R (updates f) (updates g)"
  by (simp add: mirrored_def)

lemma mirrored_attempt [mirror_intro]:
  assumes m: "mirrored R m n" and f: "\<And>r. mirrored R (f r) (g r)"
  shows "mirrored R (attempt m f) (attempt n g)"
proof (rule mirroredI)
  fix s t r s' assume R: "R s t" and run: "attempt m f s = Some (r, s')"
  then obtain r1 s1 where 1: "m s = Some (r1, s1)" "f r1 s1 = Some (r, s')"
    by (auto simp: attempt_def split: option.splits)
  obtain t1 where 2: "n t = Some (r1, t1)" "R s1 t1" using mirroredE [OF m R 1(1)] .
  obtain t' where "g r1 t1 = Some (r, t')" "R s' t'" using mirroredE [OF f 2(2) 1(2)] .
  with 2 show "\<exists>t'. attempt n g t = Some (r, t') \<and> R s' t'" by (simp add: attempt_def)
qed

lemma andThen_attempt: "andThen m f = attempt m (\<lambda>r. case r of Inl e \<Rightarrow> fail e | Inr x \<Rightarrow> f x)"
  by (rule ext) (simp add: andThen_def attempt_def split: option.split sum.split)

lemma mirrored_andThen [mirror_intro]:
  assumes "mirrored R m n" and "\<And>x. mirrored R (f x) (g x)"
  shows "mirrored R (andThen m f) (andThen n g)"
  unfolding andThen_attempt
  by (rule mirrored_attempt [OF assms(1)]) (auto intro: mirrored_trivial assms(2) split: sum.split)

lemma mirrored_ignoring [mirror_intro]: "mirrored R m n \<Longrightarrow> mirrored R (ignoring m) (ignoring n)"
  unfolding ignoring_def by (intro mirror_intro)

lemma mirrored_cleanup [mirror_intro]:
  "mirrored R m n \<Longrightarrow> mirrored R c d \<Longrightarrow> mirrored R (cleanup m c) (cleanup n d)"
  unfolding cleanup_def by (intro mirror_intro)

lemma mirrored_if [mirror_intro]:
  "(b \<Longrightarrow> mirrored R m m') \<Longrightarrow> (\<not> b \<Longrightarrow> mirrored R n n') \<Longrightarrow>
     mirrored R (if b then m else n) (if b then m' else n')"
  by simp

lemma mirrored_let [mirror_intro]:
  "(\<And>x. x = v \<Longrightarrow> mirrored R (f x) (g x)) \<Longrightarrow> mirrored R (let x = v in f x) (let x = v in g x)"
  by simp

lemma mirrored_cases [mirror_intro]:
  "(x = None \<Longrightarrow> mirrored R m m') \<Longrightarrow> (\<And>y. x = Some y \<Longrightarrow> mirrored R (f y) (f' y)) \<Longrightarrow>
     mirrored R (case x of None \<Rightarrow> m | Some y \<Rightarrow> f y) (case x of None \<Rightarrow> m' | Some y \<Rightarrow> f' y)"
  "(\<And>a. z = Inl a \<Longrightarrow> mirrored R (g a) (g' a)) \<Longrightarrow> (\<And>b. z = Inr b \<Longrightarrow> mirrored R (k b) (k' b)) \<Longrightarrow>
     mirrored R (case z of Inl a \<Rightarrow> g a | Inr b \<Rightarrow> k b) (case z of Inl a \<Rightarrow> g' a | Inr b \<Rightarrow> k' b)"
  "(\<And>a b. p = (a, b) \<Longrightarrow> mirrored R (q a b) (q' a b)) \<Longrightarrow>
     mirrored R (case p of (a, b) \<Rightarrow> q a b) (case p of (a, b) \<Rightarrow> q' a b)"
  by (auto split: option.split sum.split prod.split)

section \<open>Transports that answer alike\<close>

locale alike =
  fixes tr :: "('x, 'w) wl_transport" and cx :: "'x option"
    and tr' :: "('y, 'v) wl_transport" and cx' :: "'y option"
    and J :: "'w \<Rightarrow> 'v \<Rightarrow> bool"
  assumes alike_law: "3 \<le> length request \<Longrightarrow> request ! 0 = 0x81 \<Longrightarrow> J w v \<Longrightarrow>
    \<exists>reply w1 v1. tr_command tr cx request 64 w = ((0, reply), w1) \<and>
      tr_command tr' cx' request 64 v = ((0, reply), v1) \<and> J w1 v1"
begin

definition paired :: "('x, 'w) sess \<Rightarrow> ('y, 'v) sess \<Rightarrow> bool" where
  "paired s t \<longleftrightarrow>
     lk_transport (link s) = Some tr \<and> lk_ctx (link s) = cx \<and> lk_open (link s) \<and>
     lk_transport (link t) = Some tr' \<and> lk_ctx (link t) = cx' \<and> lk_open (link t) \<and>
     lk_configured (link t) = lk_configured (link s) \<and> lk_chip_id (link t) = lk_chip_id (link s) \<and>
     calls t = calls s \<and> J (world s) (world t)"

text \<open>The shortest form of the statement: a function over one transport and over the other.\<close>

abbreviation like :: "('x, 'w, 'a) lprog \<Rightarrow> ('y, 'v, 'a) lprog \<Rightarrow> bool" where
  "like m n \<equiv> mirrored paired m n"

lemma like_command [mirror_intro]:
  assumes "3 \<le> length request" "request ! 0 = 0x81" "mx = 0 \<or> mx = 64"
  shows "like (wl_linke_command request mx) (wl_linke_command request mx)"
proof (rule mirroredI)
  fix s t r s' assume p: "paired s t" and run: "wl_linke_command request mx s = Some (r, s')"
  then obtain reply w1 v1 where "tr_command tr cx request 64 (world s) = ((0, reply), w1)"
    "tr_command tr' cx' request 64 (world t) = ((0, reply), v1)" "J w1 v1"
    using alike_law [OF assms(1,2), of "world s" "world t"] by (auto simp: paired_def)
  with p run assms(3) show "\<exists>t'. wl_linke_command request mx t = Some (r, t') \<and> paired s' t'"
    by (auto simp: wl_linke_command_def paired_def WL_REPLY_MAX_def)
qed

lemma like_control [mirror_intro]:
  "mx = 0 \<or> mx = 64 \<Longrightarrow> like (send_control c a mx) (send_control c a mx)"
  unfolding send_control_def by (intro mirror_intro) simp_all

lemma like_halt [mirror_intro]: "like wl_linke_halt wl_linke_halt"
  unfolding wl_linke_halt_def by (intro mirror_intro) simp_all

lemma like_resume [mirror_intro]: "like wl_linke_resume wl_linke_resume"
  unfolding wl_linke_resume_def WL_REPLY_MAX_def by (intro mirror_intro) simp_all

lemma like_reset [mirror_intro]: "like wl_linke_reset wl_linke_reset" "like wl_linke_unbrick wl_linke_unbrick"
  unfolding wl_linke_unbrick_def wl_linke_reset_def WL_REPLY_MAX_def by (intro mirror_intro; simp)+

lemma like_version [mirror_intro]: "like (wl_linke_get_version n) (wl_linke_get_version n)"
  unfolding wl_linke_get_version_def WL_REPLY_MAX_def by (intro mirror_intro) simp_all

lemma like_set_interface_raw [mirror_intro]: "like (set_interface_raw f v) (set_interface_raw f v)"
  unfolding set_interface_raw_def WL_REPLY_MAX_def by (intro mirror_intro) simp_all

lemma like_set_interface [mirror_intro]: "like (wl_linke_set_interface ch) (wl_linke_set_interface ch)"
proof (cases ch)
  case None
  then show ?thesis by (simp add: wl_linke_set_interface_def mirrored_trivial)
next
  case (Some c)
  have raw: "like (andDo (set_interface_raw (linke_id c) (interface_speed c))
        (updates (\<lambda>s. s\<lparr>link := (link s)\<lparr>lk_chip_id := linke_id c, lk_configured := True\<rparr>\<rparr>)))
      (andDo (set_interface_raw (linke_id c) (interface_speed c))
        (updates (\<lambda>s. s\<lparr>link := (link s)\<lparr>lk_chip_id := linke_id c, lk_configured := True\<rparr>\<rparr>)))"
    by (intro mirror_intro) (simp add: paired_def)
  show ?thesis
  proof (rule mirroredI)
    fix s t r s' assume p: "paired s t" and run: "wl_linke_set_interface ch s = Some (r, s')"
    from p have same: "lk_configured (link t) = lk_configured (link s)" "lk_chip_id (link t) = lk_chip_id (link s)"
      by (simp_all add: paired_def)
    show "\<exists>t'. wl_linke_set_interface ch t = Some (r, t') \<and> paired s' t'"
      using p run raw unfolding mirrored_def
      by (auto simp: wl_linke_set_interface_def Some andThen_def [of "reads _"] same simp del: updates_apply
          split: if_splits)
  qed
qed

lemma like_identify [mirror_intro]:
  "like identify_chip_once identify_chip_once" "like wl_linke_identify_chip wl_linke_identify_chip"
proof -
  show once: "like identify_chip_once identify_chip_once"
    unfolding identify_chip_once_def WL_REPLY_MAX_def by (intro mirror_intro) (auto simp: paired_def)
  show "like wl_linke_identify_chip wl_linke_identify_chip"
    unfolding wl_linke_identify_chip_def by (intro mirror_intro once) simp_all
qed

lemma like_registers [mirror_intro]:
  "like (reg_access r v opn) (reg_access r v opn)"
  "like (wl_linke_dmi_read r) (wl_linke_dmi_read r)" "like (wl_linke_dmi_write r v) (wl_linke_dmi_write r v)"
proof -
  have r: "like (reg_access r v opn) (reg_access r v opn)" for r v opn
    unfolding reg_access_def reg_request_def WL_REPLY_MAX_def by (intro mirror_intro) simp_all
  show "like (reg_access r v opn) (reg_access r v opn)" by (rule r)
  show "like (wl_linke_dmi_read r) (wl_linke_dmi_read r)" "like (wl_linke_dmi_write r v) (wl_linke_dmi_write r v)"
    unfolding wl_linke_dmi_read_def wl_linke_dmi_write_def by (intro mirror_intro r)+
qed

section \<open>The debug module\<close>

lemma like_dm_poll [mirror_intro]: "like (dm_poll n cs) (dm_poll n cs)"
  by (induction n arbitrary: cs) (simp_all add: mirror_intro del: ret_apply)

lemma like_dm_command [mirror_intro]:
  "like dm_wait dm_wait" "like (dm_command c v b want) (dm_command c v b want)"
  unfolding dm_wait_def dm_command_def by (intro mirror_intro)+

lemma like_gpr [mirror_intro]:
  "like (wl_dm_gpr_write r v) (wl_dm_gpr_write r v)" "like (wl_dm_gpr_read r) (wl_dm_gpr_read r)"
  "like wl_dm_pc_read wl_dm_pc_read" "like (wl_dm_pc_write v) (wl_dm_pc_write v)"
  unfolding wl_dm_gpr_write_def wl_dm_gpr_read_def wl_dm_pc_read_def wl_dm_pc_write_def
  by (intro mirror_intro)+

lemma like_csr [mirror_intro]:
  "like (wl_dm_csr_read r) (wl_dm_csr_read r)" "like (wl_dm_csr_write r v) (wl_dm_csr_write r v)"
  "like wl_dm_dcsr_read wl_dm_dcsr_read" "like (wl_dm_dcsr_write v) (wl_dm_dcsr_write v)"
  unfolding wl_dm_csr_read_def wl_dm_csr_write_def wl_dm_dcsr_read_def wl_dm_dcsr_write_def dm_csr_access_def
  by (intro mirror_intro)+

lemma like_load_words [mirror_intro]: "like (dm_load_words i xs) (dm_load_words i xs)"
  by (induction i xs rule: dm_load_words.induct) (simp_all add: mirror_intro del: ret_apply)

lemma like_run [mirror_intro]: "like (dm_run p a v want) (dm_run p a v want)"
  unfolding dm_run_def dm_load_program_def by (intro mirror_intro)

lemma like_memory [mirror_intro]:
  "like (dm_read_sized k a) (dm_read_sized k a)" "like (wl_dm_read32 a) (wl_dm_read32 a)"
  "like (wl_dm_read16 a) (wl_dm_read16 a)" "like (wl_dm_write32 a v) (wl_dm_write32 a v)"
  "like (wl_dm_write16 a v16) (wl_dm_write16 a v16)" "like (wl_dm_write8 a v8) (wl_dm_write8 a v8)"
  unfolding dm_read_sized_def wl_dm_read32_def wl_dm_read16_def wl_dm_write32_def wl_dm_write16_def
    wl_dm_write8_def wl_dm_run_read_def wl_dm_run_write_def
  by (intro mirror_intro)+

lemma like_read_loops [mirror_intro]:
  "like (read_head n a out) (read_head n a out)" "like (read_words n a out) (read_words n a out)"
  "like (read_tail n a out) (read_tail n a out)"
proof -
  show "like (read_head n a out) (read_head n a out)"
    by (induction n arbitrary: a out) (simp_all add: mirror_intro del: ret_apply)
  show "like (read_words n a out) (read_words n a out)"
  proof (induction n a out rule: read_words.induct)
    case (1 n a out)
    then show ?case unfolding read_words.simps [of n a out] by (intro mirror_intro)
  qed
  show "like (read_tail n a out) (read_tail n a out)"
    by (induction n arbitrary: a out) (simp_all add: mirror_intro del: ret_apply)
qed

lemma like_read_block [mirror_intro]: "like (wl_dm_read_block a n) (wl_dm_read_block a n)"
  unfolding wl_dm_read_block_def by (intro mirror_intro)

section \<open>Flash\<close>

lemma like_poll_statr [mirror_intro]: "like (poll_statr n st) (poll_statr n st)"
  by (induction n arbitrary: st) (simp_all add: mirror_intro del: ret_apply)

lemma like_flash_steps [mirror_intro]:
  "like wait_ready wait_ready" "like (ctlr_update a b) (ctlr_update a b)" "like unlock unlock"
  "like (report p d n) (report p d n)"
  unfolding wait_ready_def ctlr_update_def unlock_def report_def
  by (intro mirror_intro; simp add: paired_def)+

lemma like_flash_pages [mirror_intro]:
  "like (erase_page_fast p) (erase_page_fast p)" "like buffer_reset buffer_reset"
  "like (buffer_load p x) (buffer_load p x)" "like (program_page_fast p) (program_page_fast p)"
  unfolding erase_page_fast_def buffer_reset_def buffer_load_def program_page_fast_def
  by (intro mirror_intro)+

lemma like_load_buffer [mirror_intro]: "like (load_buffer p n m i) (load_buffer p n m i)"
proof (induction p n m i rule: load_buffer.induct)
  case (1 p n m i)
  then show ?case unfolding load_buffer.simps [of p n m i] by (intro mirror_intro)
qed

lemma like_write_page [mirror_intro]:
  "like (write_page pr ps start stop img page) (write_page pr ps start stop img page)"
  unfolding write_page_def by (intro mirror_intro)

lemma like_write_pages [mirror_intro]:
  "like (write_pages pr ps start stop img page) (write_pages pr ps start stop img page)"
proof (rule mirroredI)
  fix s t r s' assume p: "paired s t" and run: "write_pages pr ps start stop img page s = Some (r, s')"
  have "\<forall>t. paired s t \<longrightarrow>
      (\<exists>t'. write_pages pr ps start stop img page t = Some (fst y, t') \<and> paired (snd y) t')"
    if "write_pages pr ps start stop img page s = Some y" for y s
  proof (rule write_pages.raw_induct [OF _ that, where P = "\<lambda>pr ps start stop img page s y.
      \<forall>t. paired s t \<longrightarrow> (\<exists>t'. write_pages pr ps start stop img page t = Some (fst y, t') \<and> paired (snd y) t')"])
    fix f pr ps start stop img page s y
    assume IH: "\<And>pr ps start stop img page s y. f pr ps start stop img page s = Some y \<Longrightarrow>
        \<forall>t. paired s t \<longrightarrow> (\<exists>t'. write_pages pr ps start stop img page t = Some (fst y, t') \<and> paired (snd y) t')"
      and run: "(if page < stop then andThen (write_page pr ps start stop img page)
          (\<lambda>_. f pr ps start stop img (page + ps)) s else Some (Inr (), s)) = Some y"
    have f: "like (f pr ps start stop img p) (write_pages pr ps start stop img p)" for p
      using IH by (intro mirroredI) fastforce
    have "like (andThen (write_page pr ps start stop img page) (\<lambda>_. f pr ps start stop img (page + ps)))
        (andThen (write_page pr ps start stop img page) (\<lambda>_. write_pages pr ps start stop img (page + ps)))"
      by (intro mirror_intro f)
    with run show "\<forall>t. paired s t \<longrightarrow>
        (\<exists>t'. write_pages pr ps start stop img page t = Some (fst y, t') \<and> paired (snd y) t')"
      by (subst write_pages.simps) (auto simp: mirrored_def split: if_splits)
  qed
  from this [OF run] p show "\<exists>t'. write_pages pr ps start stop img page t = Some (r, t') \<and> paired s' t'"
    by simp
qed

lemma like_read_memory [mirror_intro]:
  "like (wl_linke_read_memory ch a n) (wl_linke_read_memory ch a n)"
  unfolding wl_linke_read_memory_def by (intro mirror_intro)

lemma like_verify_loop [mirror_intro]: "like (verify_loop ch start e pr d) (verify_loop ch start e pr d)"
proof (induction ch start e pr d rule: verify_loop.induct)
  case (1 ch start e pr d)
  then show ?case unfolding verify_loop.simps [of ch start e pr d] by (intro mirror_intro) auto
qed

lemma like_flash_commands [mirror_intro]:
  "like (wl_flash_write ch a im pr) (wl_flash_write ch a im pr)"
  "like (wl_flash_verify ch a im pr) (wl_flash_verify ch a im pr)"
  "like (wl_linke_write_flash ch a im vf wp vp) (wl_linke_write_flash ch a im vf wp vp)"
proof -
  have c: "like (wl_flash_ch32v0_write c a img pr) (wl_flash_ch32v0_write c a img pr)" for c a img pr
    unfolding wl_flash_ch32v0_write_def by (intro mirror_intro)
  show w: "like (wl_flash_write ch a im pr) (wl_flash_write ch a im pr)" for ch a im pr
    by (cases ch; cases im)
      (auto simp: wl_flash_write_def Let_def intro!: mirror_intro c split: wl_flash_algo.split)
  show v: "like (wl_flash_verify ch a im pr) (wl_flash_verify ch a im pr)" for ch a im pr
    by (cases ch; cases im) (auto simp: wl_flash_verify_def intro!: mirror_intro)
  show "like (wl_linke_write_flash ch a im vf wp vp) (wl_linke_write_flash ch a im vf wp vp)"
    unfolding wl_linke_write_flash_def by (intro mirror_intro w v)
qed

end

end
