(* ===== verification/LinkProps.thy ===== *)
theory LinkProps
  imports SimRegs
begin

text \<open>
  Properties of the request layer and of the debug module layer: some hold for every transport,
  the others say what the requests do to the simulated programmer and its target.
\<close>

section \<open>A simulator that is set up\<close>

definition v003_set :: wl_sim where
  "v003_set = v003_sim\<lparr>s_configured := True\<rparr>"

lemma v003_not_set: "\<not> s_configured v003_sim"
  using new_sim(12) [OF v003_new] by simp

lemma v003_set_ready: "s_configured v003_set" "s_cmderr v003_set = 0" "sim_idle v003_set"
  using new_sim [OF v003_new] v003
  by (simp_all add: v003_set_def sim_idle_def buf64_def)

lemma v003_flash:
  "s_flash v003_set = replicate 0x4000 0xff" "s_ram v003_set = replicate 0x800 0" "s_chip v003_set = hd chips"
  "ram_offset (hd chips) = 0x20000000" "ram_size (hd chips) = 0x800"
  by (simp_all add: v003_set_def v003_sim_def wl_sim_new_def chips_def chip_table chip_row)

section \<open>Requests and replies\<close>

text \<open>C11: on any transport, memory access, chip detection, the interface setting and the reset
  sequence return, reach the programmer only through the link's own transport, and fail with
  a USB or target error only (reset with a USB error only).\<close>

theorem target_requests_return:
  "safe (same_link L) (\<lambda>e. e = WL_ERR_USB \<or> e = WL_ERR_TARGET) (wl_dm_read_block a n) \<and>
   safe (same_link L) (\<lambda>e. e = WL_ERR_USB \<or> e = WL_ERR_TARGET) (wl_dm_write32 a v) \<and>
   safe (same_link L) (\<lambda>e. e = WL_ERR_USB \<or> e = WL_ERR_TARGET) wl_linke_identify_chip \<and>
   safe (same_link L) (\<lambda>e. e = WL_ERR_USB \<or> e = WL_ERR_TARGET) (wl_linke_set_interface (Some c)) \<and>
   safe (same_link L) (\<lambda>e. e = WL_ERR_USB) wl_linke_reset"
  by (intro conjI safe_intro) simp_all

theorem interface_set_once:
  assumes "wl_linke_set_interface (Some c) s = Some (Inr (), s')"
  shows "wl_linke_set_interface (Some c) s' = Some (Inr (), s')"
proof -
  have "lk_configured (link s') \<and> lk_chip_id (link s') = linke_id c"
    using assms
    by (auto simp: wl_linke_set_interface_def run split: if_splits option.splits sum.splits)
  then show ?thesis by (simp add: wl_linke_set_interface_def run)
qed

theorem interface_set_once_witness:
  "\<exists>s'. wl_linke_set_interface (Some (hd chips)) (sim_session v003_sim) = Some (Inr (), s') \<and>
     wl_linke_set_interface (Some (hd chips)) s' = Some (Inr (), s')"
proof -
  obtain s' where "wl_linke_set_interface (Some (hd chips)) (sim_session v003_sim) = Some (Inr (), s')"
    using sim_link.set_interface_ok [of "sim_session v003_sim" "hd chips"] by (auto split: if_splits)
  from this interface_set_once [OF this] show ?thesis by blast
qed

text \<open>Classification of the reply to a register request.\<close>

text \<open>C20: a register request yields the big-endian value of a nine-byte reply with the right
  header and a good status, a USB error when the transport fails, and a target error for
  every other reply.\<close>

theorem register_reply:
  assumes "lk_open (link s)" "lk_transport (link s) = Some tr"
    and "tr_command tr (lk_ctx (link s)) (reg_request reg value operation) 64 (world s) = ((rc, reply), w)"
  shows "reg_access reg value operation s =
     Some (if rc < 0 then Inl WL_ERR_USB
           else if length reply = 9 \<and> reply ! 0 = 0x82 \<and> reply ! 8 \<notin> {2, 3}
             then Inr (word_of (reply ! 7) (reply ! 6) (reply ! 5) (reply ! 4))
           else Inl WL_ERR_TARGET, s\<lparr>world := w\<rparr>)"
  using assms
  by (auto simp: reg_access_def run wl_linke_command_def reply_ok_def wire_consts)

theorem register_reply_witness:
  "reg_access 0x11 0 1 (sim_session v003_sim) = Some (Inl WL_ERR_TARGET, sim_session v003_sim)"
proof -
  have "tr_command sim_transport (Some ()) (reg_request 0x11 0 1) 64 v003_sim =
      ((0, [0x81, 0x55, 0x01, 0x00]), v003_sim)"
    by (simp add: sim_transport_def sim_command_def reg_request_def wire_consts sim_register_def
        v003_not_set sim_refuse_def Let_def)
  then show ?thesis
    using register_reply [of "sim_session v003_sim" sim_transport "0x11" 0 1 0 "[0x81, 0x55, 0x01, 0x00]" v003_sim]
    by (simp add: sim_session_def wl_linke_attach_transport_def)
qed

text \<open>A debug module that never stops being busy is given up on.\<close>

text \<open>C21: a debug module that never stops being busy is given up on: the wait for an abstract
  command returns a target error.\<close>

theorem busy_module_times_out:
  assumes "lk_open (link s)" "lk_transport (link s) = Some tr"
    and "\<And>w. \<exists>w' b. tr_command tr (lk_ctx (link s)) (reg_request 0x16 0 1) 64 w =
       ((0, [0x82, 0x08, 0x06, 0x16] @ be_bytes b @ [0]), w') \<and> bit b 12"
  shows "\<exists>s'. dm_wait s = Some (Inl WL_ERR_TARGET, s')"
proof -
  have r: "\<exists>w b. wl_linke_dmi_read WL_DMI_DMABSTRACTCS t = Some (Inr b, t\<lparr>world := w\<rparr>) \<and> bit b 12"
    if "link t = link s" for t
  proof -
    obtain w b where "tr_command tr (lk_ctx (link s)) (reg_request 0x16 0 1) 64 (world t) =
       ((0, [0x82, 0x08, 0x06, 0x16] @ be_bytes b @ [0]), w)" "bit b 12"
      using assms(3) by blast
    then have "reg_access 0x16 0 1 t = Some (Inr b, t\<lparr>world := w\<rparr>)"
      using register_reply [of t tr "0x16" 0 1 0 _ w] that assms(1,2) by (simp add: be_bytes_def)
    then show ?thesis using \<open>bit b 12\<close> by (auto simp: wl_linke_dmi_read_def dmi_regs wire_consts)
  qed
  have busy: "b AND WL_DM_ABSTRACTCS_BUSY \<noteq> 0 \<longleftrightarrow> bit b 12" for b
    using and_exp_eq_0_iff_not_bit [of b 12] by (simp add: WL_DM_ABSTRACTCS_BUSY_def)
  have "link t = link s \<Longrightarrow> 0 < n \<Longrightarrow> \<exists>b w. dm_poll n cs t = Some (Inr b, t\<lparr>world := w\<rparr>) \<and> bit b 12" for n cs t
  proof (induction n arbitrary: cs t)
    case (Suc n)
    obtain w b where "wl_linke_dmi_read WL_DMI_DMABSTRACTCS t = Some (Inr b, t\<lparr>world := w\<rparr>)" "bit b 12"
      using r Suc.prems by blast
    then show ?case
      using Suc.IH [of "t\<lparr>world := w\<rparr>" b] Suc.prems busy [of b] by (cases n) (auto simp: andThen_def)
  qed simp
  from this [of s WL_DM_TIMEOUT_US 0] show ?thesis
    by (auto simp: dm_wait_def andThen_def busy WL_DM_TIMEOUT_US_def)
qed

definition busy_transport :: "(unit, unit) wl_transport" where
  "busy_transport =
     \<lparr>tr_command = (\<lambda>cx request mx w. ((0, [0x82, 0x08, 0x06, 0x16] @ be_bytes 0x1000 @ [0]), w)),
      tr_bulk_out = (\<lambda>cx bs w. (-1, w))\<rparr>"

theorem busy_module_times_out_witness:
  "\<exists>s'. dm_wait \<lparr>link = wl_linke_attach_transport busy_transport None, world = (), calls = []\<rparr> =
     Some (Inl WL_ERR_TARGET, s')"
  by (rule busy_module_times_out [of _ busy_transport])
    (simp_all add: wl_linke_attach_transport_def busy_transport_def exI [of _ "0x1000 :: u32"])

lemma detect_of_row:
  assumes "c \<in> set chips"
  shows "wl_chip_by_detect_id (linke_id c) (model_id c) = Some c"
proof -
  have "model_id c AND 0xf = 0" using chips_model_nibble assms by (simp add: list_all_iff)
  moreover have "model_id c = (model_id c AND 0xf) OR (model_id c AND NOT 0xf)"
    by (rule bit_word_eqI) (auto simp: bit_simps)
  moreover have "(NOT 0xf :: u16) = 0xfff0" by simp
  ultimately have "model_id c AND 0xfff0 = model_id c" by (simp only: or.left_neutral)
  then show ?thesis
    unfolding wl_chip_by_detect_id_def using find_detect_id_Some [OF chips_ids_distinct] assms by simp
qed


lemma model_bytes: "push_bit 8 (ucast (ucast (drop_bit 8 m) :: u8)) OR ucast (ucast m :: u8) = (m :: u16)"
  by (rule bit_word_eqI) (auto simp: bit_simps)

lemma sim_attach_reply:
  "sim_command (Some ()) [0x81, 0x0d, 0x01, 0x02] n w =
     (if s_attached w \<and> s_fail_attach_while_attached w then ((0, [0x82, 0x0d, 0x05, 0x09]), w)
      else ((0, [0x82, 0x0d, 0x05, linke_id (s_chip w), ucast (drop_bit 8 (model_id (s_chip w))),
                 ucast (model_id (s_chip w)), 0x05, 0x00]), w\<lparr>s_attached := True\<rparr>))"
  by (simp add: sim_command_def sim_control_def Let_def)

lemma sim_setting_reply:
  "sim_command (Some ()) [0x81, 0x0c, 0x02, f, v] n w =
     ((0, [0x82, 0x0c, 0x02, f]), w\<lparr>s_chip_id := f, s_interface_speed := v, s_configured := True\<rparr>)"
  by (simp add: sim_command_def Let_def)

lemma identify_once_sim:
  assumes "lk_open (link s)" "lk_transport (link s) = Some sim_transport" "lk_ctx (link s) = Some ()"
    and c: "s_chip (world s) \<in> set chips"
  shows "\<exists>s'. identify_chip_once s =
     Some (if s_attached (world s) \<and> s_fail_attach_while_attached (world s) then Inl WL_ERR_TARGET
           else Inr (s_chip (world s)), s') \<and> s_chip (world s') = s_chip (world s) \<and>
     s_attached (world s') \<and> link s' = (link s)\<lparr>lk_configured := False\<rparr>"
  using assms(1-3) detect_of_row [OF c]
  by (auto simp: identify_chip_once_def run set_interface_raw_def send_control_def wl_linke_command_def
      sim_transport_def sim_attach_reply sim_setting_reply reply_ok_def wire_consts model_bytes)

text \<open>C23: chip detection names the part that is attached, also when a previous run has left the
  target attached and the first attempt fails.\<close>

theorem sim_identify:
  assumes "s_chip w \<in> set chips"
  shows "\<exists>s'. wl_linke_identify_chip (sim_session w) = Some (Inr (s_chip w), s') \<and> s_attached (world s')"
proof -
  let ?s = "sim_session w"
  have l: "lk_open (link ?s)" "lk_transport (link ?s) = Some sim_transport" "lk_ctx (link ?s) = Some ()"
    by (simp_all add: sim_session_def wl_linke_attach_transport_def)
  obtain s1 where s1: "identify_chip_once ?s =
     Some (if s_attached w \<and> s_fail_attach_while_attached w then Inl WL_ERR_TARGET else Inr (s_chip w), s1)"
    "s_chip (world s1) = s_chip w" "s_attached (world s1)" "link s1 = (link ?s)\<lparr>lk_configured := False\<rparr>"
    using identify_once_sim [OF l] assms by auto
  show ?thesis
  proof (cases "s_attached w \<and> s_fail_attach_while_attached w")
    case False
    then show ?thesis using s1 by (auto simp: wl_linke_identify_chip_def run)
  next
    case True
    let ?w1 = "(world s1)\<lparr>s_attached := False\<rparr>"
    have rel: "andDo (ignoring (send_control WL_CMD_RUN 0x01 0))
        (andDo (ignoring (send_control WL_CMD_CONTROL WL_CTL_RELEASE 0)) identify_chip_once) s1 =
        identify_chip_once (s1\<lparr>world := ?w1\<rparr>)"
      using s1(4) l by (simp add: run send_control_def wl_linke_command_def sim_transport_def sim_command_def
          sim_control_def wire_consts)
    obtain s2 where "identify_chip_once (s1\<lparr>world := ?w1\<rparr>) = Some (Inr (s_chip w), s2)" "s_attached (world s2)"
      using identify_once_sim [of "s1\<lparr>world := ?w1\<rparr>"] s1 l assms by auto
    then show ?thesis using True s1(1) rel by (auto simp: wl_linke_identify_chip_def attempt_def)
  qed
qed

theorem sim_identify_witness:
  "\<exists>s'. wl_linke_identify_chip (sim_session (v003_sim\<lparr>s_attached := True,
      s_fail_attach_while_attached := True\<rparr>)) = Some (Inr (hd chips), s')"
  using sim_identify [of "v003_sim\<lparr>s_attached := True, s_fail_attach_while_attached := True\<rparr>"]
    new_sim(1) [OF v003_new] v003(1) by auto

text \<open>Reset and resume.\<close>

text \<open>The requests a command sends, in order, to a programmer that accepts them all.\<close>

definition recorder :: "(unit, u8 list list) wl_transport" where
  "recorder =
     \<lparr>tr_command = (\<lambda>cx request mx sent. ((0, [0x82]), sent @ [request])),
      tr_bulk_out = (\<lambda>cx bs sent. (0, sent))\<rparr>"

definition requests :: "(unit, u8 list list, unit) lprog \<Rightarrow> u8 list list" where
  "requests m =
     (case m \<lparr>link = wl_linke_attach_transport recorder None, world = [], calls = []\<rparr> of
        None \<Rightarrow> []
      | Some (r, s) \<Rightarrow> world s)"

text \<open>C24: resume sends the run, attach and release requests and nothing else; reset sends attach
  and the one request that drives the reset line, and then what resume sends; unbrick sends
  what reset sends. On the simulated programmer resume changes nothing but that the target
  is released, and reset and unbrick nothing but that and the number of resets, which goes
  up by one: flash, RAM and all registers keep their values. The documentation says that
  these requests restart the firmware, and that unbrick power-cycles (see the findings); a
  core that restarts without the reset line is not part of the simulated programmer.\<close>

theorem sim_reset_and_resume:
  "requests wl_linke_resume = [[0x81, 0x0b, 0x01, 0x01], [0x81, 0x0d, 0x01, 0x02], [0x81, 0x0d, 0x01, 0xff]] \<and>
   requests wl_linke_reset = [[0x81, 0x0d, 0x01, 0x02], [0x81, 0x0d, 0x01, 0x13]] @ requests wl_linke_resume \<and>
   requests wl_linke_unbrick = requests wl_linke_reset \<and>
   (\<exists>s1 s2. wl_linke_reset (sim_session w) = Some (Inr (), s1) \<and>
     wl_linke_unbrick (sim_session w) = Some (Inr (), s1) \<and>
     world s1 = w\<lparr>s_resets := s_resets w + 1, s_attached := False\<rparr> \<and>
     wl_linke_resume (sim_session w) = Some (Inr (), s2) \<and> world s2 = w\<lparr>s_attached := False\<rparr>)"
proof -
  have r: "requests wl_linke_resume = [[0x81, 0x0b, 0x01, 0x01], [0x81, 0x0d, 0x01, 0x02], [0x81, 0x0d, 0x01, 0xff]]"
    "requests wl_linke_reset = [[0x81, 0x0d, 0x01, 0x02], [0x81, 0x0d, 0x01, 0x13]] @
       [[0x81, 0x0b, 0x01, 0x01], [0x81, 0x0d, 0x01, 0x02], [0x81, 0x0d, 0x01, 0xff]]"
    by (simp_all add: requests_def wl_linke_reset_def wl_linke_halt_def wl_linke_resume_def send_control_def
        wl_linke_command_def recorder_def wl_linke_attach_transport_def andThen_def wire_consts)
  show ?thesis
    unfolding wl_linke_unbrick_def r
    by (cases w; simp add: sim_link.reset_ok sim_link.resume_ok sim_ctl_def sim_control_def Let_def)
qed

lemma two_digits: "char_of (50 :: nat) = CHR ''2''" "char_of (55 :: nat) = CHR ''7''"
  by (simp_all add: char_of_def bit_0)

theorem sim_version:
  "\<exists>s'. wl_linke_get_version n (sim_session w) =
     Some (if n = 0 then Inl WL_ERR_USAGE else Inr (take (n - 1) ''WCH-LinkE 2.7''), s') \<and> world s' = w"
  by (auto simp: wl_linke_get_version_def run send_control_def wl_linke_command_def sim_session_def
      wl_linke_attach_transport_def sim_transport_def sim_command_def sim_control_def wire_consts
      programmer_name_def dec_str.simps digit_char_def two_digits)

section \<open>Memory\<close>

text \<open>C12: reading a block of any length and alignment from plain memory returns its bytes in
  order. Flash, RAM, the flash controller, dpc, dcsr, the interface setting, whether the
  target is attached, and every core register but x8 and x9 are as before; the reads use x8,
  x9, the program buffer and the debug module's own registers, and may overwrite them.\<close>

theorem sim_read_block:
  assumes "s_configured w" "sim_idle w" "\<forall>i < n. sim_mem w (a + of_nat i) \<noteq> None"
  shows "\<exists>s'. wl_dm_read_block a n (sim_session w) =
      Some (Inr (map (\<lambda>i. the (sim_mem w (a + of_nat i))) [0..<n]), s') \<and>
    accessed w (world s')"
proof -
  have o: "sim_mem (observed w) = sim_mem w"
    by (rule ext) (simp add: sim_mem_def observed_is_ram)
  have "sim_target.holds (observed w) a (map (\<lambda>i. the (sim_mem w (a + of_nat i))) [0..<n])"
    unfolding sim_target.holds_def using assms(3) o by auto
  from sim_target.read_block_ok [of "sim_session w", OF _ _ _, where n = n] this assms(1,2)
  obtain w' where w': "observed w' = observed w" "wl_dm_read_block a n (sim_session w) =
      Some (Inr (map (\<lambda>i. the (sim_mem w (a + of_nat i))) [0..<n]), (sim_session w)\<lparr>world := w'\<rparr>)"
    by (fastforce simp: sim_target.live_def)
  have "settings w' = settings w"
    using steady_after [OF steady_read_block steady_start w'(2)] assms(1,2) by (simp add: steady_def)
  with w' show ?thesis by (auto simp: accessed_iff)
qed

theorem sim_read_block_witness:
  "\<exists>s'. wl_dm_read_block FB_V 2 (sim_session v003_set) = Some (Inr [0xff, 0xff], s')"
proof -
  have m: "sim_mem v003_set FB_V = Some 0xff" "sim_mem v003_set (FB_V + 1) = Some 0xff"
    using flash_address [of 0] flash_address [of 1] v003_flash by (simp_all add: sim_mem_def)
  then have "\<forall>i < 2. sim_mem v003_set (FB_V + of_nat i) \<noteq> None" by (auto simp: less_2_cases_iff)
  from sim_read_block [OF v003_set_ready(1,3) this] m show ?thesis by (auto simp: upt_rec)
qed

lemma flash_below:
  assumes "sim_is_flash a"
  shows "unat a < 0x09000000"
proof -
  let ?h = "a AND 0xff000000" and ?l = "a AND 0x00ffffff"
  have "(a AND h) AND (a AND l) = (a AND a) AND (h AND l)" for h l :: u32 by (simp only: ac_simps)
  then have "?h + ?l = ?h OR ?l" by (intro disjunctive_add_eq_or) simp
  also have "\<dots> = a AND (0xff000000 OR 0x00ffffff)" by (simp only: bit.conj_disj_distrib)
  also have "(0xff000000 OR 0x00ffffff :: u32) = -1" by simp
  finally have "?h + ?l = a" by (simp only: and.right_neutral)
  then have a: "a = ?h + ?l" by simp
  have m: "(0x00ffffff :: u32) = mask 24" by (simp add: mask_eq_exp_minus_1)
  have l: "unat ?l < 0x01000000" unfolding m by (simp add: and_mask_unat)
  have "unat ?h \<le> 0x08000000" using assms by (auto simp: sim_is_flash_def)
  then show ?thesis using l by (subst a) (simp add: unat_word_ariths)
qed

lemma ram_address:
  assumes "c \<in> set chips" "s_chip w = c" "length (s_ram w) = unat (ram_size c)" "off < length (s_ram w)"
  defines "a \<equiv> ram_offset c + of_nat off"
  shows "sim_is_ram w a" "\<not> sim_is_flash a" "\<not> sim_is_ctrl a" "unat (a - ram_offset (s_chip w)) = off"
    "unat a = unat (ram_offset c) + off"
proof -
  have ok: "unat (ram_offset c) + unat (ram_size c) \<le> 0x30000000" "0x20000000 \<le> unat (ram_offset c)"
    using chip_okD [OF assms(1)] by (simp_all add: chip_ok_def)
  show u: "unat a = unat (ram_offset c) + off"
    using assms ok by (simp add: unat_word_ariths unat_of_nat)
  then show "sim_is_ram w a" using assms by (simp add: sim_is_ram_def word_le_nat_alt)
  show "\<not> sim_is_flash a" using flash_below [of a] u ok by auto
  show "\<not> sim_is_ctrl a" using u ok assms by (simp add: sim_is_ctrl_def sim_regs word_le_nat_alt)
  show "unat (a - ram_offset (s_chip w)) = off" using assms ok by (simp add: unat_of_nat)
qed


text \<open>A store of one, two or four bytes to RAM changes just those bytes.\<close>

lemma access_ram_store:
  assumes "c \<in> set chips" "s_chip w = c" "length (s_ram w) = unat (ram_size c)"
    and "off + 2 ^ k \<le> length (s_ram w)"
  shows "sim_access (ram_offset c + of_nat off) k True v w =
     (v, w\<lparr>s_ram := write_at off (value_bytes (2 ^ k) v) (s_ram w)\<rparr>)"
proof -
  have "off < length (s_ram w)" using assms(4) by (metis add_lessD1 le_eq_less_or_eq less_add_same_cancel1 zero_less_numeral zero_less_power le_less_trans nat_less_le order_less_le_trans)
  from ram_address [OF assms(1-3) this] assms show ?thesis
    by (simp add: sim_access_def Let_def)
qed

text \<open>C13: a word, halfword or byte store to RAM through the debug module's program buffer changes
  exactly its four, two or one bytes, least significant first.\<close>

theorem ram_stores:
  assumes c: "s_chip w \<in> set chips" "length (s_ram w) = unat (ram_size (s_chip w))"
    and w: "s_configured w" "sim_idle w" and off: "off + 4 \<le> length (s_ram w)"
    and a: "a = ram_offset (s_chip w) + of_nat off"
  shows "\<exists>s1 s2 s3.
     wl_dm_write32 a v (sim_session w) = Some (Inr (), s1) \<and>
     s_ram (world s1) = write_at off (le_bytes v) (s_ram w) \<and> s_flash (world s1) = s_flash w \<and>
     wl_dm_write16 a h (sim_session w) = Some (Inr (), s2) \<and>
     s_ram (world s2) = write_at off [ucast h, ucast (drop_bit 8 h)] (s_ram w) \<and>
     wl_dm_write8 a b (sim_session w) = Some (Inr (), s3) \<and>
     s_ram (world s3) = write_at off [b] (s_ram w)"
proof -
  have e: "s_cmderr w = 0" using w by (simp add: sim_idle_def)
  have run: "dm_run [store_word k, 0x00100073] a v False (sim_session w) =
      Some (Inr 0, (sim_session w)\<lparr>world := sim_poke k a v w\<rparr>)" if "k \<le> 2" for k v
    using sim_store_run [of "sim_session w" k a v] w e that by simp
  have eff: "s_ram (sim_poke k a v w) = write_at off (value_bytes (2 ^ k) v) (s_ram w) \<and>
      s_flash (sim_poke k a v w) = s_flash w" if "k \<le> 2" for k v
  proof -
    have "(2::nat) ^ k \<le> 4" using that power_increasing [of k 2 "2 :: nat"] by simp
    then have "sim_access (ram_offset (s_chip w) + of_nat off) k True v (observed w) =
       (v, (observed w)\<lparr>s_ram := write_at off (value_bytes (2 ^ k) v) (s_ram w)\<rparr>)"
      using access_ram_store [OF c(1), of "observed w" off k v] c off by simp
    then have "observed (sim_poke k a v w) =
        (observed w)\<lparr>s_ram := write_at off (value_bytes (2 ^ k) v) (s_ram w)\<rparr>"
      using poke_facts(3) [OF that, of a v w] a by simp
    then have "s_ram (observed (sim_poke k a v w)) = write_at off (value_bytes (2 ^ k) v) (s_ram w)"
      "s_flash (observed (sim_poke k a v w)) = s_flash w" by simp_all
    then show ?thesis by simp
  qed
  have b4: "value_bytes (2 ^ 2) v = le_bytes v" using value_bytes_4 [of v] by simp
  have b2: "value_bytes (2 ^ 1) (ucast h) = [ucast h, ucast (drop_bit 8 h)]"
    by (auto simp: value_bytes_def upt_rec intro!: bit_word_eqI) (auto simp: bit_simps)
  have b1: "value_bytes (2 ^ 0) (ucast b) = [b]"
    by (auto simp: value_bytes_def)
  have "wl_dm_write32 a v (sim_session w) = Some (Inr (), (sim_session w)\<lparr>world := sim_poke 2 a v w\<rparr>)"
    using run [of 2 v] by (simp add: wl_dm_write32_def wl_dm_run_write_def encoded store_word_def andThen_def)
  moreover have "wl_dm_write16 a h (sim_session w) =
      Some (Inr (), (sim_session w)\<lparr>world := sim_poke 1 a (ucast h) w\<rparr>)"
    using run [of 1 "ucast h"] by (simp add: wl_dm_write16_def wl_dm_run_write_def encoded store_word_def andThen_def)
  moreover have "wl_dm_write8 a b (sim_session w) =
      Some (Inr (), (sim_session w)\<lparr>world := sim_poke 0 a (ucast b) w\<rparr>)"
    using run [of 0 "ucast b"] by (simp add: wl_dm_write8_def wl_dm_run_write_def encoded store_word_def andThen_def)
  ultimately show ?thesis
    using eff [of 2 v] eff [of 1 "ucast h"] eff [of 0 "ucast b"] unfolding b4 b2 b1
    by (intro exI conjI) (assumption | simp)+
qed

theorem ram_stores_witness:
  "\<exists>s1. wl_dm_write32 0x20000010 0x11223344 (sim_session v003_set) = Some (Inr (), s1) \<and>
     take 4 (drop 16 (s_ram (world s1))) = [0x44, 0x33, 0x22, 0x11]"
proof -
  have "take 4 (drop 16 (write_at 16 (le_bytes 0x11223344) (s_ram v003_set))) = le_bytes 0x11223344"
    using take_drop_write_at [of 16 "le_bytes 0x11223344" "s_ram v003_set"] v003_flash by simp
  moreover have "le_bytes 0x11223344 = [0x44, 0x33, 0x22, 0x11]" by (simp add: le_bytes_def byte_of_def)
  moreover obtain s1 where "wl_dm_write32 0x20000010 0x11223344 (sim_session v003_set) = Some (Inr (), s1)"
    "s_ram (world s1) = write_at 16 (le_bytes 0x11223344) (s_ram v003_set)"
    using ram_stores [of v003_set 16 "0x20000010" "0x11223344" 0 0] v003_set_ready v003_flash v003(1)
    by auto
  ultimately show ?thesis by auto
qed

section \<open>Registers\<close>

lemma gpr_commands:
  assumes "r \<le> 31"
  shows "sim_execute_command (WL_DM_CMD_GPR_BASE OR WL_DM_CMD_TRANSFER OR WL_DM_CMD_WRITE OR WL_DM_GPR_REGNO r) w =
      set_gpr (unat r) (s_dmi w 4) w"
    and "sim_execute_command (WL_DM_CMD_GPR_BASE OR WL_DM_CMD_TRANSFER OR WL_DM_GPR_REGNO r) w =
      w\<lparr>s_dmi := (s_dmi w)(4 := s_gpr w (unat r))\<rparr>"
proof -
  let ?W = "WL_DM_CMD_GPR_BASE OR WL_DM_CMD_TRANSFER OR WL_DM_CMD_WRITE OR WL_DM_GPR_REGNO r"
  let ?R = "WL_DM_CMD_GPR_BASE OR WL_DM_CMD_TRANSFER OR WL_DM_GPR_REGNO r"
  have "unat r \<le> 31" using assms by (simp add: word_le_nat_alt)
  then have "unat r \<in> set [0..<32]" by simp
  then have "r \<in> set (map of_nat [0..<32])" by (metis imageI list.set_map of_nat_unat ucast_id)
  moreover have "list_all (\<lambda>r. let W = WL_DM_CMD_GPR_BASE OR WL_DM_CMD_TRANSFER OR WL_DM_CMD_WRITE OR WL_DM_GPR_REGNO r;
        R = WL_DM_CMD_GPR_BASE OR WL_DM_CMD_TRANSFER OR WL_DM_GPR_REGNO r in
     W AND 0xffff = 0x1000 + r \<and> drop_bit 24 W AND 0x7f = 0 \<and> drop_bit 20 W AND 0x7 = 2 \<and>
     bit W 16 \<and> bit W 17 \<and> \<not> bit W 18 \<and>
     R AND 0xffff = 0x1000 + r \<and> drop_bit 24 R AND 0x7f = 0 \<and> drop_bit 20 R AND 0x7 = 2 \<and>
     \<not> bit R 16 \<and> bit R 17 \<and> \<not> bit R 18 \<and> 0x1000 \<le> 0x1000 + r \<and> 0x1000 + r \<le> 0x101f \<and>
     0x1000 + r \<noteq> WL_DMI_DPC \<and> 0x1000 + r \<noteq> WL_DMI_DCSR) (map of_nat [0..<32])"
    by code_simp
  ultimately have "?W AND 0xffff = 0x1000 + r" "drop_bit 24 ?W AND 0x7f = 0" "drop_bit 20 ?W AND 0x7 = 2"
    "bit ?W 16" "bit ?W 17" "\<not> bit ?W 18"
    "?R AND 0xffff = 0x1000 + r" "drop_bit 24 ?R AND 0x7f = 0" "drop_bit 20 ?R AND 0x7 = 2"
    "\<not> bit ?R 16" "bit ?R 17" "\<not> bit ?R 18" "0x1000 \<le> 0x1000 + r" "0x1000 + r \<le> 0x101f"
    "0x1000 + r \<noteq> WL_DMI_DPC" "0x1000 + r \<noteq> WL_DMI_DCSR"
    unfolding list_all_iff Let_def by blast+
  then show "sim_execute_command ?W w = set_gpr (unat r) (s_dmi w 4) w"
    and "sim_execute_command ?R w = w\<lparr>s_dmi := (s_dmi w)(4 := s_gpr w (unat r))\<rparr>"
    by (simp_all only: sim_execute_command_def sim_transfer_def Let_def)
      (simp_all add: WL_DMI_DATA0_def)
qed

lemma gpr_write_read:
  assumes "s_configured w" "s_cmderr w = 0" "r \<le> 31"
  shows "\<exists>s1 s2. wl_dm_gpr_write r v (sim_session w) = Some (Inr (), s1) \<and>
     wl_dm_gpr_read r s1 = Some (Inr (if r = 0 then 0 else v), s2) \<and>
     (\<forall>q. q \<noteq> unat r \<longrightarrow> s_gpr (world s2) q = s_gpr w q) \<and> observed (world s2) = observed w"
proof -
  let ?W = "WL_DM_CMD_GPR_BASE OR WL_DM_CMD_TRANSFER OR WL_DM_CMD_WRITE OR WL_DM_GPR_REGNO r"
  let ?R = "WL_DM_CMD_GPR_BASE OR WL_DM_CMD_TRANSFER OR WL_DM_GPR_REGNO r"
  let ?w1 = "sim_link.issued ?W v True w"
  let ?s1 = "(sim_session w)\<lparr>world := ?w1\<rparr>"
  have z: "unat r = 0 \<longleftrightarrow> r = 0" by (simp add: unat_eq_0)
  have w1: "?w1 = set_gpr (unat r) v (w\<lparr>s_dmi := (s_dmi w)(4 := v, 0x17 := ?W)\<rparr>)"
    using assms(3) by (simp add: sim_link.issued_def dmi_regs dmi_write_plain gpr_commands)
  have "dm_command ?W v True False (sim_session w) = Some (Inr 0, ?s1)"
    using sim_link_command(1) [of "sim_session w" ?W v True] assms w1 by (simp add: set_gpr_def)
  then have a: "wl_dm_gpr_write r v (sim_session w) = Some (Inr (), ?s1)"
    using assms(3) by (simp add: wl_dm_gpr_write_def andThen_def not_less)
  let ?w2 = "sim_link.issued ?R 0 False ?w1"
  have w2: "?w2 = ?w1\<lparr>s_dmi := (s_dmi ?w1)(0x17 := ?R, 4 := s_gpr ?w1 (unat r))\<rparr>"
    using assms(3) by (subst sim_link.issued_def) (simp add: dmi_regs dmi_write_plain gpr_commands)
  have "dm_command ?R 0 False True ?s1 = Some (Inr (sim_dmi_read 4 ?w2), ?s1\<lparr>world := ?w2\<rparr>)"
    using assms w1 w2 sim_link_command(2) [of ?s1 ?R 0 False] by (simp add: set_gpr_def)
  then have "wl_dm_gpr_read r ?s1 = Some (Inr (sim_dmi_read 4 ?w2), ?s1\<lparr>world := ?w2\<rparr>)"
    using assms(3) by (simp add: wl_dm_gpr_read_def not_less)
  moreover have "sim_dmi_read 4 ?w2 = (if r = 0 then 0 else v)"
    unfolding w2 by (simp add: sim_dmi_read_def dmi_regs w1 set_gpr_def z)
  moreover have "\<forall>q. q \<noteq> unat r \<longrightarrow> s_gpr ?w2 q = s_gpr w q" "observed ?w2 = observed w"
    unfolding w2 by (simp_all add: w1 set_gpr_def)
  ultimately show ?thesis using a by (intro exI conjI) (assumption | simp)+
qed

theorem gpr_roundtrip:
  assumes "s_configured w" "s_cmderr w = 0" "r \<le> 31"
  shows "\<exists>s1 s2. wl_dm_gpr_write r v (sim_session w) = Some (Inr (), s1) \<and>
     wl_dm_gpr_read r s1 = Some (Inr (if r = 0 then 0 else v), s2) \<and>
     (\<forall>q. q \<noteq> unat r \<longrightarrow> s_gpr (world s2) q = s_gpr w q) \<and> observed (world s2) = observed w"
  by (rule gpr_write_read [OF assms])

theorem gpr_roundtrip_witness:
  "\<exists>s1 s2. wl_dm_gpr_write 10 77 (sim_session v003_set) = Some (Inr (), s1) \<and>
     wl_dm_gpr_read 10 s1 = Some (Inr 77, s2)"
  using gpr_roundtrip [of v003_set 10 77] v003_set_ready by (auto simp: word_le_nat_alt)

text \<open>A command the module refuses is reported, and the error is cleared so that the next one runs.\<close>

lemma small_csr_command:
  assumes "csr AND 0xfff = csr"
  shows "(WL_DM_CMD_GPR_BASE OR WL_DM_CMD_TRANSFER OR csr) AND 0xffff = csr"
    "drop_bit 24 (WL_DM_CMD_GPR_BASE OR WL_DM_CMD_TRANSFER OR csr) AND 0x7f = 0"
    "bit (WL_DM_CMD_GPR_BASE OR WL_DM_CMD_TRANSFER OR csr) 17" "csr < 0x1000"
proof -
  have m: "(0xfff :: u32) = mask 12" by (simp add: mask_eq_exp_minus_1)
  have b: "bit csr n \<Longrightarrow> n < 12" for n
    using arg_cong [OF assms, of "\<lambda>x. bit x n"] unfolding m by (auto simp: bit_simps)
  have f: "(0xffff :: u32) = mask 16" by (simp add: mask_eq_exp_minus_1)
  have "csr AND 0xffff = csr" unfolding f by (rule bit_word_eqI) (auto simp: bit_simps dest: b)
  moreover have "WL_DM_CMD_GPR_BASE AND 0xffff = 0" "WL_DM_CMD_TRANSFER AND 0xffff = 0" by (simp_all add: dm_cmds)
  ultimately show "(WL_DM_CMD_GPR_BASE OR WL_DM_CMD_TRANSFER OR csr) AND 0xffff = csr"
    by (simp add: bit.conj_disj_distrib2)
  have "drop_bit 24 csr = 0" by (rule bit_word_eqI) (auto simp: bit_simps dest: b)
  then show "drop_bit 24 (WL_DM_CMD_GPR_BASE OR WL_DM_CMD_TRANSFER OR csr) AND 0x7f = 0"
    by (simp add: dm_cmds)
  show "bit (WL_DM_CMD_GPR_BASE OR WL_DM_CMD_TRANSFER OR csr) 17"
    by (simp add: dm_cmds bit_or_iff)
  have "unat csr = unat (csr AND mask 12)" using assms unfolding m by simp
  then show "csr < 0x1000" by (simp add: and_mask_unat word_less_nat_alt)
qed

text \<open>C22: reading a register the debug module does not have is reported as a target error, and
  the module's error bits are cleared, so that the target, its core registers included, is
  as it was and the next command runs.\<close>

theorem refused_command_is_cleared:
  assumes w: "s_configured w" "s_cmderr w = 0"
    and c: "csr AND 0xfff = csr" "csr \<noteq> WL_DMI_DCSR" "csr \<noteq> WL_DMI_DPC"
  shows "\<exists>s'. wl_dm_csr_read csr (sim_session w) = Some (Inl WL_ERR_TARGET, s') \<and>
     observed (world s') = observed w \<and> s_gpr (world s') = s_gpr w \<and> s_attached (world s') = s_attached w"
proof -
  let ?C = "WL_DM_CMD_GPR_BASE OR WL_DM_CMD_TRANSFER OR csr"
  let ?w = "w\<lparr>s_dmi := (s_dmi w)(0x17 := ?C), s_cmderr := 2\<rparr>"
  have "\<not> 0x1000 \<le> csr" using small_csr_command(4) [OF c(1)] by simp
  then have cmd: "sim_dmi_write 0x17 ?C w = ?w"
    using small_csr_command [OF c(1)] c(2,3)
    by (simp add: dmi_write_plain sim_execute_command_def sim_transfer_def Let_def)
  have "dm_wait ((sim_session w)\<lparr>world := ?w\<rparr>) = Some (Inl WL_ERR_TARGET,
      (sim_session w)\<lparr>world := sim_dmi_write 0x16 0x700 ?w\<rparr>)"
    using sim_link.dm_wait_error [of "(sim_session w)\<lparr>world := ?w\<rparr>"] w(1)
    unfolding sim_settled by (simp add: sim_dmi_read_def dm_cs_bits) (simp add: dmi_regs)
  moreover have "sim_dmi_write 0x16 0x700 ?w = w\<lparr>s_dmi := (s_dmi w)(0x17 := ?C, 0x16 := 0x700)\<rparr>"
    using w(2) by (simp add: sim_dmi_write_def dmi_regs Let_def)
  ultimately show ?thesis
    using cmd w(1) by (simp add: wl_dm_csr_read_def dm_csr_access_def dm_command_def andThen_def
        sim_link.dmi_write_ok WL_DMI_DMCOMMAND_def)
qed

theorem refused_command_is_cleared_witness:
  "\<exists>s'. wl_dm_csr_read 0x300 (sim_session v003_set) = Some (Inl WL_ERR_TARGET, s') \<and>
     s_cmderr (world s') = 0"
proof -
  obtain s' where s': "wl_dm_csr_read 0x300 (sim_session v003_set) = Some (Inl WL_ERR_TARGET, s')"
    "observed (world s') = observed v003_set"
    using refused_command_is_cleared [of v003_set "0x300"] v003_set_ready by (auto simp: dmi_regs)
  have "s_cmderr (world s') = s_cmderr (observed (world s'))" by simp
  then show ?thesis using s' v003_set_ready(2) by simp
qed

end
