(* ===== verification/SimRuns.thy ===== *)
theory SimRuns
  imports LinkProps FlashProps
begin

text \<open>
  One step after the other on the simulated target: what detection, the flash command and the block
  reader make of a target that may have been used before.
\<close>

text \<open>A target of part \<open>c\<close> with \<open>F\<close> in its flash, whose controller is at rest.\<close>

definition target_holds :: "wl_chip_t \<Rightarrow> u8 list \<Rightarrow> wl_sim \<Rightarrow> bool" where
  "target_holds c F w \<longleftrightarrow>
     s_chip w = c \<and> s_flash w = F \<and> length F = unat (flash_size c) \<and> sim_idle w \<and>
     calm ((sim_view (observed w))\<lparr>v_open := True\<rparr>)"

text \<open>Only what can be observed of the target counts.\<close>

lemma sim_idle_observed: "sim_idle (observed w) = sim_idle w"
  by (simp add: sim_idle_def buf64_def)

lemma target_holds_observed:
  assumes "observed w' = observed w"
  shows "target_holds c F w' = target_holds c F w"
proof -
  have "s_chip w' = s_chip w" "s_flash w' = s_flash w" "sim_idle w' = sim_idle w"
    using observed_fields(1,2) [of w'] observed_fields(1,2) [of w] sim_idle_observed [of w'] sim_idle_observed [of w]
    by (simp_all only: assms)
  then show ?thesis by (simp add: target_holds_def assms)
qed

lemma new_target:
  assumes "c \<in> set chips" "algo c = WL_FLASH_CH32V0" "wl_sim_new (Some c) = Some w" "length F = unat (flash_size c)"
  shows "target_holds c F (w\<lparr>s_flash := F\<rparr>)"
  using new_sim [OF assms(3)] new_calm [OF assms(3)] assms chip_okD [OF assms(1)]
  by (auto simp: target_holds_def sim_idle_def buf64_def chip_ok_def)

section \<open>Steps\<close>

lemma identify_once_observed:
  assumes "sim_link.plugged s" "s_chip (world s) \<in> set chips"
  shows "\<exists>s'. identify_chip_once s =
     Some (if s_attached (world s) \<and> s_fail_attach_while_attached (world s) then Inl WL_ERR_TARGET
           else Inr (s_chip (world s)), s') \<and> observed (world s') = observed (world s) \<and>
     link s' = (link s)\<lparr>lk_configured := False\<rparr> \<and> calls s' = calls s"
proof -
  have "lk_open (link s)" "lk_transport (link s) = Some sim_transport" "lk_ctx (link s) = Some ()"
    using assms(1) by (simp_all add: sim_link.plugged_def)
  then show ?thesis
    using detect_of_row [OF assms(2)]
    by (auto simp: identify_chip_once_def run set_interface_raw_def send_control_def wl_linke_command_def
        sim_transport_def sim_attach_reply sim_setting_reply reply_ok_def wire_consts model_bytes observed_def)
qed

lemma identify_step:
  assumes "sim_link.plugged s" "s_chip (world s) \<in> set chips"
  shows "\<exists>s'. wl_linke_identify_chip s = Some (Inr (s_chip (world s)), s') \<and>
     observed (world s') = observed (world s) \<and> link s' = (link s)\<lparr>lk_configured := False\<rparr> \<and> calls s' = calls s"
proof -
  obtain s1 where s1: "identify_chip_once s =
     Some (if s_attached (world s) \<and> s_fail_attach_while_attached (world s) then Inl WL_ERR_TARGET
           else Inr (s_chip (world s)), s1)"
    "observed (world s1) = observed (world s)" "link s1 = (link s)\<lparr>lk_configured := False\<rparr>" "calls s1 = calls s"
    using identify_once_observed [OF assms] by auto
  show ?thesis
  proof (cases "s_attached (world s) \<and> s_fail_attach_while_attached (world s)")
    case False
    then show ?thesis using s1 by (auto simp: wl_linke_identify_chip_def run)
  next
    case True
    let ?s2 = "s1\<lparr>world := (world s1)\<lparr>s_attached := False\<rparr>\<rparr>"
    have p: "sim_link.plugged ?s2" using assms(1) s1(3) by (simp add: sim_link.plugged_def)
    have o: "observed (world ?s2) = observed (world s)" using s1(2) by (simp add: observed_def)
    then have c: "s_chip (world ?s2) = s_chip (world s)"
      using observed_fields(1) [of "world ?s2"] observed_fields(1) [of "world s"] by simp
    have rel: "andDo (ignoring (send_control WL_CMD_RUN 0x01 0))
        (andDo (ignoring (send_control WL_CMD_CONTROL WL_CTL_RELEASE 0)) identify_chip_once) s1 =
        identify_chip_once ?s2"
    proof -
      have "lk_open (link s1)" "lk_transport (link s1) = Some sim_transport" "lk_ctx (link s1) = Some ()"
        using p by (simp_all add: sim_link.plugged_def)
      then show ?thesis
        by (simp add: run send_control_def wl_linke_command_def sim_transport_def sim_command_def
            sim_control_def wire_consts)
    qed
    obtain s3 where "identify_chip_once ?s2 = Some (Inr (s_chip (world s)), s3)"
      "observed (world s3) = observed (world s)" "link s3 = (link ?s2)\<lparr>lk_configured := False\<rparr>" "calls s3 = calls ?s2"
      using identify_once_observed [OF p] assms(2) o unfolding c by auto
    then show ?thesis using True s1 rel by (auto simp: wl_linke_identify_chip_def attempt_def)
  qed
qed

lemma flash_step:
  assumes "sim_link.plugged s" "target_holds c F (world s)" "\<not> lk_configured (link s)"
    and "c \<in> set chips" "algo c = WL_FLASH_CH32V0"
    and "wl_flash_range_ok (Some c) addr (length img)" "img \<noteq> []"
  shows "\<exists>s'. wl_linke_write_flash (Some c) addr (Some img) verify wp vp s = Some (Inr (), s') \<and>
     target_holds c (write_at (unat (normalise c addr - flash_base c)) img F) (world s') \<and>
     s_ram (world s') = s_ram (world s) \<and> \<not> s_attached (world s')"
proof -
  have t: "s_chip (world s) = c" "s_flash (world s) = F" "length F = unat (flash_size c)" "sim_idle (world s)"
    "calm ((sim_view (observed (world s)))\<lparr>v_open := True\<rparr>)"
    using assms(2) by (simp_all add: target_holds_def)
  have ok: "chip_ok c" using assms(4) by (rule chip_okD)
  have v: "v_flash (sim_view (observed (world s))) = F" using t by (simp add: sim_view_def)
  have set: "set_for c s \<Longrightarrow> s_configured (world s)" using assms(3) by (simp add: set_for_def)
  obtain s' so x where s': "wl_linke_write_flash (Some c) addr (Some img) verify wp vp s = Some (Inr (), s')"
    "normalise c addr = FB_V + of_nat so" "so + length img \<le> length F" "sim_target.live (world s')"
    "calm (sim_view (observed (world s')))" "v_flash (sim_view (observed (world s'))) = write_at so img F"
    "v_rest (sim_view (observed (world s'))) = v_rest (sim_view (observed (world s)))"
    "world s' = sim_ctl 0x0d 0xff (sim_ctl 0x0d 0x02 (sim_ctl 0x0b 0x01 x))"
    using sim_flash.write_flash_ok [OF assms(1) t(4) set t(5) v ok assms(5) t(3) [symmetric] assms(6,7), of verify wp vp]
    by auto
  have so: "unat (normalise c addr - flash_base c) = so"
    using s'(2,3) t(3) ok assms(5) by (intro normalise_offset) (auto simp: chip_ok_def)
  have "(sim_view (observed (world s')))\<lparr>v_open := True\<rparr> = sim_view (observed (world s'))"
    using s'(5) by (simp add: calm_def)
  moreover have "\<not> s_attached (world s')"
    unfolding s'(8) by (simp add: sim_ctl_def sim_control_def)
  ultimately show ?thesis
    using s' t unfolding so by (auto simp: target_holds_def sim_target.live_def sim_view_def)
qed

lemma flash_bytes:
  assumes "target_holds c F w" "c \<in> set chips" "algo c = WL_FLASH_CH32V0" "off + n \<le> length F"
  shows "sim_target.holds (observed w) (FB_V + of_nat off) (take n (drop off F))"
proof -
  have F: "s_flash w = F" "length F \<le> 0x10000"
    using assms(1) by (auto simp: target_holds_def sim_idle_def)
  show ?thesis
    unfolding sim_target.holds_def
  proof (intro allI impI)
    fix i assume "i < length (take n (drop off F))"
    then have i: "i < n" "off + i < length F" using assms(4) by simp_all
    then show "sim_mem (observed w) (FB_V + of_nat off + of_nat i) = Some (take n (drop off F) ! i)"
      using flash_address [of "off + i"] F by (simp add: sim_mem_def add.assoc)
  qed
qed

lemma read_step:
  assumes "sim_link.plugged s" "target_holds c F (world s)" "\<not> lk_configured (link s)"
    and "c \<in> set chips" "algo c = WL_FLASH_CH32V0" "off + n \<le> length F"
  shows "\<exists>s'. wl_linke_read_memory (Some c) (FB_V + of_nat off) n s = Some (Inr (take n (drop off F)), s') \<and>
     target_holds c F (world s') \<and> s_ram (world s') = s_ram (world s)"
proof -
  have idle: "sim_idle (world s)" and len: "length (take n (drop off F)) = n"
    using assms(2,6) by (simp_all add: target_holds_def)
  have set: "set_for c s \<Longrightarrow> s_configured (world s)" using assms(3) by (simp add: set_for_def)
  obtain s' where s': "wl_linke_read_memory (Some c) (FB_V + of_nat off) n s = Some (Inr (take n (drop off F)), s')"
    "observed (world s') = observed (world s)"
    using sim_target.read_memory_ok [OF assms(1) idle set flash_bytes [OF assms(2,4-6)] len] by blast
  moreover have "s_ram (world s') = s_ram (world s)"
    using s'(2) observed_fields(3) [of "world s'"] observed_fields(3) [of "world s"] by simp
  ultimately show ?thesis
    using assms(2) target_holds_observed [OF s'(2)] by blast
qed

lemma resume_step:
  assumes "sim_link.plugged s"
  shows "\<exists>s'. wl_linke_resume s = Some (Inr (), s') \<and> observed (world s') = observed (world s)"
  using assms by (simp add: sim_link.resume_ok sim_idle_control)

end
