(* ===== verification/UsbSim.thy ===== *)
theory UsbSim
  imports Alike UsbProps SimRuns
begin

text \<open>
  The USB transport refines the simulator's: over a libusb that carries the packets to a programmer
  that answers as the simulator does, the link, debug and flash layers behave as they do on the
  simulator itself.  What is assumed of libusb is that a bulk transfer delivers what it is given, and
  that the bus has one programmer in RISC-V mode; nothing else that libusb does reaches the target.
\<close>

section \<open>What is assumed of libusb\<close>

text \<open>
  A request written to the command endpoint reaches the programmer, and its reply is what is read
  next from the reply endpoint; \<open>sim_of\<close> is the programmer with its target, as part of the world.
\<close>

definition carries_packets :: "('d, 'h, 'w) libusb \<Rightarrow> 'h \<Rightarrow> ('w \<Rightarrow> wl_sim) \<Rightarrow> bool" where
  "carries_packets lib h sim_of \<longleftrightarrow>
     (\<forall>request w reply sim. sim_command (Some ()) request 64 (sim_of w) = ((0, reply), sim) \<longrightarrow>
        (\<exists>w1 w2. lu_bulk_out lib h WL_USB_EP_COMMAND request WL_USB_TIMEOUT_MS w = ((0, length request), w1) \<and>
           lu_bulk_in lib h WL_USB_EP_REPLY 64 WL_USB_TIMEOUT_MS w1 = ((0, reply), w2) \<and> sim_of w2 = sim))"

text \<open>Listing, opening and closing work, find the one device \<open>d\<close>, and leave the target alone.\<close>

definition one_on_bus :: "('d, 'h, 'w) libusb \<Rightarrow> 'd \<Rightarrow> 'h \<Rightarrow> ('w \<Rightarrow> wl_sim) \<Rightarrow> bool" where
  "one_on_bus lib d h sim_of \<longleftrightarrow>
     (\<forall>w. fst (lu_init lib w) = 0 \<and> sim_of (snd (lu_init lib w)) = sim_of w) \<and>
     (\<forall>w. sim_of (lu_exit lib w) = sim_of w) \<and>
     (\<forall>w. \<exists>w'. lu_get_device_list lib w = (Inr [d], w') \<and> sim_of w' = sim_of w) \<and>
     (\<forall>w. \<exists>i j w'. lu_get_descriptor lib d w = (Inr (WL_USB_VID_WCH, WL_USB_PID_LINK_RV, i, j), w') \<and>
        sim_of w' = sim_of w) \<and>
     (\<forall>w. \<exists>w'. lu_open lib d w = (Inr h, w') \<and> sim_of w' = sim_of w) \<and>
     (\<forall>w. sim_of (lu_close lib h w) = sim_of w) \<and>
     (\<forall>i n w. sim_of (snd (lu_get_string lib h i n w)) = sim_of w) \<and>
     (\<forall>w. sim_of (lu_detach_kernel lib h w) = sim_of w) \<and>
     (\<forall>w. fst (lu_claim lib h WL_USB_INTERFACE w) = 0 \<and> sim_of (snd (lu_claim lib h WL_USB_INTERFACE w)) = sim_of w) \<and>
     (\<forall>w. sim_of (lu_release lib h WL_USB_INTERFACE w) = sim_of w)"

section \<open>The two transports are alike\<close>

lemma sim_accepts:
  "3 \<le> length request \<Longrightarrow> request ! 0 = 0x81 \<Longrightarrow> \<exists>reply sim. sim_command (Some ()) request 64 w = ((0, reply), sim)"
  by (auto simp: sim_command_def Let_def split: prod.split)

definition usb_handle :: "'h \<Rightarrow> 'h wl_usb_link" where
  "usb_handle h = \<lparr>ul_handle = Some h, ul_claimed = True\<rparr>"

lemma usb_alike:
  assumes "carries_packets lib h sim_of"
  shows "alike sim_transport (Some ()) (wl_usb_transport lib) (Some (usb_handle h)) (\<lambda>w v. w = sim_of v)"
proof
  fix request :: "u8 list" and w v
  assume r: "3 \<le> length request" "request ! 0 = 0x81" and v: "w = sim_of v"
  obtain reply sim where s: "sim_command (Some ()) request 64 (sim_of v) = ((0, reply), sim)"
    using sim_accepts [OF r] by blast
  then obtain w1 w2 where "lu_bulk_out lib h WL_USB_EP_COMMAND request WL_USB_TIMEOUT_MS v = ((0, length request), w1)"
    "lu_bulk_in lib h WL_USB_EP_REPLY 64 WL_USB_TIMEOUT_MS w1 = ((0, reply), w2)" "sim_of w2 = sim"
    using assms unfolding carries_packets_def by blast
  with s v show "\<exists>reply w1 v1. tr_command sim_transport (Some ()) request 64 w = ((0, reply), w1) \<and>
      tr_command (wl_usb_transport lib) (Some (usb_handle h)) request 64 v = ((0, reply), v1) \<and> w1 = sim_of v1"
    by (auto simp: sim_transport_def wl_usb_transport_def usb_transport_command_def usb_handle_def)
qed

text \<open>A session over USB, and the session on the simulator that it stands for.\<close>

definition over_usb :: "('d, 'h, 'w) libusb \<Rightarrow> 'h \<Rightarrow> ('h wl_usb_link, 'w) sess \<Rightarrow> bool" where
  "over_usb lib h t \<longleftrightarrow>
     lk_transport (link t) = Some (wl_usb_transport lib) \<and> lk_ctx (link t) = Some (usb_handle h) \<and> lk_open (link t)"

definition sim_side :: "('w \<Rightarrow> wl_sim) \<Rightarrow> ('h wl_usb_link, 'w) sess \<Rightarrow> (unit, wl_sim) sess" where
  "sim_side sim_of t =
     \<lparr>link = \<lparr>lk_transport = Some sim_transport, lk_ctx = Some (), lk_info = no_usb_info, lk_open = True,
              lk_chip_id = lk_chip_id (link t), lk_configured = lk_configured (link t)\<rparr>,
      world = sim_of (world t), calls = calls t\<rparr>"

lemma sim_side_simps [simp]:
  "sim_link.plugged (sim_side sim_of t)" "world (sim_side sim_of t) = sim_of (world t)"
  "calls (sim_side sim_of t) = calls t" "lk_configured (link (sim_side sim_of t)) = lk_configured (link t)"
  by (simp_all add: sim_side_def sim_link.plugged_def)

text \<open>The step from the correspondence of programs to what one run over USB does.\<close>

definition does_as :: "('h wl_usb_link, 'w, 'a) lprog \<Rightarrow> (unit, wl_sim, 'a) lprog \<Rightarrow> ('d, 'h, 'w) libusb \<Rightarrow> 'h
    \<Rightarrow> ('w \<Rightarrow> wl_sim) \<Rightarrow> bool" where
  "does_as n m lib h sim_of \<longleftrightarrow>
     (\<forall>t r s'. over_usb lib h t \<longrightarrow> m (sim_side sim_of t) = Some (r, s') \<longrightarrow>
        (\<exists>t'. n t = Some (r, t') \<and> over_usb lib h t' \<and> sim_of (world t') = world s' \<and> calls t' = calls s' \<and>
           lk_configured (link t') = lk_configured (link s')))"

lemma does_as_like:
  assumes "mirrored (alike.paired sim_transport (Some ()) (wl_usb_transport lib) (Some (usb_handle h)) (\<lambda>w v. w = sim_of v)) m n"
    and c: "carries_packets lib h sim_of"
  shows "does_as n m lib h sim_of"
  unfolding does_as_def
proof (intro allI impI)
  fix t r s' assume t: "over_usb lib h t" and run: "m (sim_side sim_of t) = Some (r, s')"
  note paired = alike.paired_def [OF usb_alike [OF c]]
  have "alike.paired sim_transport (Some ()) (wl_usb_transport lib) (Some (usb_handle h)) (\<lambda>w v. w = sim_of v)
      (sim_side sim_of t) t"
    using t unfolding paired over_usb_def by (simp add: sim_side_def)
  then obtain t' where t': "n t = Some (r, t')"
    "alike.paired sim_transport (Some ()) (wl_usb_transport lib) (Some (usb_handle h)) (\<lambda>w v. w = sim_of v) s' t'"
    using mirroredE [OF assms(1) _ run] by blast
  from t'(2) have "over_usb lib h t'" "sim_of (world t') = world s'" "calls t' = calls s'"
    "lk_configured (link t') = lk_configured (link s')"
    unfolding paired over_usb_def by simp_all
  with t'(1) show "\<exists>t'. n t = Some (r, t') \<and> over_usb lib h t' \<and> sim_of (world t') = world s' \<and>
      calls t' = calls s' \<and> lk_configured (link t') = lk_configured (link s')"
    by blast
qed

lemma usb_does_as:
  assumes "carries_packets lib h sim_of"
  shows "does_as (wl_linke_write_flash ch a im vf wp vp) (wl_linke_write_flash ch a im vf wp vp) lib h sim_of"
    and "does_as (wl_linke_read_memory ch a n) (wl_linke_read_memory ch a n) lib h sim_of"
    and "does_as wl_linke_identify_chip wl_linke_identify_chip lib h sim_of"
    and "does_as (wl_linke_set_interface ch) (wl_linke_set_interface ch) lib h sim_of"
    and "does_as wl_linke_halt wl_linke_halt lib h sim_of"
    and "does_as wl_linke_resume wl_linke_resume lib h sim_of"
    and "does_as wl_linke_reset wl_linke_reset lib h sim_of"
    and "does_as (send_control c x 64) (send_control c x 64) lib h sim_of"
    and "does_as (wl_dm_read32 a) (wl_dm_read32 a) lib h sim_of"
    and "does_as (wl_dm_write32 a v) (wl_dm_write32 a v) lib h sim_of"
    and "does_as (wl_dm_gpr_read v) (wl_dm_gpr_read v) lib h sim_of"
    and "does_as wl_dm_pc_read wl_dm_pc_read lib h sim_of"
proof -
  note u = usb_alike [OF assms]
  note like = alike.like_flash_commands [OF u] alike.like_read_memory [OF u] alike.like_identify [OF u]
    alike.like_set_interface [OF u] alike.like_halt [OF u] alike.like_resume [OF u] alike.like_reset [OF u]
    alike.like_control [OF u, of 64, simplified] alike.like_memory [OF u] alike.like_gpr [OF u]
  show "does_as (wl_linke_write_flash ch a im vf wp vp) (wl_linke_write_flash ch a im vf wp vp) lib h sim_of"
    "does_as (wl_linke_read_memory ch a n) (wl_linke_read_memory ch a n) lib h sim_of"
    "does_as wl_linke_identify_chip wl_linke_identify_chip lib h sim_of"
    "does_as (wl_linke_set_interface ch) (wl_linke_set_interface ch) lib h sim_of"
    "does_as wl_linke_halt wl_linke_halt lib h sim_of" "does_as wl_linke_resume wl_linke_resume lib h sim_of"
    "does_as wl_linke_reset wl_linke_reset lib h sim_of" "does_as (send_control c x 64) (send_control c x 64) lib h sim_of"
    "does_as (wl_dm_read32 a) (wl_dm_read32 a) lib h sim_of" "does_as (wl_dm_write32 a v) (wl_dm_write32 a v) lib h sim_of"
    "does_as (wl_dm_gpr_read v) (wl_dm_gpr_read v) lib h sim_of" "does_as wl_dm_pc_read wl_dm_pc_read lib h sim_of"
    by (rule does_as_like [OF _ assms], rule like)+
qed

section \<open>A libusb that keeps its contract\<close>

text \<open>
  The smallest one: one device, the simulator behind it, and the reply that is waiting to be read.
\<close>

definition bench :: "(unit, unit, wl_sim \<times> u8 list) libusb" where
  "bench =
     \<lparr>lu_init = (\<lambda>w. (0, w)), lu_exit = (\<lambda>w. w), lu_get_device_list = (\<lambda>w. (Inr [()], w)),
      lu_get_descriptor = (\<lambda>d w. (Inr (0x1a86, 0x8010, 1, 2), w)), lu_bus_number = (\<lambda>d. 1),
      lu_device_address = (\<lambda>d. 5), lu_open = (\<lambda>d w. (Inr (), w)), lu_close = (\<lambda>h w. w),
      lu_get_string = (\<lambda>h i n w. (Inr ''0001'', w)), lu_detach_kernel = (\<lambda>h w. w),
      lu_claim = (\<lambda>h i w. (0, w)), lu_release = (\<lambda>h i w. w),
      lu_bulk_out = (\<lambda>h e bs t w. case sim_command (Some ()) bs 64 (fst w) of
         ((rc, reply), sim) \<Rightarrow> ((rc, length bs), (sim, reply))),
      lu_bulk_in = (\<lambda>h e n t w. ((0, snd w), (fst w, []))),
      lu_error_name = (\<lambda>rc. ''LIBUSB_ERROR''), LIBUSB_ERROR_IO = -1, LIBUSB_ERROR_ACCESS = -3,
      LIBUSB_ERROR_NO_DEVICE = -4, LIBUSB_ERROR_OTHER = -99\<rparr>"

lemma bench_contract: "carries_packets bench () fst" "one_on_bus bench () () fst"
  by (simp_all add: carries_packets_def one_on_bus_def bench_def usb_ids)

interpretation bench_usb: alike sim_transport "Some ()" "wl_usb_transport bench" "Some (usb_handle ())"
  "\<lambda>w v. w = fst v"
  by (rule usb_alike [OF bench_contract(1)])

end
