(* ===== verification/EndToEnd.thy ===== *)
theory EndToEnd
  imports CliRuns UsbSim
begin

text \<open>
  The tool from its command line to the cells of the flash: \<^verbatim>\<open>main\<close> on a bus with one programmer that
  answers as the simulator does.
\<close>

section \<open>Programs that succeed\<close>

text \<open>From every state with \<open>P\<close> the program returns without an error, and \<open>Q\<close> holds of the result.\<close>

definition gives :: "('s \<Rightarrow> bool) \<Rightarrow> ('s, 'e, 'a) prog \<Rightarrow> ('a \<Rightarrow> 's \<Rightarrow> bool) \<Rightarrow> bool" where
  "gives P m Q \<longleftrightarrow> (\<forall>s. P s \<longrightarrow> (\<exists>x s'. m s = Some (Inr x, s') \<and> Q x s'))"

lemma givesI: "(\<And>s. P s \<Longrightarrow> \<exists>x s'. m s = Some (Inr x, s') \<and> Q x s') \<Longrightarrow> gives P m Q"
  by (simp add: gives_def)

lemma givesE:
  assumes "gives P m Q" "P s"
  obtains x s' where "m s = Some (Inr x, s')" "Q x s'"
  using assms unfolding gives_def by blast

lemma gives_ret: "(\<And>s. P s \<Longrightarrow> Q x s) \<Longrightarrow> gives P (ret x) Q"
  by (simp add: gives_def)

lemma gives_andThen:
  assumes "gives P m R" and "\<And>x. gives (R x) (f x) Q"
  shows "gives P (andThen m f) Q"
proof (rule givesI)
  fix s assume "P s"
  with assms(1) obtain x s1 where 1: "m s = Some (Inr x, s1)" "R x s1" by (rule givesE)
  from assms(2) 1(2) obtain y s2 where "f x s1 = Some (Inr y, s2)" "Q y s2" by (rule givesE)
  with 1 show "\<exists>x s'. andThen m f s = Some (Inr x, s') \<and> Q x s'" by (simp add: andThen_def)
qed

lemma gives_cleanup:
  assumes "gives P m R" and "\<And>x. gives (R x) c (\<lambda>_. Q x)"
  shows "gives P (cleanup m c) Q"
proof (rule givesI)
  fix s assume "P s"
  with assms(1) obtain x s1 where 1: "m s = Some (Inr x, s1)" "R x s1" by (rule givesE)
  from assms(2) 1(2) obtain y s2 where "c s1 = Some (Inr y, s2)" "Q x s2" by (rule givesE)
  with 1 show "\<exists>x s'. cleanup m c s = Some (Inr x, s') \<and> Q x s'" by (simp add: cleanup_def attempt_def)
qed

lemma gives_pre: "(\<And>s. P s \<Longrightarrow> P' s) \<Longrightarrow> gives P' m Q \<Longrightarrow> gives P m Q"
  by (simp add: gives_def)

text \<open>A condition that no output changes.\<close>

definition silent :: "(('h, 'w) host \<Rightarrow> bool) \<Rightarrow> bool" where
  "silent P \<longleftrightarrow> (\<forall>h h'. h_usb h' = h_usb h \<and> h_link h' = h_link h \<and> h_files h' = h_files h \<and> h_sinks h' = h_sinks h \<longrightarrow>
     P h \<longrightarrow> P h')"

lemma silentD:
  "silent P \<Longrightarrow> P h \<Longrightarrow> h_usb h' = h_usb h \<Longrightarrow> h_link h' = h_link h \<Longrightarrow> h_files h' = h_files h \<Longrightarrow>
     h_sinks h' = h_sinks h \<Longrightarrow> P h'"
  unfolding silent_def by blast

lemma gives_logs: "silent P \<Longrightarrow> gives P (logs w t) (\<lambda>_. P)"
  unfolding logs_def by (rule givesI) (auto elim: silentD)

section \<open>The bus\<close>

text \<open>
  Between commands: libusb is up, and the target holds \<open>F\<close> in its flash.  While a command has its
  link open, that is over the USB transport; \<open>new\<close> says that nothing has been set up over it yet.
\<close>

definition at_rest ::
  "('w \<Rightarrow> wl_sim) \<Rightarrow> wl_chip_t \<Rightarrow> (string \<Rightarrow> file_node option) \<Rightarrow> (string \<Rightarrow> file_sink) \<Rightarrow> u8 list
     \<Rightarrow> ('h, 'w) host \<Rightarrow> bool" where
  "at_rest sim_of c files sinks F h \<longleftrightarrow>
     us_context (h_usb h) \<and> target_holds c F (sim_of (us_world (h_usb h))) \<and> h_files h = files \<and> h_sinks h = sinks"

definition linked_up ::
  "('d, 'h, 'w) libusb \<Rightarrow> 'h \<Rightarrow> ('w \<Rightarrow> wl_sim) \<Rightarrow> wl_chip_t \<Rightarrow> (string \<Rightarrow> file_node option) \<Rightarrow> (string \<Rightarrow> file_sink)
     \<Rightarrow> bool \<Rightarrow> u8 list \<Rightarrow> ('h, 'w) host \<Rightarrow> bool" where
  "linked_up lib hnd sim_of c files sinks new F h \<longleftrightarrow>
     at_rest sim_of c files sinks F h \<and> (new \<longrightarrow> \<not> lk_configured (h_link h)) \<and>
     over_usb lib hnd \<lparr>link = h_link h, world = us_world (h_usb h), calls = h_calls h\<rparr>"

lemma silent_states [simp]:
  "silent (at_rest sim_of c files sinks F)" "silent (linked_up lib hnd sim_of c files sinks new F)"
  by (auto simp: silent_def at_rest_def linked_up_def over_usb_def)

lemma open_finds:
  assumes bus: "one_on_bus lib d h sim_of" and u: "us_context u"
  shows "\<exists>i u'. wl_linke_open lib None u =
      (Inr \<lparr>lk_transport = Some (wl_usb_transport lib), lk_ctx = Some (usb_handle h), lk_info = i,
            lk_open = True, lk_chip_id = 0, lk_configured = False\<rparr>, u') \<and>
     us_context u' \<and> sim_of (us_world u') = sim_of (us_world u)"
proof -
  have devices: "\<exists>w'. lu_get_device_list lib w = (Inr [d], w') \<and> sim_of w' = sim_of w" for w
    using bus unfolding one_on_bus_def by blast
  have descriptor: "\<exists>i j w'. lu_get_descriptor lib d w = (Inr (WL_USB_VID_WCH, WL_USB_PID_LINK_RV, i, j), w') \<and>
      sim_of w' = sim_of w" for w
    using bus unfolding one_on_bus_def by blast
  have opens: "\<exists>w'. lu_open lib d w = (Inr h, w') \<and> sim_of w' = sim_of w" for w
    using bus unfolding one_on_bus_def by blast
  have rest: "sim_of (lu_close lib h w) = sim_of w" "sim_of (snd (lu_get_string lib h i n w)) = sim_of w"
    "sim_of (lu_detach_kernel lib h w) = sim_of w" "fst (lu_claim lib h WL_USB_INTERFACE w) = 0"
    "sim_of (snd (lu_claim lib h WL_USB_INTERFACE w)) = sim_of w" for w i n
    using bus unfolding one_on_bus_def by blast+
  have str: "sim_of (snd (read_string lib h i n w)) = sim_of w" for i n w
    using rest(2) [of i n w] by (auto simp: read_string_def split: prod.split sum.split)
  obtain w1 where w1: "lu_get_device_list lib (us_world u) = (Inr [d], w1)" "sim_of w1 = sim_of (us_world u)"
    using devices by blast
  obtain i j w2 where w2: "lu_get_descriptor lib d w1 = (Inr (WL_USB_VID_WCH, WL_USB_PID_LINK_RV, i, j), w2)"
    "sim_of w2 = sim_of w1" using descriptor by blast
  have rv: "classify WL_USB_VID_WCH WL_USB_PID_LINK_RV = WL_USB_MODE_RV" by (simp add: classify_def)
  obtain info w3 where w3: "probe_device lib d (WL_USB_VID_WCH, WL_USB_PID_LINK_RV, i, j) w2 = (info, w3)"
    "ui_mode info = WL_USB_MODE_RV" "ui_accessible info" "ui_bus info = lu_bus_number lib d"
    "ui_address info = lu_device_address lib d" "sim_of w3 = sim_of w2"
  proof -
    obtain v1 where v1: "lu_open lib d w2 = (Inr h, v1)" "sim_of v1 = sim_of w2" using opens by blast
    obtain s v2 where v2: "read_string lib h i WL_USB_SERIAL_MAX v1 = (s, v2)" by fastforce
    obtain p v3 where v3: "read_string lib h j WL_USB_PRODUCT_MAX v2 = (p, v3)" by fastforce
    have "sim_of v2 = sim_of v1" "sim_of v3 = sim_of v2"
      using str [of i WL_USB_SERIAL_MAX v1] str [of j WL_USB_PRODUCT_MAX v2] v2 v3 by simp_all
    then show ?thesis
      using that v1 v2 v3 rest(1) [of v3] by (simp add: probe_device_def rv)
  qed
  have scan: "wl_usb_scan lib WL_MAX_LINKS u = (Inr [info], u\<lparr>us_world := w3\<rparr>)"
    using u w1(1) w2(1) w3(1) by (simp add: wl_usb_scan_def rv WL_MAX_LINKS_def)
  have choose: "choose_programmer lib None [info] v = (Inr info, v)" for v
    using w3 by (simp add: choose_programmer_def serial_matches_def)
  obtain w4 where w4: "lu_get_device_list lib w3 = (Inr [d], w4)" "sim_of w4 = sim_of w3" using devices by blast
  obtain w5 where w5: "lu_open lib d w4 = (Inr h, w5)" "sim_of w5 = sim_of w4" using opens by blast
  obtain rc w6 where w6: "lu_claim lib h WL_USB_INTERFACE (lu_detach_kernel lib h w5) = (rc, w6)" by fastforce
  have "rc = 0" "sim_of w6 = sim_of w5"
    using rest(3) [of w5] rest(4,5) [of "lu_detach_kernel lib h w5"] w6 by simp_all
  then have "wl_usb_open lib info (u\<lparr>us_world := w3\<rparr>) = (Inr (usb_handle h), u\<lparr>us_world := w6\<rparr>)"
    using u w3(4,5) w4(1) w5(1) w6 by (simp add: wl_usb_open_def open_described_def usb_handle_def)
  then show ?thesis
    using u scan choose w1(2) w2(2) w3(6) w4(2) w5(2) \<open>sim_of w6 = sim_of w5\<close>
    by (simp add: wl_linke_open_def)
qed

lemma gives_open:
  fixes lib :: "('d, 'h, 'w) libusb"
  assumes "one_on_bus lib d hnd sim_of" "o_serial opts = None"
  shows "gives (at_rest sim_of c files sinks F) (open_link lib opts) (\<lambda>_. linked_up lib hnd sim_of c files sinks True F)"
proof (rule givesI)
  fix h :: "('h, 'w) host" assume h: "at_rest sim_of c files sinks F h"
  then have "us_context (h_usb h)" by (simp add: at_rest_def)
  from open_finds [OF assms(1) this] obtain i u' where "wl_linke_open lib None (h_usb h) =
      (Inr \<lparr>lk_transport = Some (wl_usb_transport lib), lk_ctx = Some (usb_handle hnd), lk_info = i,
            lk_open = True, lk_chip_id = 0, lk_configured = False\<rparr>, u')"
    "us_context u'" "sim_of (us_world u') = sim_of (us_world (h_usb h))" by blast
  with h assms(2) show "\<exists>x h'. open_link lib opts h = Some (Inr x, h') \<and>
      linked_up lib hnd sim_of c files sinks True F h'"
    by (simp add: open_link_def linked_up_def at_rest_def over_usb_def)
qed

text \<open>What a function does on the simulator it does over an open link.\<close>

lemma gives_with_link:
  assumes d: "does_as n m lib hnd sim_of"
    and m: "\<And>s. sim_link.plugged s \<Longrightarrow> target_holds c F (world s) \<Longrightarrow> (new \<longrightarrow> \<not> lk_configured (link s)) \<Longrightarrow>
      \<exists>x s'. m s = Some (Inr x, s') \<and> R x \<and> target_holds c F' (world s') \<and> (new' \<longrightarrow> \<not> lk_configured (link s'))"
  shows "gives (linked_up lib hnd sim_of c files sinks new F) (with_link n)
     (\<lambda>x h. R x \<and> linked_up lib hnd sim_of c files sinks new' F' h)"
proof (rule givesI)
  fix h assume h: "linked_up lib hnd sim_of c files sinks new F h"
  let ?t = "\<lparr>link = h_link h, world = us_world (h_usb h), calls = h_calls h\<rparr>"
  have t: "over_usb lib hnd ?t" using h by (simp add: linked_up_def)
  obtain x s' where s': "m (sim_side sim_of ?t) = Some (Inr x, s')" "R x" "target_holds c F' (world s')"
    "new' \<longrightarrow> \<not> lk_configured (link s')"
    using m [of "sim_side sim_of ?t"] h by (auto simp: linked_up_def at_rest_def)
  then obtain t' where "n ?t = Some (Inr x, t')" "over_usb lib hnd t'" "sim_of (world t') = world s'"
    "lk_configured (link t') = lk_configured (link s')"
    using d t unfolding does_as_def by blast
  with h s' show "\<exists>x h'. with_link n h = Some (Inr x, h') \<and> R x \<and> linked_up lib hnd sim_of c files sinks new' F' h'"
    by (simp add: with_link_def linked_up_def at_rest_def over_usb_def)
qed

lemma gives_close:
  assumes bus: "one_on_bus lib d hnd sim_of" and p: "carries_packets lib hnd sim_of"
  shows "gives (linked_up lib hnd sim_of c files sinks new F) (with_link (wl_linke_close lib))
     (\<lambda>_. at_rest sim_of c files sinks F)"
proof (rule givesI)
  fix h assume h: "linked_up lib hnd sim_of c files sinks new F h"
  let ?t = "\<lparr>link = h_link h, world = us_world (h_usb h), calls = h_calls h\<rparr>"
  have t: "over_usb lib hnd ?t" and holds: "target_holds c F (sim_of (world ?t))"
    using h by (auto simp: linked_up_def at_rest_def)
  let ?s' = "(sim_side sim_of ?t)\<lparr>world := sim_ctl 0x0d 0xff (sim_of (world ?t))\<rparr>"
  obtain reply where "send_control 0x0d 0xff 64 (sim_side sim_of ?t) = Some (Inr reply, ?s')"
    using sim_link.control_ok [of "sim_side sim_of ?t" "0x0d" 64 "0xff"] by auto
  then obtain t' where t': "send_control 0x0d 0xff 64 ?t = Some (Inr reply, t')" "over_usb lib hnd t'"
    "sim_of (world t') = world ?s'"
    using usb_does_as(8) [OF p, where c = "0x0d" and x = "0xff"] t unfolding does_as_def by blast
  have free: "sim_of (wl_usb_close lib (Some (usb_handle hnd)) w) = sim_of w" for w
    using bus unfolding one_on_bus_def by (simp add: wl_usb_close_def usb_handle_def)
  have "target_holds c F (sim_of (wl_usb_close lib (Some (usb_handle hnd)) (world t')))"
    using holds target_holds_observed [of "sim_ctl 0x0d 0xff (sim_of (world ?t))" "sim_of (world ?t)"]
    by (simp add: free t'(3) sim_idle_control)
  moreover have "\<exists>s1. wl_linke_close lib ?t = Some (Inr (), s1) \<and>
      world s1 = wl_usb_close lib (Some (usb_handle hnd)) (world t')"
    using t t'(1) by (simp add: wl_linke_close_def wl_linke_detach_def over_usb_def run wire_consts)
  ultimately show "\<exists>x h'. with_link (wl_linke_close lib) h = Some (Inr x, h') \<and> at_rest sim_of c files sinks F h'"
    using h by (auto simp: with_link_def linked_up_def at_rest_def)
qed

section \<open>Parts of the commands\<close>

lemma gives_known: "(x = a \<Longrightarrow> gives P m Q) \<Longrightarrow> gives (\<lambda>h. x = a \<and> P h) m Q"
  by (simp add: gives_def)

lemma gives_reported: "gives P m Q \<Longrightarrow> gives P (reported_failure t m) Q"
  unfolding gives_def reported_failure_def attempt_def by fastforce

lemma gives_linked:
  assumes "one_on_bus lib d hnd sim_of" "carries_packets lib hnd sim_of" "o_serial opts = None"
    and "gives (linked_up lib hnd sim_of c files sinks True F) m (\<lambda>x h. x = a \<and> linked_up lib hnd sim_of c files sinks new F' h)"
  shows "gives (at_rest sim_of c files sinks F) (linked lib opts (wl_linke_close lib) m)
     (\<lambda>x h. x = a \<and> at_rest sim_of c files sinks F' h)"
  unfolding linked_def
proof (rule gives_andThen [OF gives_open [OF assms(1,3)]], rule gives_cleanup [OF assms(4)], rule gives_known)
  fix x assume "x = a"
  with gives_close [OF assms(1,2), of c files sinks new F']
  show "gives (linked_up lib hnd sim_of c files sinks new F') (with_link (wl_linke_close lib))
      (\<lambda>_ h. x = a \<and> at_rest sim_of c files sinks F' h)" by simp
qed

lemma gives_chosen:
  assumes "carries_packets lib hnd sim_of" "c \<in> set chips" "g = None \<or> g = Some c"
    and "\<And>x. gives (linked_up lib hnd sim_of c files sinks True F) (after x) (\<lambda>_. linked_up lib hnd sim_of c files sinks True F)"
  shows "gives (linked_up lib hnd sim_of c files sinks True F) (chosen_chip g after)
     (\<lambda>x h. x = c \<and> linked_up lib hnd sim_of c files sinks True F h)"
proof (cases g)
  case (Some c')
  then show ?thesis using assms(3) by (simp add: chosen_chip_def gives_ret del: ret_apply)
next
  case None
  have "\<exists>x s'. wl_linke_identify_chip s = Some (Inr x, s') \<and> x = c \<and> target_holds c F (world s') \<and>
      (True \<longrightarrow> \<not> lk_configured (link s'))"
    if s: "sim_link.plugged s" "target_holds c F (world s)" for s
  proof -
    have "s_chip (world s) = c" using s(2) by (simp add: target_holds_def)
    with identify_step [OF s(1)] assms(2) obtain s' where s': "wl_linke_identify_chip s = Some (Inr c, s')"
      "observed (world s') = observed (world s)" "link s' = (link s)\<lparr>lk_configured := False\<rparr>" by auto
    have "target_holds c F (world s')" using s(2) target_holds_observed [OF s'(2)] by blast
    with s' show ?thesis by simp
  qed
  then have "gives (linked_up lib hnd sim_of c files sinks True F) (with_link wl_linke_identify_chip)
      (\<lambda>x h. x = c \<and> linked_up lib hnd sim_of c files sinks True F h)"
    by (rule gives_with_link [OF usb_does_as(3) [OF assms(1)]])
  note found = gives_reported [OF this]
  have "gives (\<lambda>h. x = c \<and> linked_up lib hnd sim_of c files sinks True F h) (andDo (after x) (ret x))
      (\<lambda>x h. x = c \<and> linked_up lib hnd sim_of c files sinks True F h)" for x
    by (rule gives_known, rule gives_andThen [OF assms(4)], rule gives_ret, simp)
  with found show ?thesis
    unfolding chosen_chip_def None option.case by (rule gives_andThen)
qed

lemma gives_detected:
  "silent P \<Longrightarrow> gives P (detected c) (\<lambda>_. P)"
  unfolding detected_def by (rule gives_logs)

lemma show_calls_files [simp]: "h_files (show_calls cs h) = h_files h" "h_sinks (show_calls cs h) = h_sinks h"
  by (induction cs h rule: show_calls.induct)
    (simp_all add: show_write_progress_def show_verify_progress_def Let_def)

lemma gives_flashing:
  assumes m: "gives P (with_link (wl_linke_write_flash (Some c) (flash_address opts c) (Some img)
      (o_verify opts) (Some Write_progress) (Some Verify_progress))) (\<lambda>x h. R x \<and> Q h)" and Q: "silent Q"
  shows "gives P (flashing opts c img) (\<lambda>_. Q)"
proof (rule givesI)
  fix h assume "P h"
  with m obtain x h' where 1: "with_link (wl_linke_write_flash (Some c) (flash_address opts c) (Some img)
      (o_verify opts) (Some Write_progress) (Some Verify_progress)) h = Some (Inr x, h')" "R x \<and> Q h'"
    by (rule givesE)
  have "Q (show_calls (h_calls h') h')" by (rule silentD [OF Q]) (use 1(2) in simp_all)
  with 1(1) show "\<exists>x h'. flashing opts c img h = Some (Inr x, h') \<and> Q h'"
    by (simp add: flashing_def attempt_def andThen_def)
qed

lemma gives_read_file:
  assumes "files path = Some \<lparr>fn_regular = True, fn_size = length img, fn_opens = True, fn_bytes = img\<rparr>" "img \<noteq> []"
  shows "gives (at_rest sim_of c files sinks F) (read_file path) (\<lambda>x h. x = img \<and> at_rest sim_of c files sinks F h)"
  using assms by (simp add: gives_def read_file_def at_rest_def andThen_def)

lemma given_is:
  assumes "o_chip opts = None \<or> wl_chip_by_name (o_chip opts) = Some c"
  obtains g where "given_chip opts = ret g" "g = None \<or> g = Some c"
  using assms that unfolding given_chip_def require_chip_def
  by (cases "o_chip opts") (auto simp del: ret_apply)

section \<open>The flash and read commands\<close>

lemma gives_flash:
  fixes lib :: "('d, 'h, 'w) libusb"
  assumes bus: "one_on_bus lib d hnd sim_of" "carries_packets lib hnd sim_of"
    and c: "c \<in> set chips" "algo c = WL_FLASH_CH32V0"
    and opts: "o_serial opts = None" "o_chip opts = None \<or> wl_chip_by_name (o_chip opts) = Some c"
    and stored: "files (the (o_file opts)) = Some \<lparr>fn_regular = True, fn_size = length img, fn_opens = True, fn_bytes = img\<rparr>"
    and img: "img \<noteq> []" "wl_flash_range_ok (Some c) (flash_address opts c) (length img)"
  shows "gives (at_rest sim_of c files sinks F) (cmd_flash lib opts)
     (\<lambda>_. at_rest sim_of c files sinks (write_at (unat (normalise c (flash_address opts c) - flash_base c)) img F))"
proof -
  let ?L = "linked_up lib hnd sim_of c files sinks"
  let ?F = "write_at (unat (normalise c (flash_address opts c) - flash_base c)) img F"
  obtain g where g: "(given_chip opts :: ('h, 'w, wl_status, wl_chip_t option) hprog) = ret g" "g = None \<or> g = Some c" using given_is [OF opts(2)] .
  have checks: "(require_flash c :: ('h, 'w, wl_status, unit) hprog) = ret ()"
    "(require_fit opts c (length img) :: ('h, 'w, wl_status, unit) hprog) = ret ()"
    using c(2) img(2) by (simp_all add: require_flash_def wl_linke_can_flash_def require_fit_def del: ret_apply)
  then have early: "((case g of None \<Rightarrow> ret () | Some chip \<Rightarrow> require_flash chip) :: ('h, 'w, wl_status, unit) hprog) = ret ()"
    "((case g of None \<Rightarrow> ret () | Some chip \<Rightarrow> require_fit opts chip (length img)) :: ('h, 'w, wl_status, unit) hprog) = ret ()"
    using g(2) by auto
  have "\<exists>x s'. wl_linke_write_flash (Some c) (flash_address opts c) (Some img) (o_verify opts)
      (Some Write_progress) (Some Verify_progress) s = Some (Inr x, s') \<and> True \<and> target_holds c ?F (world s') \<and>
      (False \<longrightarrow> \<not> lk_configured (link s'))"
    if "sim_link.plugged s" "target_holds c F (world s)" "True \<longrightarrow> \<not> lk_configured (link s)" for s
    using flash_step [OF that(1,2) _ c img(2,1)] that(3) by blast
  then have flashing: "gives (?L True F) (flashing opts c img) (\<lambda>_. ?L False ?F)"
    by (rule gives_flashing [OF gives_with_link [OF usb_does_as(1) [OF bus(2)]] silent_states(2)])
  have work: "gives (?L True F) (andThen (chosen_chip g detected) (\<lambda>chip.
      andDo (require_flash chip)
     (andDo (require_fit opts chip (length img))
     (andDo (logs wl_info (''writing '' @ dec_str (length img) @ '' bytes to '' @ name chip @ '' at '' @
               hex0x (flash_address opts chip) @ (if o_verify opts then '', then reading it back'' else [])))
     (andDo (flashing opts chip img) (ret chip)))))) (\<lambda>x h. x = c \<and> ?L False ?F h)"
  proof (rule gives_andThen [OF gives_chosen [OF bus(2) c(1) g(2) gives_detected [OF silent_states(2)]]], rule gives_known)
    fix chip assume "chip = c"
    then show "gives (?L True F) (andDo (require_flash chip)
     (andDo (require_fit opts chip (length img))
     (andDo (logs wl_info (''writing '' @ dec_str (length img) @ '' bytes to '' @ name chip @ '' at '' @
               hex0x (flash_address opts chip) @ (if o_verify opts then '', then reading it back'' else [])))
     (andDo (flashing opts chip img) (ret chip))))) (\<lambda>x h. x = c \<and> ?L False ?F h)"
      by (simp only: checks andThen_ret_left)
        (rule gives_andThen, rule gives_logs, rule silent_states(2), rule gives_andThen, rule flashing, rule gives_ret, simp)
  qed
  have "gives (at_rest sim_of c files sinks F) (linked lib opts (wl_linke_close lib) (andThen (chosen_chip g detected) (\<lambda>chip.
      andDo (require_flash chip)
     (andDo (require_fit opts chip (length img))
     (andDo (logs wl_info (''writing '' @ dec_str (length img) @ '' bytes to '' @ name chip @ '' at '' @
               hex0x (flash_address opts chip) @ (if o_verify opts then '', then reading it back'' else [])))
     (andDo (flashing opts chip img) (ret chip))))))) (\<lambda>x h. x = c \<and> at_rest sim_of c files sinks ?F h)"
    by (rule gives_linked [OF bus opts(1) work])
  note linked = this
  have finish: "gives (\<lambda>h. x = c \<and> at_rest sim_of c files sinks ?F h)
      (logs wl_info (''done: '' @ name x @ '' now holds the image'')) (\<lambda>_. at_rest sim_of c files sinks ?F)" for x
    by (rule gives_known, rule gives_logs, rule silent_states(1))
  show ?thesis
    unfolding cmd_flash_def g(1) andThen_ret_left early(1)
  proof (rule gives_andThen [OF gives_read_file [where files = files, OF stored img(1)]], rule gives_known)
    fix x assume "x = img"
    then show "gives (at_rest sim_of c files sinks F)
       (andDo (case g of None \<Rightarrow> ret () | Some chip \<Rightarrow> require_fit opts chip (length x))
         (andThen (linked lib opts (wl_linke_close lib) (andThen (chosen_chip g detected) (\<lambda>chip.
            andDo (require_flash chip)
           (andDo (require_fit opts chip (length x))
           (andDo (logs wl_info (''writing '' @ dec_str (length x) @ '' bytes to '' @ name chip @ '' at '' @
                     hex0x (flash_address opts chip) @ (if o_verify opts then '', then reading it back'' else [])))
           (andDo (flashing opts chip x) (ret chip)))))))
         (\<lambda>chip. logs wl_info (''done: '' @ name chip @ '' now holds the image''))))
       (\<lambda>_. at_rest sim_of c files sinks ?F)"
      by (simp only: early(2) andThen_ret_left) (rule gives_andThen [OF linked finish])
  qed
qed

text \<open>What is read, and from where: the whole flash, or a range of it.\<close>

definition reads_range :: "options \<Rightarrow> wl_chip_t \<Rightarrow> nat \<Rightarrow> nat \<Rightarrow> bool" where
  "reads_range opts c off n \<longleftrightarrow>
     (if \<not> o_address_given opts \<and> \<not> o_size_given opts then off = 0 \<and> n = unat (flash_size c)
      else o_address_given opts \<and> o_size_given opts \<and> o_size opts = n \<and> n \<noteq> 0 \<and>
        o_address opts = FB_V + of_nat off \<and> off + n \<le> unat (flash_size c))"

text \<open>A plain file as \<^verbatim>\<open>write_file\<close> leaves it.\<close>

definition plain_file :: "u8 list \<Rightarrow> file_node" where
  "plain_file bs = \<lparr>fn_regular = True, fn_size = length bs, fn_opens = True, fn_bytes = bs\<rparr>"

lemma gives_write_file:
  assumes "fs_creates (sinks path)" "length bs \<le> fs_takes (sinks path)" "fs_closes (sinks path)"
  shows "gives (at_rest sim_of c files sinks F) (write_file path bs)
     (\<lambda>_. at_rest sim_of c (files(path \<mapsto> plain_file bs)) sinks F)"
  using assms by (simp add: gives_def write_file_def at_rest_def andThen_def plain_file_def)

lemma gives_read:
  fixes lib :: "('d, 'h, 'w) libusb"
  assumes bus: "one_on_bus lib d hnd sim_of" "carries_packets lib hnd sim_of"
    and c: "c \<in> set chips" "algo c = WL_FLASH_CH32V0"
    and opts: "o_serial opts = None" "o_chip opts = None \<or> wl_chip_by_name (o_chip opts) = Some c"
    and range: "reads_range opts c off n"
    and sink: "fs_creates (sinks (the (o_file opts)))" "n \<le> fs_takes (sinks (the (o_file opts)))"
      "fs_closes (sinks (the (o_file opts)))"
    and F: "length F = unat (flash_size c)"
  shows "gives (at_rest sim_of c files sinks F) (cmd_read lib opts)
     (\<lambda>_. at_rest sim_of c (files(the (o_file opts) \<mapsto> plain_file (take n (drop off F)))) sinks F)"
proof -
  let ?L = "linked_up lib hnd sim_of c files sinks"
  let ?bs = "take n (drop off F)"
  obtain g where g: "(given_chip opts :: ('h, 'w, wl_status, wl_chip_t option) hprog) = ret g" "g = None \<or> g = Some c" using given_is [OF opts(2)] .
  have whole: "\<not> (\<not> (\<not> o_address_given opts \<and> \<not> o_size_given opts) \<and>
      (\<not> o_address_given opts \<or> \<not> o_size_given opts \<or> o_size opts = 0))"
    using range by (auto simp: reads_range_def split: if_splits)
  have inside: "off + n \<le> length F" using range F by (auto simp: reads_range_def split: if_splits)
  have base: "flash_base c = FB_V" using chip_okD [OF c(1)] c(2) by (simp add: chip_ok_def)
  have at: "(if \<not> o_address_given opts \<and> \<not> o_size_given opts then flash_base c else o_address opts) = FB_V + of_nat off"
    "(if \<not> o_address_given opts \<and> \<not> o_size_given opts then unat (flash_size c) else o_size opts) = n"
    using range base by (auto simp: reads_range_def split: if_splits)
  have "\<exists>x s'. wl_linke_read_memory (Some c) (FB_V + of_nat off) n s = Some (Inr x, s') \<and> x = ?bs \<and>
      target_holds c F (world s') \<and> (False \<longrightarrow> \<not> lk_configured (link s'))"
    if "sim_link.plugged s" "target_holds c F (world s)" "True \<longrightarrow> \<not> lk_configured (link s)" for s
    using read_step [OF that(1,2) _ c inside] that(3) by blast
  then have reading: "gives (?L True F) (with_link (wl_linke_read_memory (Some c) (FB_V + of_nat off) n))
      (\<lambda>x h. x = ?bs \<and> ?L False F h)"
    by (rule gives_with_link [OF usb_does_as(2) [OF bus(2)]])
  have work: "gives (?L True F) (andThen (chosen_chip g detected) (\<lambda>chip.
      let address = (if \<not> o_address_given opts \<and> \<not> o_size_given opts then flash_base chip else o_address opts);
          size = (if \<not> o_address_given opts \<and> \<not> o_size_given opts then unat (flash_size chip) else o_size opts) in
      andDo (logs wl_info (''reading '' @ dec_str size @ '' bytes from '' @ hex0x address))
        (with_link (wl_linke_read_memory (Some chip) address size)))) (\<lambda>x h. x = ?bs \<and> ?L False F h)"
  proof (rule gives_andThen [OF gives_chosen [OF bus(2) c(1) g(2) gives_detected [OF silent_states(2)]]], rule gives_known)
    fix chip assume "chip = c"
    then show "gives (?L True F) (let address = (if \<not> o_address_given opts \<and> \<not> o_size_given opts then flash_base chip else o_address opts);
          size = (if \<not> o_address_given opts \<and> \<not> o_size_given opts then unat (flash_size chip) else o_size opts) in
      andDo (logs wl_info (''reading '' @ dec_str size @ '' bytes from '' @ hex0x address))
        (with_link (wl_linke_read_memory (Some chip) address size))) (\<lambda>x h. x = ?bs \<and> ?L False F h)"
      by (simp only: Let_def at) (rule gives_andThen, rule gives_logs, rule silent_states(2), rule reading)
  qed
  have store: "gives (\<lambda>h. x = ?bs \<and> at_rest sim_of c files sinks F h) (write_file (the (o_file opts)) x)
      (\<lambda>_. at_rest sim_of c (files(the (o_file opts) \<mapsto> plain_file ?bs)) sinks F)" for x
    by (rule gives_known) (use gives_write_file [where sinks = sinks and path = "the (o_file opts)" and bs = ?bs] sink inside in simp)
  show ?thesis
    unfolding cmd_read_def Let_def [of "\<not> o_address_given opts \<and> \<not> o_size_given opts"] g(1) andThen_ret_left
      if_not_P [OF whole]
    by (rule gives_andThen [OF gives_linked [OF bus opts(1) work] store])
qed

section \<open>The tool\<close>

text \<open>A command that succeeds between initialisation and exit is a run of the tool that exits with 0.\<close>

lemma main_gives:
  assumes bus: "one_on_bus lib d hnd sim_of"
    and opts: "options_ok command opts"
    and holds: "target_holds c F (sim_of (us_world (h_usb st)))"
    and run: "gives (at_rest sim_of c (h_files st) (h_sinks st) F) (run_command lib command opts)
      (\<lambda>_. at_rest sim_of c files sinks F')"
  shows "\<exists>st'. main lib (prog # spelled command opts) st = Some (0, st') \<and>
     target_holds c F' (sim_of (us_world (h_usb st'))) \<and> h_files st' = files \<and> h_sinks st' = sinks"
proof -
  let ?n = "named (prog # spelled command opts) st"
  let ?s = "?n\<lparr>h_err := h_err ?n @ wl_debug (h_level ?n) (h_program ?n @ '' '' @ WL_VERSION)\<rparr>"
  have n: "h_usb ?s = h_usb st" "h_files ?s = h_files st" "h_sinks ?s = h_sinks st"
    by (simp_all add: named_def)
  have init: "fst (lu_init lib w) = 0 \<and> sim_of (snd (lu_init lib w)) = sim_of w" "sim_of (lu_exit lib w) = sim_of w" for w
    using bus unfolding one_on_bus_def by blast+
  obtain u where u: "wl_usb_global_init lib (h_usb st) = (0, u)" "us_context u"
    "sim_of (us_world u) = sim_of (us_world (h_usb st))"
  proof (cases "us_context (h_usb st)")
    case True
    then show ?thesis using that [of "h_usb st"] by (simp add: wl_usb_global_init_def)
  next
    case False
    obtain rc w where rc: "lu_init lib (us_world (h_usb st)) = (rc, w)" by fastforce
    with init(1) [of "us_world (h_usb st)"] False
    show ?thesis using that [of "(h_usb st)\<lparr>us_context := True, us_world := w\<rparr>"]
      by (simp add: wl_usb_global_init_def)
  qed
  have "at_rest sim_of c (h_files st) (h_sinks st) F (?s\<lparr>h_usb := u\<rparr>)"
    using holds u n by (simp add: at_rest_def)
  with run obtain x h2 where 2: "run_command lib command opts (?s\<lparr>h_usb := u\<rparr>) = Some (Inr x, h2)"
    "at_rest sim_of c files sinks F' h2" by (rule givesE)
  have "main lib (prog # spelled command opts) st = Some (0, h2\<lparr>h_usb := wl_usb_global_exit lib (h_usb h2)\<rparr>)"
    unfolding main_named list.sel andThen_def [of "parse_args _ _ _ _"] spelled_parsed [OF opts] run_main_def
    using 2(1) u(1) n(1) by (simp add: with_program_def logs_def andThen_def)
  moreover have "sim_of (us_world (wl_usb_global_exit lib (h_usb h2))) = sim_of (us_world (h_usb h2))"
    by (simp add: wl_usb_global_exit_def init(2))
  ultimately show ?thesis using 2(2) by (simp add: at_rest_def)
qed

end
