(* ===== verification/EndProps.thy ===== *)
theory EndProps
  imports EndToEnd
begin

text \<open>
  What the tool achieves from its command line, over a libusb that keeps its contract and with a
  programmer behind it that answers as the simulator does; and the refinement this rests on.
\<close>

section \<open>Over USB as on the simulator\<close>

text \<open>C3: over a libusb that delivers packets, the USB transport refines the transport of the
  simulator: whatever flashing, reading, detection, interface setting, reset, resume and the
  debug-module accesses return on the simulator, in success or failure, they return over USB
  too, with the same calls of the callbacks, and they leave the programmer behind the bus in
  the same state.\<close>

theorem usb_refines_simulator:
  assumes "carries_packets lib h sim_of"
  shows "does_as (wl_linke_write_flash ch a im vf wp vp) (wl_linke_write_flash ch a im vf wp vp) lib h sim_of \<and>
     does_as (wl_linke_read_memory ch a n) (wl_linke_read_memory ch a n) lib h sim_of \<and>
     does_as wl_linke_identify_chip wl_linke_identify_chip lib h sim_of \<and>
     does_as (wl_linke_set_interface ch) (wl_linke_set_interface ch) lib h sim_of \<and>
     does_as wl_linke_reset wl_linke_reset lib h sim_of \<and> does_as wl_linke_resume wl_linke_resume lib h sim_of \<and>
     does_as (wl_dm_read32 a) (wl_dm_read32 a) lib h sim_of \<and>
     does_as (wl_dm_write32 a v) (wl_dm_write32 a v) lib h sim_of \<and>
     does_as (wl_dm_gpr_read v) (wl_dm_gpr_read v) lib h sim_of"
  by (intro conjI usb_does_as assms)

text \<open>A session over the smallest libusb that keeps the contract.\<close>

definition bench_session :: "(unit wl_usb_link, wl_sim \<times> u8 list) sess" where
  "bench_session =
     \<lparr>link = wl_linke_attach_transport (wl_usb_transport bench) (Some (usb_handle ())), world = (v003_sim, []), calls = []\<rparr>"

theorem usb_refines_simulator_witness:
  "\<exists>t'. wl_linke_reset bench_session = Some (Inr (), t') \<and> s_resets (fst (world t')) = 1"
proof -
  have d: "does_as wl_linke_reset wl_linke_reset bench () fst"
    using usb_refines_simulator [OF bench_contract(1)] by blast
  have o: "over_usb bench () bench_session"
    by (simp add: over_usb_def bench_session_def wl_linke_attach_transport_def)
  have "\<exists>s'. wl_linke_reset (sim_side fst bench_session) = Some (Inr (), s') \<and> s_resets (world s') = 1"
    using new_sim(9) [OF v003_new]
    by (simp add: sim_link.reset_ok) (auto simp: sim_ctl_def sim_control_def bench_session_def Let_def)
  then obtain s' where s': "wl_linke_reset (sim_side fst bench_session) = Some (Inr (), s')"
    "s_resets (world s') = 1" by blast
  with d o obtain t' where "wl_linke_reset bench_session = Some (Inr (), t')" "fst (world t') = world s'"
    unfolding does_as_def by blast
  with s'(2) show ?thesis by auto
qed

section \<open>Flashing and reading\<close>

lemma flash_run:
  assumes bus: "one_on_bus lib d hnd sim_of" "carries_packets lib hnd sim_of"
    and target: "c \<in> set chips" "algo c = WL_FLASH_CH32V0" "target_holds c F (sim_of (us_world (h_usb st)))"
    and opts: "options_ok ''flash'' opts" "o_serial opts = None"
      "o_chip opts = None \<or> wl_chip_by_name (o_chip opts) = Some c" "o_file opts = Some path"
    and img: "h_files st path = Some (plain_file img)" "img \<noteq> []"
      "wl_flash_range_ok (Some c) (flash_address opts c) (length img)"
  shows "\<exists>st'. main lib (prog # spelled ''flash'' opts) st = Some (0, st') \<and>
     target_holds c (write_at (unat (normalise c (flash_address opts c) - flash_base c)) img F)
       (sim_of (us_world (h_usb st'))) \<and> h_files st' = h_files st \<and> h_sinks st' = h_sinks st"
proof (rule main_gives [OF bus(1) opts(1) target(3)])
  have stored: "h_files st (the (o_file opts)) =
      Some \<lparr>fn_regular = True, fn_size = length img, fn_opens = True, fn_bytes = img\<rparr>"
    using opts(4) img(1) by (simp add: plain_file_def)
  have "run_command lib ''flash'' opts = cmd_flash lib opts"
    using opts(4) by (simp add: run_command_def needs_file_def)
  then show "gives (at_rest sim_of c (h_files st) (h_sinks st) F) (run_command lib ''flash'' opts)
      (\<lambda>_. at_rest sim_of c (h_files st) (h_sinks st)
        (write_at (unat (normalise c (flash_address opts c) - flash_base c)) img F))"
    using gives_flash [OF bus target(1,2) opts(2,3), of "h_files st", OF stored img(2,3)] by simp
qed

lemma read_run:
  assumes bus: "one_on_bus lib d hnd sim_of" "carries_packets lib hnd sim_of"
    and target: "c \<in> set chips" "algo c = WL_FLASH_CH32V0" "target_holds c F (sim_of (us_world (h_usb st)))"
    and opts: "options_ok ''read'' opts" "o_serial opts = None"
      "o_chip opts = None \<or> wl_chip_by_name (o_chip opts) = Some c" "o_file opts = Some path"
    and range: "reads_range opts c off n"
    and sink: "fs_creates (h_sinks st path)" "n \<le> fs_takes (h_sinks st path)" "fs_closes (h_sinks st path)"
  shows "\<exists>st'. main lib (prog # spelled ''read'' opts) st = Some (0, st') \<and>
     target_holds c F (sim_of (us_world (h_usb st'))) \<and>
     h_files st' = (h_files st)(path \<mapsto> plain_file (take n (drop off F))) \<and> h_sinks st' = h_sinks st"
proof (rule main_gives [OF bus(1) opts(1) target(3)])
  have F: "length F = unat (flash_size c)" using target(3) by (simp add: target_holds_def)
  have path: "the (o_file opts) = path" using opts(4) by simp
  have "run_command lib ''read'' opts = cmd_read lib opts"
    using opts(4) by (simp add: run_command_def needs_file_def)
  then show "gives (at_rest sim_of c (h_files st) (h_sinks st) F) (run_command lib ''read'' opts)
      (\<lambda>_. at_rest sim_of c ((h_files st)(path \<mapsto> plain_file (take n (drop off F)))) (h_sinks st) F)"
    using gives_read [OF bus target(1,2) opts(2,3) range, where sinks = "h_sinks st" and files = "h_files st" and F = F]
      sink F unfolding path by simp
qed

text \<open>C2: running the tool with a flash command line, over a libusb that delivers its packets to a
  programmer that answers as the simulator does, with or without naming the part, exits with
  status 0 and leaves in the target's flash exactly the file's bytes at the address asked
  for and the old bytes everywhere else; no file changes, and the target is ready for the
  next command.\<close>

theorem flash_end_to_end:
  assumes "one_on_bus lib d hnd sim_of" "carries_packets lib hnd sim_of"
    and "c \<in> set chips" "algo c = WL_FLASH_CH32V0" "target_holds c F (sim_of (us_world (h_usb st)))"
    and "options_ok ''flash'' opts" "o_serial opts = None"
      "o_chip opts = None \<or> wl_chip_by_name (o_chip opts) = Some c" "o_file opts = Some path"
    and "h_files st path = Some (plain_file img)" "img \<noteq> []"
      "wl_flash_range_ok (Some c) (flash_address opts c) (length img)"
  shows "\<exists>st'. main lib (prog # spelled ''flash'' opts) st = Some (0, st') \<and>
     s_flash (sim_of (us_world (h_usb st'))) =
       write_at (unat (normalise c (flash_address opts c) - flash_base c)) img F \<and>
     target_holds c (s_flash (sim_of (us_world (h_usb st')))) (sim_of (us_world (h_usb st'))) \<and>
     h_files st' = h_files st"
  using flash_run [OF assms] by (fastforce simp: target_holds_def)

text \<open>A process on the smallest bus, with a new CH32V003 and a file of three bytes.\<close>

definition bench_host :: "(unit, wl_sim \<times> u8 list) host" where
  "bench_host =
     \<lparr>h_usb = \<lparr>us_context = False, us_world = (v003_sim\<lparr>s_flash := replicate 0x4000 0xa5\<rparr>, [])\<rparr>,
      h_link = wl_linke_attach_transport (wl_usb_transport bench) None, h_calls = [],
      h_program = ''wchlink'', h_level = WL_LEVEL_INFO, h_out = [], h_err = [],
      h_last_write = -1, h_last_verify = -1,
      h_files = (\<lambda>path. if path = ''app.bin'' then Some (plain_file [0x11, 0x22, 0x33]) else None),
      h_sinks = (\<lambda>path. \<lparr>fs_creates = True, fs_takes = 0x10000, fs_closes = True\<rparr>),
      h_strerror = ''No such file or directory'', h_signal = None, h_takes = [],
      h_gdb = \<lparr>ge_listens = False, ge_client = None, ge_stack = []\<rparr>\<rparr>"

lemma bench_host_target: "target_holds (hd chips) (replicate 0x4000 0xa5) (fst (us_world (h_usb bench_host)))"
  using new_target [OF v003(1,2) v003_new, of "replicate 0x4000 0xa5"] by (simp add: bench_host_def v003)

lemma v003_fits:
  "wl_flash_range_ok (Some (hd chips)) FB_V (length [0x11 :: u8, 0x22, 0x33])" "normalise (hd chips) FB_V = FB_V"
  by (simp_all add: range_ok_unfold normalise_def v003 FB_V_def)

text \<open>The command line that flashes the file, with everything else left to the defaults.\<close>

definition bench_opts :: options where
  "bench_opts = initial_options\<lparr>o_file := Some ''app.bin''\<rparr>"

lemma bench_opts_facts:
  "options_ok ''flash'' bench_opts" "o_serial bench_opts = None" "o_chip bench_opts = None"
  "o_file bench_opts = Some ''app.bin''" "flash_address bench_opts (hd chips) = FB_V"
  "unat (normalise (hd chips) (flash_address bench_opts (hd chips)) - flash_base (hd chips)) = 0"
  by (simp_all add: options_ok_def initial_options_def plain_word_def flash_address_def v003 v003_fits bench_opts_def)

lemma bench_host_file:
  "h_files bench_host ''app.bin'' = Some (plain_file [0x11, 0x22, 0x33])"
  "h_sinks bench_host path = \<lparr>fs_creates = True, fs_takes = 0x10000, fs_closes = True\<rparr>"
  by (simp_all add: bench_host_def)

text \<open>No part is named, so it is detected, and the image goes to the start of its flash.\<close>

theorem flash_end_to_end_witness:
  "\<exists>st'. main bench (''wchlink'' # spelled ''flash'' bench_opts) bench_host = Some (0, st') \<and>
     take 4 (s_flash (fst (us_world (h_usb st')))) = [0x11, 0x22, 0x33, 0xa5]"
proof -
  have t: "take 4 (write_at 0 [0x11, 0x22, 0x33] (replicate 0x4000 0xa5)) = [0x11, 0x22, 0x33, 0xa5 :: u8]"
    by (simp add: write_at_def take_Cons')
  have fits: "wl_flash_range_ok (Some (hd chips)) (flash_address bench_opts (hd chips)) (length [0x11 :: u8, 0x22, 0x33])"
    unfolding bench_opts_facts(5) by (rule v003_fits(1))
  obtain st' where "main bench (''wchlink'' # spelled ''flash'' bench_opts) bench_host = Some (0, st')"
    "s_flash (fst (us_world (h_usb st'))) = write_at 0 [0x11, 0x22, 0x33] (replicate 0x4000 0xa5)"
    using flash_end_to_end [OF bench_contract(2,1) v003(1,2) bench_host_target bench_opts_facts(1,2)
        disjI1 [OF bench_opts_facts(3)] bench_opts_facts(4) bench_host_file(1) _ fits, where prog = "''wchlink''"]
    unfolding bench_opts_facts(6) by auto
  with t show ?thesis by auto
qed

text \<open>C4: running the tool to flash a file and then to read the same range of flash, or the whole
  of it, into another file exits with status 0 both times and gives back exactly the bytes
  of the first file.\<close>

theorem flash_then_read:
  assumes bus: "one_on_bus lib d hnd sim_of" "carries_packets lib hnd sim_of"
    and target: "c \<in> set chips" "algo c = WL_FLASH_CH32V0" "target_holds c F (sim_of (us_world (h_usb st)))"
    and fl: "options_ok ''flash'' opts" "o_serial opts = None"
      "o_chip opts = None \<or> wl_chip_by_name (o_chip opts) = Some c" "o_file opts = Some path"
    and img: "h_files st path = Some (plain_file img)" "img \<noteq> []"
      "wl_flash_range_ok (Some c) (flash_address opts c) (length img)"
    and rd: "options_ok ''read'' opts'" "o_serial opts' = None"
      "o_chip opts' = None \<or> wl_chip_by_name (o_chip opts') = Some c" "o_file opts' = Some path'"
    and range: "reads_range opts' c (unat (normalise c (flash_address opts c) - flash_base c)) (length img)"
    and sink: "fs_creates (h_sinks st path')" "length img \<le> fs_takes (h_sinks st path')" "fs_closes (h_sinks st path')"
  shows "\<exists>st1 st2. main lib (prog # spelled ''flash'' opts) st = Some (0, st1) \<and>
     main lib (prog # spelled ''read'' opts') st1 = Some (0, st2) \<and> h_files st2 path' = Some (plain_file img)"
proof -
  let ?off = "unat (normalise c (flash_address opts c) - flash_base c)"
  obtain st1 where 1: "main lib (prog # spelled ''flash'' opts) st = Some (0, st1)"
    "target_holds c (write_at ?off img F) (sim_of (us_world (h_usb st1)))" "h_sinks st1 = h_sinks st"
    using flash_run [OF bus target fl img] by blast
  obtain st2 where 2: "main lib (prog # spelled ''read'' opts') st1 = Some (0, st2)"
    "h_files st2 path' = Some (plain_file (take (length img) (drop ?off (write_at ?off img F))))"
    using read_run [OF bus target(1,2) 1(2) rd range, where prog = prog] sink unfolding 1(3) by auto
  have "length F = unat (flash_size c)" using target(3) by (simp add: target_holds_def)
  then have "?off + length img \<le> length F"
    using range by (auto simp: reads_range_def split: if_splits)
  with 1(1) 2 show ?thesis by auto
qed

theorem flash_then_read_witness:
  "\<exists>st1 st2. main bench (''wchlink'' # spelled ''flash'' bench_opts) bench_host = Some (0, st1) \<and>
     main bench (''wchlink'' # spelled ''read'' (initial_options\<lparr>o_chip := Some ''ch32v003'', o_file := Some ''out.bin'',
       o_address := FB_V, o_address_given := True, o_size := 3, o_size_given := True\<rparr>)) st1 = Some (0, st2) \<and>
     h_files st2 ''out.bin'' = Some (plain_file [0x11, 0x22, 0x33])"
proof -
  let ?opts = "initial_options\<lparr>o_chip := Some ''ch32v003'', o_file := Some ''out.bin'',
       o_address := FB_V, o_address_given := True, o_size := 3, o_size_given := True\<rparr>"
  have o: "options_ok ''read'' ?opts" "o_serial ?opts = None" "o_file ?opts = Some ''out.bin''"
    "o_chip ?opts = None \<or> wl_chip_by_name (o_chip ?opts) = Some (hd chips)"
    using v003_named by (simp_all add: options_ok_def initial_options_def plain_word_def)
  have range: "reads_range ?opts (hd chips)
      (unat (normalise (hd chips) (flash_address bench_opts (hd chips)) - flash_base (hd chips)))
      (length [0x11 :: u8, 0x22, 0x33])"
    unfolding bench_opts_facts(6) by (simp add: reads_range_def v003)
  have fits: "wl_flash_range_ok (Some (hd chips)) (flash_address bench_opts (hd chips)) (length [0x11 :: u8, 0x22, 0x33])"
    unfolding bench_opts_facts(5) by (rule v003_fits(1))
  show ?thesis
    by (rule flash_then_read [OF bench_contract(2,1) v003(1,2) bench_host_target bench_opts_facts(1,2)
        disjI1 [OF bench_opts_facts(3)] bench_opts_facts(4) bench_host_file(1) _ fits o(1,2,4,3) range])
      (simp_all add: bench_host_file)
qed

end
