(* ===== verification/GdbProps.thy ===== *)
theory GdbProps
  imports GdbInv FlashProps LinkProps
begin

text \<open>
  What the debugging server does to a target with a CH32V00x flash controller: breakpoints in flash
  and the register and memory packets, first on any target that keeps the contracts, then on the
  simulated one.
\<close>

section \<open>Addresses in flash\<close>

lemma write_at_slice:
  assumes "p + n \<le> length xs" "r + length vs \<le> n"
  shows "write_at p (write_at r vs (take n (drop p xs))) xs = write_at (p + r) vs xs"
  using assms by (intro nth_equalityI) (auto simp: nth_write_at)

lemma normalise_home:
  assumes "so < 0x10000"
  shows "normalise c (FB_V + of_nat so) = FB_V + of_nat so"
proof -
  have t: "take_bit 16 so = so" using assms by (simp add: take_bit_eq_mod)
  have b: "bit so n \<Longrightarrow> n < 16" for n
    using arg_cong [OF t, of "\<lambda>x. bit x n"] by (simp add: bit_simps)
  have f: "bit FB_V n \<longleftrightarrow> n = 27" for n
    using bit_push_bit_iff [of 27 "1 :: u32" n] by (auto simp: FB_V_def bit_simps)
  have "FB_V + of_nat so = FB_V OR (of_nat so :: u32)"
    by (rule disjunctive_add_eq_or, rule bit_word_eqI) (auto simp: bit_simps f dest: b)
  then show ?thesis by (simp add: normalise_def FB_V_def or.assoc or.commute or.left_commute)
qed

lemma patch_address:
  assumes "k = 2 \<or> k = 4" "so mod unat k = 0" "so < 0x10000"
  shows "(FB_V + of_nat so) mod k = 0" "so mod 64 + unat k \<le> 64"
proof -
  have u: "unat (FB_V + of_nat so :: u32) = 0x08000000 + so" using assms by (intro unat_FB_V_plus) simp
  have "unat ((FB_V + of_nat so) mod k) = (0x08000000 + so) mod unat k" by (simp add: unat_mod u)
  also have "\<dots> = 0" using assms by (auto simp: mod_0_imp_dvd)
  finally show "(FB_V + of_nat so) mod k = 0" by (simp add: unat_eq_0)
  show "so mod 64 + unat k \<le> 64" using assms(1)
  proof
    assume "k = 2"
    then have "so mod 64 mod 2 = 0" using assms(2) by (simp add: mod_mod_cancel)
    then show ?thesis using \<open>k = 2\<close> by (simp add: dvd_def) presburger
  next
    assume "k = 4"
    then have "so mod 64 mod 4 = 0" using assms(2) by (simp add: mod_mod_cancel)
    then show ?thesis using \<open>k = 4\<close> by simp presburger
  qed
qed

section \<open>Breakpoints on a target with a flash controller\<close>

context flash_controller
begin

definition flash_ready :: "wl_chip_t \<Rightarrow> u8 list \<Rightarrow> ('a, 'b) sess \<Rightarrow> bool" where
  "flash_ready c F s \<longleftrightarrow>
     plugged s \<and> live (world s) \<and> calm ((view (obs (world s)))\<lparr>v_open := True\<rparr>) \<and>
     v_flash (view (obs (world s))) = F \<and> chip_ok c \<and> algo c = WL_FLASH_CH32V0 \<and>
     length F = unat (flash_size c)"

lemma flash_ready_facts:
  assumes "flash_ready c F s"
  shows "erase_size c = 64" "flash_base c = FB_V" "64 dvd length F" "length F \<le> 0x10000" "flash_size c \<noteq> 0"
  using assms by (auto simp: flash_ready_def chip_ok_def)

lemma read_flash_ok:
  assumes r: "flash_ready c F s" and n: "so + n \<le> length F"
  shows "\<exists>w. wl_dm_read_block (FB_V + of_nat so) n s = Some (Inr (take n (drop so F)), s\<lparr>world := w\<rparr>) \<and>
     flash_ready c F (s\<lparr>world := w\<rparr>) \<and> obs w = obs (world s)"
proof -
  have "holds (obs (world s)) (FB_V + of_nat so) (take n (drop so F))"
    unfolding holds_def
  proof (intro allI impI)
    fix i assume i: "i < length (take n (drop so F))"
    then have "so + i < length F" "so + i < 0x10000" using flash_ready_facts(4) [OF r] by auto
    with r i show "mem (obs (world s)) (FB_V + of_nat so + of_nat i) = Some (take n (drop so F) ! i)"
      using mem_flash [of "so + i" "obs (world s)"] by (simp add: flash_ready_def add.assoc)
  qed
  from read_block_ok [OF _ _ this, of n] r n show ?thesis
    by (auto simp: flash_ready_def)
qed

lemma patch_flash_ok:
  assumes r: "flash_ready c F s" and so: "so < length F" "so mod 64 + length bs \<le> 64" "bs \<noteq> []"
  shows "\<exists>s'. gdb_mem_patch c (FB_V + of_nat so) bs s = Some (Inr (), s') \<and>
     flash_ready c (write_at so bs F) s' \<and>
     v_rest (view (obs (world s'))) = v_rest (view (obs (world s)))"
proof -
  note f = flash_ready_facts [OF r]
  let ?a = "FB_V + of_nat so" and ?p = "64 * (so div 64)"
  have lt: "so < 0x10000" using so(1) f(4) by simp
  obtain q where q: "length F = 64 * q" using f(3) by (rule dvdE)
  then have "so div 64 < q" using so(1) by (simp add: less_mult_imp_div_less mult.commute)
  then have p: "?p + 64 \<le> length F" unfolding q by linarith
  have ua: "unat ?a = 0x08000000 + so" using lt by (intro unat_FB_V_plus) simp
  have isf: "gdb_addr_is_flash c ?a"
    using so(1) r f ua unfolding flash_ready_def
    by (simp add: gdb_addr_is_flash_def range_ok_unfold Let_def normalise_home [OF lt] word_le_nat_alt)
      (simp add: FB_V_def)
  have page: "?a AND NOT (0x40 - 1) = FB_V + of_nat ?p" using lt by (intro page_of_address) simp
  have diff: "unat (?a - (FB_V + of_nat ?p)) = so mod 64"
  proof -
    have "of_nat so = (of_nat ?p + of_nat (so mod 64) :: u32)"
      by (simp only: of_nat_add [symmetric] mult_div_mod_eq)
    then have "?a - (FB_V + of_nat ?p) = (of_nat (so mod 64) :: u32)"
      by (simp only: add.assoc [symmetric] add_diff_cancel_left')
    moreover have "so mod 64 < 0x10000" using lt by (simp add: le_less_trans [OF mod_less_eq_dividend])
    ultimately show ?thesis by (simp add: unat_of_nat)
  qed
  have norm: "gdb_normalise_flash c (FB_V + of_nat ?p) = FB_V + of_nat ?p"
    using normalise_home [of ?p c] lt p f(4) by (simp add: gdb_normalise_flash_def normalise_def)
  obtain w where w: "wl_dm_read_block (FB_V + of_nat ?p) 64 s = Some (Inr (take 64 (drop ?p F)), s\<lparr>world := w\<rparr>)"
    "flash_ready c F (s\<lparr>world := w\<rparr>)" "obs w = obs (world s)"
    using read_flash_ok [OF r p] by auto
  define img where "img = write_at (so mod 64) bs (take 64 (drop ?p F))"
  have len: "length img = 64" using p by (simp add: img_def)
  then have img: "length img = 64" "img \<noteq> []" by auto
  have range: "wl_flash_range_ok (Some c) (FB_V + of_nat ?p) (length img)"
  proof -
    have "unat (FB_V + of_nat ?p :: u32) = 0x08000000 + ?p" using lt p f(4) by (intro unat_FB_V_plus) simp
    moreover have "normalise c (FB_V + of_nat ?p) = FB_V + of_nat ?p"
      using p f(4) by (intro normalise_home) linarith
    ultimately show ?thesis using p r f unfolding flash_ready_def
      by (simp add: range_ok_unfold Let_def img word_le_nat_alt) (simp add: FB_V_def)
  qed
  obtain w' so' where w': "normalise c (FB_V + of_nat ?p) = FB_V + of_nat so'" "so' + length img \<le> length F"
    "wl_flash_write (Some c) (FB_V + of_nat ?p) (Some img) None (s\<lparr>world := w\<rparr>) =
       Some (Inr (), s\<lparr>world := w'\<rparr>)"
    "live w'" "calm (view (obs w'))" "v_flash (view (obs w')) = write_at so' img F"
    "v_rest (view (obs w')) = v_rest (view (obs w))"
    using flash_write_ok [of "s\<lparr>world := w\<rparr>" c F "FB_V + of_nat ?p" img None] w(2) range img
    unfolding flash_ready_def by auto
  have "so' = ?p"
  proof -
    have "FB_V + of_nat so' = FB_V + (of_nat ?p :: u32)" using w'(1) normalise_home [of ?p c] lt p f(4) by simp
    then have "unat (FB_V + of_nat so' :: u32) = unat (FB_V + (of_nat ?p :: u32))" by simp
    moreover have "unat (FB_V + of_nat so' :: u32) = 0x08000000 + so'"
      using w'(2) f(4) by (intro unat_FB_V_plus) simp
    moreover have "unat (FB_V + of_nat ?p :: u32) = 0x08000000 + ?p" using p f(4) by (intro unat_FB_V_plus) simp
    ultimately show ?thesis by linarith
  qed
  then have flash: "v_flash (view (obs w')) = write_at so bs F"
    using w'(6) write_at_slice [OF p so(2)] by (simp add: img_def)
  have "gdb_mem_patch c ?a bs s =
      wl_flash_write (Some c) (FB_V + of_nat ?p) (Some img) None (s\<lparr>world := w\<rparr>)"
    using isf f(1) page diff norm w(1) by (simp add: gdb_mem_patch_def Let_def andThen_def img_def)
  then have "gdb_mem_patch c ?a bs s = Some (Inr (), s\<lparr>world := w'\<rparr>)" using w'(3) by simp
  moreover have "flash_ready c (write_at so bs F) (s\<lparr>world := w'\<rparr>)"
    using r w' flash by (simp add: flash_ready_def calm_def)
  ultimately show ?thesis using w'(7) w(3) by (intro exI [of _ "s\<lparr>world := w'\<rparr>"]) simp
qed

lemma flash_room:
  fixes kind :: u32
  assumes r: "flash_ready c F s"
    and k: "kind = 2 \<or> kind = 4" "so mod unat kind = 0" "so < length F"
  shows "so + unat kind \<le> length F"
proof -
  have "so < 0x10000" using k(3) flash_ready_facts(4) [OF r] by simp
  note pa = patch_address(2) [OF k(1,2) this]
  obtain q where q: "length F = 64 * q" using flash_ready_facts(3) [OF r] by (rule dvdE)
  then have "so div 64 < q" using k(3) by (simp add: less_mult_imp_div_less mult.commute)
  moreover have "so = 64 * (so div 64) + so mod 64" by simp
  ultimately show ?thesis using pa unfolding q by linarith
qed

lemma insert_flash_ok:
  assumes r: "flash_ready c F (g_sess cn)" "g_chip cn = c"
    and k: "kind = 2 \<or> kind = 4" "so mod unat kind = 0" "so < length F"
    and i: "first_slot (\<lambda>b. \<not> bp_used b) (g_bps cn) = Some i" "length (bp_original (g_bps cn ! i)) = 4"
  shows "\<exists>s b. gdb_breakpoint_insert (FB_V + of_nat so) kind cn =
       Some (Inr True, cn\<lparr>g_sess := s, g_bps := (g_bps cn)[i := b]\<rparr>) \<and>
     flash_ready c (write_at so (take (unat kind) (replacement kind)) F) s \<and>
     v_rest (view (obs (world s))) = v_rest (view (obs (world (g_sess cn)))) \<and>
     bp_used b \<and> bp_address b = FB_V + of_nat so \<and> bp_kind b = kind \<and> length (bp_original b) = 4 \<and>
     take (unat kind) (bp_original b) = take (unat kind) (drop so F)"
proof -
  note f = flash_ready_facts [OF r(1)]
  let ?a = "FB_V + of_nat so" and ?n = "unat kind"
  have lt: "so < 0x10000" using k(3) f(4) by simp
  note pa = patch_address [OF k(1,2) lt]
  have n: "?n = 2 \<or> ?n = 4" using k(1) by auto
  have room: "so + ?n \<le> length F" by (rule flash_room [OF r(1) k])
  obtain w where w: "wl_dm_read_block ?a ?n (g_sess cn) = Some (Inr (take ?n (drop so F)), (g_sess cn)\<lparr>world := w\<rparr>)"
    "flash_ready c F ((g_sess cn)\<lparr>world := w\<rparr>)" "obs w = obs (world (g_sess cn))"
    using read_flash_ok [OF r(1) room] by auto
  have len: "length (take ?n (replacement kind)) = ?n" using k(1) by (auto simp: replacement_def)
  obtain s where s: "gdb_mem_patch c ?a (take ?n (replacement kind)) ((g_sess cn)\<lparr>world := w\<rparr>) = Some (Inr (), s)"
    "flash_ready c (write_at so (take ?n (replacement kind)) F) s"
    "v_rest (view (obs (world s))) = v_rest (view (obs w))"
    using patch_flash_ok [OF w(2) k(3), of "take ?n (replacement kind)"] pa(2) len n by fastforce
  let ?o = "write_at 0 (take ?n (drop so F)) (bp_original (g_bps cn ! i))"
  let ?b = "(g_bps cn ! i)\<lparr>bp_original := ?o, bp_used := True, bp_address := ?a, bp_kind := kind\<rparr>"
  have il: "i < length (g_bps cn)" using first_slot_Some [OF i(1)] by simp
  have go: "\<not> ((kind \<noteq> 2 \<and> kind \<noteq> 4) \<or> ?a mod kind \<noteq> 0)" using k(1) pa(1) by blast
  have "gdb_breakpoint_insert ?a kind cn = Some (Inr True, cn\<lparr>g_sess := s, g_bps := (g_bps cn)[i := ?b]\<rparr>)"
    using w(1) s(1) r(2) i(1) il unfolding gdb_breakpoint_insert_def if_not_P [OF go]
    by (simp add: andThen_def attempt_def on_link_def gdb_mem_read_def set_slot_def)
  moreover have "take ?n ?o = take ?n (drop so F)"
    using n i(2) room by (auto simp: write_at_def)
  ultimately show ?thesis using s w(3) i(2)
    by (intro exI [of _ s] exI [of _ ?b]) simp
qed

lemma remove_flash_ok:
  assumes r: "flash_ready c F (g_sess cn)" "g_chip cn = c"
    and k: "kind = 2 \<or> kind = 4" "so mod unat kind = 0" "so < length F"
    and i: "first_slot (\<lambda>b. bp_used b \<and> bp_address b = FB_V + of_nat so \<and> bp_kind b = kind) (g_bps cn) = Some i"
      "length (bp_original (g_bps cn ! i)) = 4"
  shows "\<exists>s. gdb_breakpoint_remove (FB_V + of_nat so) kind cn =
       Some (Inr True, cn\<lparr>g_sess := s, g_bps := (g_bps cn)[i := (g_bps cn ! i)\<lparr>bp_used := False\<rparr>]\<rparr>) \<and>
     flash_ready c (write_at so (take (unat kind) (bp_original (g_bps cn ! i))) F) s \<and>
     v_rest (view (obs (world s))) = v_rest (view (obs (world (g_sess cn))))"
proof -
  note f = flash_ready_facts [OF r(1)]
  let ?a = "FB_V + of_nat so" and ?b = "g_bps cn ! i"
  have b: "bp_kind ?b = kind" using first_slot_Some [OF i(1)] by simp
  have lt: "so < 0x10000" using k(3) f(4) by simp
  have "length (take (unat kind) (bp_original ?b)) = unat kind" "take (unat kind) (bp_original ?b) \<noteq> []"
    using k(1) i(2) by auto
  then obtain s where s: "gdb_mem_patch c ?a (take (unat kind) (bp_original ?b)) (g_sess cn) = Some (Inr (), s)"
    "flash_ready c (write_at so (take (unat kind) (bp_original ?b)) F) s"
    "v_rest (view (obs (world s))) = v_rest (view (obs (world (g_sess cn))))"
    using patch_flash_ok [OF r(1) k(3), of "take (unat kind) (bp_original ?b)"] patch_address(2) [OF k(1,2) lt]
    by auto
  then show ?thesis using b i(1) r(2)
    by (intro exI [of _ s])
      (simp add: gdb_breakpoint_remove_def andThen_def attempt_def on_link_def set_slot_def)
qed

end

section \<open>Breakpoints on the simulated target\<close>

text \<open>A connection to a new simulator whose interface has been set, with any flash content.\<close>

definition sim_conn :: "wl_chip_t \<Rightarrow> wl_sim \<Rightarrow> recv_event list \<Rightarrow> (unit, wl_sim) gdb_conn" where
  "sim_conn c w inp =
     \<lparr>g_sess = sim_session w, g_chip = c, g_quit = False,
      g_bps = replicate GDB_MAX_BREAKPOINTS no_breakpoint, g_in = inp, g_sends = [], g_polls = [], g_out = []\<rparr>"

lemma sim_conn_ready:
  assumes "c \<in> set chips" "algo c = WL_FLASH_CH32V0" "wl_sim_new (Some c) = Some w"
    and "length F = unat (flash_size c)"
  shows "sim_flash.flash_ready c F (g_sess (sim_conn c (w\<lparr>s_configured := True, s_flash := F\<rparr>) inp))"
proof -
  have ok: "chip_ok c" using assms by (simp add: chip_okD)
  have "sim_idle (w\<lparr>s_configured := True, s_flash := F\<rparr>)"
    using new_sim [OF assms(3)] assms ok by (simp add: sim_idle_def buf64_def chip_ok_def)
  moreover have "calm ((sim_view (observed (w\<lparr>s_configured := True, s_flash := F\<rparr>)))\<lparr>v_open := True\<rparr>)"
    using new_sim [OF assms(3)] by (simp add: calm_def sim_view_def FLASH_POLL_LIMIT_def)
  ultimately show ?thesis using assms ok
    by (simp add: sim_flash.flash_ready_def sim_conn_def sim_target.live_def sim_view_def)
qed

lemma ready_flash: "sim_flash.flash_ready c F s \<Longrightarrow> s_flash (world s) = F"
  by (simp add: sim_flash.flash_ready_def sim_view_def)

lemma same_rest:
  "v_rest (sim_view (observed a)) = v_rest (sim_view (observed b)) \<Longrightarrow> s_ram a = s_ram b \<and> s_resets a = s_resets b"
  by (simp add: sim_view_def)

lemma replacement_length [simp]: "kind = 2 \<or> kind = 4 \<Longrightarrow> length (take (unat kind) (replacement kind)) = unat kind"
  by (auto simp: replacement_def)

lemma write_at_same: "so + n \<le> length F \<Longrightarrow> write_at so (take n (drop so F)) F = F"
  by (intro nth_equalityI) (auto simp: nth_write_at)

lemma slots: "[0..<8] = [0, 1, 2, 3, 4, 5, 6, 7 :: nat]"
  by (simp add: upt_rec)

lemma insert_then:
  fixes cn :: "(unit, wl_sim) gdb_conn"
  assumes r: "sim_flash.flash_ready c F (g_sess cn)" "g_chip cn = c"
    and k: "kind = 2 \<or> kind = 4" "so mod unat kind = 0" "so < length F"
    and i: "first_slot (\<lambda>b. \<not> bp_used b) (g_bps cn) = Some i" "length (bp_original (g_bps cn ! i)) = 4"
  obtains c1 b where "gdb_breakpoint_insert (FB_V + of_nat so) kind cn = Some (Inr True, c1)"
    "sim_flash.flash_ready c (write_at so (take (unat kind) (replacement kind)) F) (g_sess c1)" "g_chip c1 = c"
    "g_bps c1 = (g_bps cn)[i := b]" "bp_used b" "bp_address b = FB_V + of_nat so" "bp_kind b = kind"
    "length (bp_original b) = 4" "take (unat kind) (bp_original b) = take (unat kind) (drop so F)"
    "s_ram (world (g_sess c1)) = s_ram (world (g_sess cn))"
proof -
  obtain s b where s: "gdb_breakpoint_insert (FB_V + of_nat so) kind cn =
      Some (Inr True, cn\<lparr>g_sess := s, g_bps := (g_bps cn)[i := b]\<rparr>)"
    "sim_flash.flash_ready c (write_at so (take (unat kind) (replacement kind)) F) s"
    "v_rest (sim_view (observed (world s))) = v_rest (sim_view (observed (world (g_sess cn))))"
    "bp_used b" "bp_address b = FB_V + of_nat so" "bp_kind b = kind" "length (bp_original b) = 4"
    "take (unat kind) (bp_original b) = take (unat kind) (drop so F)"
    using sim_flash.insert_flash_ok [OF r k i] by blast
  show ?thesis by (rule that [OF s(1) _ _ _ s(4-8)]) (use s(2) same_rest [OF s(3)] r(2) in simp_all)
qed

lemma remove_then:
  fixes cn :: "(unit, wl_sim) gdb_conn"
  assumes r: "sim_flash.flash_ready c F (g_sess cn)" "g_chip cn = c"
    and k: "kind = 2 \<or> kind = 4" "so mod unat kind = 0" "so < length F"
    and i: "first_slot (\<lambda>b. bp_used b \<and> bp_address b = FB_V + of_nat so \<and> bp_kind b = kind) (g_bps cn) = Some i"
      "length (bp_original (g_bps cn ! i)) = 4"
  obtains c1 where "gdb_breakpoint_remove (FB_V + of_nat so) kind cn = Some (Inr True, c1)"
    "sim_flash.flash_ready c (write_at so (take (unat kind) (bp_original (g_bps cn ! i))) F) (g_sess c1)"
    "g_chip c1 = c" "g_bps c1 = (g_bps cn)[i := (g_bps cn ! i)\<lparr>bp_used := False\<rparr>]"
    "s_ram (world (g_sess c1)) = s_ram (world (g_sess cn))"
proof -
  obtain s where s: "gdb_breakpoint_remove (FB_V + of_nat so) kind cn =
      Some (Inr True, cn\<lparr>g_sess := s, g_bps := (g_bps cn)[i := (g_bps cn ! i)\<lparr>bp_used := False\<rparr>]\<rparr>)"
    "sim_flash.flash_ready c (write_at so (take (unat kind) (bp_original (g_bps cn ! i))) F) s"
    "v_rest (sim_view (observed (world s))) = v_rest (sim_view (observed (world (g_sess cn))))"
    using sim_flash.remove_flash_ok [OF r k i] by blast
  show ?thesis by (rule that [OF s(1)]) (use s(2) same_rest [OF s(3)] r(2) in simp_all)
qed

theorem breakpoint_roundtrip:
  assumes c: "c \<in> set chips" "algo c = WL_FLASH_CH32V0" "wl_sim_new (Some c) = Some w"
    and F: "length F = unat (flash_size c)" "so < length F"
    and k: "kind = 2 \<or> kind = 4" "so mod unat kind = 0"
  shows "\<exists>c1 c2.
     gdb_breakpoint_insert (FB_V + of_nat so) kind (sim_conn c (w\<lparr>s_configured := True, s_flash := F\<rparr>) inp) =
       Some (Inr True, c1) \<and>
     s_flash (world (g_sess c1)) = write_at so (take (unat kind) (replacement kind)) F \<and>
     gdb_breakpoint_remove (FB_V + of_nat so) kind c1 = Some (Inr True, c2) \<and>
     s_flash (world (g_sess c2)) = F \<and> s_ram (world (g_sess c2)) = s_ram w \<and>
     (\<forall>b \<in> set (g_bps c2). \<not> bp_used b)"
proof -
  let ?cn = "sim_conn c (w\<lparr>s_configured := True, s_flash := F\<rparr>) inp"
  have chip: "g_chip ?cn = c" and bps: "g_bps ?cn = replicate 8 no_breakpoint" and ram: "s_ram (world (g_sess ?cn)) = s_ram w"
    by (simp_all add: sim_conn_def GDB_MAX_BREAKPOINTS_def)
  have i: "first_slot (\<lambda>b. \<not> bp_used b) (g_bps ?cn) = Some 0" "length (bp_original (g_bps ?cn ! 0)) = 4"
    unfolding bps by (simp_all add: numeral_eq_Suc no_breakpoint_def)
  obtain c1 b where c1: "gdb_breakpoint_insert (FB_V + of_nat so) kind ?cn = Some (Inr True, c1)"
    "sim_flash.flash_ready c (write_at so (take (unat kind) (replacement kind)) F) (g_sess c1)" "g_chip c1 = c"
    "g_bps c1 = (g_bps ?cn)[0 := b]" "bp_used b" "bp_address b = FB_V + of_nat so" "bp_kind b = kind"
    "length (bp_original b) = 4" "take (unat kind) (bp_original b) = take (unat kind) (drop so F)"
    "s_ram (world (g_sess c1)) = s_ram (world (g_sess ?cn))"
    by (rule insert_then [OF sim_conn_ready [OF c F(1)] chip k F(2) i])
  have bps1: "g_bps c1 = b # replicate 7 no_breakpoint"
    unfolding c1(4) bps by (simp add: numeral_eq_Suc)
  have i1: "first_slot (\<lambda>b. bp_used b \<and> bp_address b = FB_V + of_nat so \<and> bp_kind b = kind) (g_bps c1) = Some 0"
    "length (bp_original (g_bps c1 ! 0)) = 4"
    unfolding bps1 using c1(5-8) by simp_all
  have so: "so < length (write_at so (take (unat kind) (replacement kind)) F)" using F(2) by simp
  obtain c2 where c2: "gdb_breakpoint_remove (FB_V + of_nat so) kind c1 = Some (Inr True, c2)"
    "sim_flash.flash_ready c (write_at so (take (unat kind) (bp_original (g_bps c1 ! 0)))
       (write_at so (take (unat kind) (replacement kind)) F)) (g_sess c2)"
    "g_bps c2 = (g_bps c1)[0 := (g_bps c1 ! 0)\<lparr>bp_used := False\<rparr>]"
    "s_ram (world (g_sess c2)) = s_ram (world (g_sess c1))"
    using remove_then [OF c1(2,3) k so i1] by metis
  have room: "so + unat kind \<le> length F"
    using sim_flash.flash_room [OF sim_conn_ready [OF c F(1)] k F(2)] .
  then have "write_at so (take (unat kind) (drop so F)) (write_at so (take (unat kind) (replacement kind)) F) =
      write_at so (take (unat kind) (drop so F)) F"
    by (intro write_at_twice) (simp add: replacement_length [OF k(1)] del: length_take, simp)
  then have "write_at so (take (unat kind) (bp_original (g_bps c1 ! 0)))
       (write_at so (take (unat kind) (replacement kind)) F) = F"
    using c1(9) write_at_same [OF room] by (simp add: bps1)
  with c1(1,2,10) c2 ram ready_flash show ?thesis
    by (intro exI [of _ c1] exI [of _ c2]) (auto simp: bps1 no_breakpoint_def)
qed

theorem breakpoint_roundtrip_witness:
  "\<exists>c1 c2. gdb_breakpoint_insert (FB_V + of_nat 0x10) 2
       (sim_conn (hd chips) (v003_sim\<lparr>s_configured := True, s_flash := replicate 0x4000 0x13\<rparr>) []) = Some (Inr True, c1) \<and>
     gdb_breakpoint_remove (FB_V + of_nat 0x10) 2 c1 = Some (Inr True, c2) \<and>
     s_flash (world (g_sess c2)) = replicate 0x4000 0x13"
  using breakpoint_roundtrip [OF v003(1,2) v003_new, of "replicate 0x4000 0x13" "0x10" 2 "[]"]
  by (auto simp: v003)

text \<open>C30: a breakpoint inserted twice at the same place of flash takes two slots, and the second
  one has saved the trap: removing both reports success both times, frees the slots and
  leaves the trap instruction in flash.\<close>

theorem double_insert_leaves_trap:
  assumes c: "c \<in> set chips" "algo c = WL_FLASH_CH32V0" "wl_sim_new (Some c) = Some w"
    and F: "length F = unat (flash_size c)" "so < length F"
    and k: "kind = 2 \<or> kind = 4" "so mod unat kind = 0"
  shows "\<exists>c1 c2 c3 c4.
     gdb_breakpoint_insert (FB_V + of_nat so) kind (sim_conn c (w\<lparr>s_configured := True, s_flash := F\<rparr>) inp) =
       Some (Inr True, c1) \<and>
     gdb_breakpoint_insert (FB_V + of_nat so) kind c1 = Some (Inr True, c2) \<and>
     gdb_breakpoint_remove (FB_V + of_nat so) kind c2 = Some (Inr True, c3) \<and>
     gdb_breakpoint_remove (FB_V + of_nat so) kind c3 = Some (Inr True, c4) \<and>
     (\<forall>b \<in> set (g_bps c4). \<not> bp_used b) \<and>
     s_flash (world (g_sess c4)) = write_at so (take (unat kind) (replacement kind)) F"
proof -
  let ?cn = "sim_conn c (w\<lparr>s_configured := True, s_flash := F\<rparr>) inp"
  let ?a = "FB_V + of_nat so" and ?n = "unat kind" and ?R = "take (unat kind) (replacement kind)"
  let ?F = "write_at so ?R F"
  let ?hit = "\<lambda>b. bp_used b \<and> bp_address b = FB_V + of_nat so \<and> bp_kind b = kind"
  have chip: "g_chip ?cn = c" and bps: "g_bps ?cn = replicate 8 no_breakpoint"
    by (simp_all add: sim_conn_def GDB_MAX_BREAKPOINTS_def)
  have i: "first_slot (\<lambda>b. \<not> bp_used b) (g_bps ?cn) = Some 0" "length (bp_original (g_bps ?cn ! 0)) = 4"
    unfolding bps by (simp_all add: numeral_eq_Suc no_breakpoint_def)
  have room: "so + ?n \<le> length F"
    using sim_flash.flash_room [OF sim_conn_ready [OF c F(1)] k F(2)] .
  have so: "so < length (write_at so X F)" for X using F(2) by simp
  have lenR: "length ?R = ?n" by (rule replacement_length [OF k(1)])
  have twice: "write_at so X (write_at so ?R F) = write_at so X F" if "length X = ?n" for X
    by (rule write_at_twice) (simp only: that lenR)
  obtain c1 b where c1: "gdb_breakpoint_insert ?a kind ?cn = Some (Inr True, c1)"
    "sim_flash.flash_ready c ?F (g_sess c1)" "g_chip c1 = c" "g_bps c1 = (g_bps ?cn)[0 := b]"
    "bp_used b" "bp_address b = ?a" "bp_kind b = kind" "length (bp_original b) = 4"
    "take ?n (bp_original b) = take ?n (drop so F)"
    using insert_then [OF sim_conn_ready [OF c F(1)] chip k F(2) i] by metis
  have bps1: "g_bps c1 = b # replicate 7 no_breakpoint"
    unfolding c1(4) bps by (simp add: numeral_eq_Suc)
  have i1: "first_slot (\<lambda>b. \<not> bp_used b) (g_bps c1) = Some 1" "length (bp_original (g_bps c1 ! 1)) = 4"
    unfolding bps1 using c1(5) by (simp_all add: numeral_eq_Suc no_breakpoint_def)
  obtain c2 d where c2: "gdb_breakpoint_insert ?a kind c1 = Some (Inr True, c2)"
    "sim_flash.flash_ready c (write_at so ?R ?F) (g_sess c2)" "g_chip c2 = c" "g_bps c2 = (g_bps c1)[1 := d]"
    "bp_used d" "bp_address d = ?a" "bp_kind d = kind" "length (bp_original d) = 4"
    "take ?n (bp_original d) = take ?n (drop so ?F)"
    using insert_then [OF c1(2,3) k so i1] by metis
  have bps2: "g_bps c2 = b # d # replicate 6 no_breakpoint"
    unfolding c2(4) bps1 by (simp add: numeral_eq_Suc)
  have d: "take ?n (bp_original d) = ?R"
    using take_drop_write_at [of so ?R F] room unfolding c2(9) by (simp only: lenR)
  have r2: "sim_flash.flash_ready c ?F (g_sess c2)" using c2(2) twice [OF lenR] by simp
  have i2: "first_slot ?hit (g_bps c2) = Some 0" "length (bp_original (g_bps c2 ! 0)) = 4"
    unfolding bps2 using c1(5-8) by simp_all
  obtain c3 where c3: "gdb_breakpoint_remove ?a kind c2 = Some (Inr True, c3)"
    "sim_flash.flash_ready c (write_at so (take ?n (bp_original (g_bps c2 ! 0))) ?F) (g_sess c3)"
    "g_chip c3 = c" "g_bps c3 = (g_bps c2)[0 := (g_bps c2 ! 0)\<lparr>bp_used := False\<rparr>]"
    using remove_then [OF r2 c2(3) k so i2] by metis
  have bps3: "g_bps c3 = b\<lparr>bp_used := False\<rparr> # d # replicate 6 no_breakpoint"
    unfolding c3(4) bps2 by simp
  have "length (take ?n (drop so F)) = ?n" using room by simp
  from twice [OF this] write_at_same [OF room] c1(9) c3(2)
  have r3: "sim_flash.flash_ready c F (g_sess c3)" by (simp add: bps2)
  have i3: "first_slot ?hit (g_bps c3) = Some 1" "length (bp_original (g_bps c3 ! 1)) = 4"
    unfolding bps3 using c2(5-8) by simp_all
  obtain c4 where c4: "gdb_breakpoint_remove ?a kind c3 = Some (Inr True, c4)"
    "sim_flash.flash_ready c (write_at so (take ?n (bp_original (g_bps c3 ! 1))) F) (g_sess c4)"
    "g_bps c4 = (g_bps c3)[1 := (g_bps c3 ! 1)\<lparr>bp_used := False\<rparr>]"
    using remove_then [OF r3 c3(3) k F(2) i3] by metis
  have "s_flash (world (g_sess c4)) = ?F" using ready_flash [OF c4(2)] d by (simp add: bps3)
  moreover have "\<forall>b \<in> set (g_bps c4). \<not> bp_used b"
    unfolding c4(3) bps3 by (simp add: no_breakpoint_def)
  ultimately show ?thesis using c1(1) c2(1) c3(1) c4(1) by blast
qed

theorem double_insert_leaves_trap_witness:
  "\<exists>c1 c2 c3 c4.
     gdb_breakpoint_insert (FB_V + of_nat 0x10) 2
       (sim_conn (hd chips) (v003_sim\<lparr>s_configured := True, s_flash := replicate 0x4000 0x13\<rparr>) []) = Some (Inr True, c1) \<and>
     gdb_breakpoint_insert (FB_V + of_nat 0x10) 2 c1 = Some (Inr True, c2) \<and>
     gdb_breakpoint_remove (FB_V + of_nat 0x10) 2 c2 = Some (Inr True, c3) \<and>
     gdb_breakpoint_remove (FB_V + of_nat 0x10) 2 c3 = Some (Inr True, c4) \<and>
     s_flash (world (g_sess c4)) ! 0x10 = 0x02"
proof -
  have "write_at 0x10 [0x02, 0x90] (replicate 0x4000 0x13) ! 0x10 = (0x02 :: u8)"
    by (simp add: nth_write_at)
  then show ?thesis
    using double_insert_leaves_trap [OF v003(1,2) v003_new, of "replicate 0x4000 0x13" "0x10" 2 "[]"]
    by (auto simp: v003 replacement_def)
qed

section \<open>Patches stay inside the page they rewrite\<close>

lemma v003_erase: "erase_size (hd chips) = 64"
  by (simp add: chips_def chip_table chip_row)

lemma page_offset: "unat ((a :: u32) - (a AND NOT (0x40 - 1))) = unat a mod 64"
proof -
  have m: "(0x40 - 1 :: u32) = mask 6" by (simp add: mask_eq_exp_minus_1)
  have "a AND NOT (mask 6) = a AND NOT (a AND mask 6)" by (rule bit_word_eqI) (auto simp: bit_simps)
  also have "\<dots> = a - (a AND mask 6)"
    by (rule disjunctive_diff_eq_and_not [symmetric]) (rule bit_word_eqI, auto simp: bit_simps)
  finally have "a - (a AND NOT (mask 6)) = a AND mask 6" by simp
  then show ?thesis unfolding m by (simp add: and_mask_unat)
qed

lemma normalise_page:
  "normalise c (a AND NOT (0x40 - 1)) = normalise c a AND NOT (0x40 - 1)"
proof -
  have hi: "(a AND NOT (0x40 - 1)) AND 0xff000000 = a AND 0xff000000"
    by (simp add: and.assoc)
  have "(a OR 0x08000000) AND NOT (0x40 - 1) = (a AND NOT (0x40 - 1)) OR 0x08000000"
    by (simp add: bit.conj_disj_distrib2)
  with hi show ?thesis by (simp add: normalise_def)
qed

lemma below_page:
  assumes "k = 2 \<or> k = (4 :: nat)" "x mod k = 0"
  shows "x mod 64 + k \<le> 64"
  using assms(1)
proof
  assume "k = 2"
  then have "x mod 64 mod 2 = 0" using assms(2) by (simp add: mod_mod_cancel)
  then show ?thesis using \<open>k = 2\<close> by simp presburger
next
  assume "k = 4"
  then have "x mod 64 mod 4 = 0" using assms(2) by (simp add: mod_mod_cancel)
  then show ?thesis using \<open>k = 4\<close> by simp presburger
qed

lemma page_below:
  "unat (a :: u32) = unat (a AND NOT (0x40 - 1)) + unat a mod 64" "64 dvd unat (a AND NOT (0x40 - 1))"
proof -
  let ?p = "a AND NOT (0x40 - 1)"
  have le: "?p \<le> a" by (simp add: word_and_le2)
  have "unat (a - ?p) = unat a - unat ?p" using le by (simp add: unat_sub)
  then have "unat a - unat ?p = unat a mod 64" by (simp only: page_offset)
  moreover have "unat ?p \<le> unat a" using le by (simp only: word_le_nat_alt)
  ultimately show s: "unat a = unat ?p + unat a mod 64" by linarith
  then have "unat ?p = 64 * (unat a div 64)" by (simp only: minus_mod_eq_mult_div [symmetric])
  then show "64 dvd unat ?p" by (simp only: dvd_triv_left)
qed

text \<open>A block that has been read has the length asked for.\<close>

lemma andThen_result:
  "andThen m f s = Some (Inr y, s') \<Longrightarrow> \<exists>x t. m s = Some (Inr x, t) \<and> f x t = Some (Inr y, s')"
  by (auto simp: andThen_def split: option.splits sum.splits)

lemma read_head_length:
  "read_head n a out s = Some (Inr (a', n', out'), s') \<Longrightarrow> length out' + n' = length out + n"
  by (induction n arbitrary: a out s) (auto simp: andThen_def split: if_splits option.splits sum.splits)

lemma read_words_length:
  "read_words n a out s = Some (Inr (a', n', out'), s') \<Longrightarrow> length out' + n' = length out + n"
proof (induction n a out arbitrary: s rule: read_words.induct)
  case (1 n a out)
  show ?case
  proof (cases "4 \<le> n")
    case False
    then show ?thesis using "1.prems" by (simp add: read_words.simps)
  next
    case True
    from "1.prems" True have "andThen (wl_dm_read32 a) (\<lambda>x. read_words (n - 4) (a + 4)
        (out @ map (\<lambda>i. ucast (drop_bit (8 * i) x AND 0xff)) [0, 1, 2, 3])) s = Some (Inr (a', n', out'), s')"
      by (simp only: read_words.simps [of n] if_True)
    from andThen_result [OF this] obtain x :: u32 and t where "read_words (n - 4) (a + 4)
        (out @ map (\<lambda>i. ucast (drop_bit (8 * i) x AND 0xff)) [0, 1, 2, 3]) t = Some (Inr (a', n', out'), s')"
      by blast
    from "1.IH" [OF True this] show ?thesis using True by simp
  qed
qed

lemma read_tail_length:
  "read_tail n a out s = Some (Inr out', s') \<Longrightarrow> length out' = length out + n"
  by (induction n arbitrary: a out s) (auto simp: andThen_def split: option.splits sum.splits)

lemma read_block_length: "wl_dm_read_block a n s = Some (Inr bs, s') \<Longrightarrow> length bs = n"
  by (auto simp: wl_dm_read_block_def andThen_def split: option.splits sum.splits
      dest!: read_head_length read_words_length read_tail_length)

text \<open>C27: a patch of two or four aligned bytes in flash reads one whole 64-byte page, copies the
  bytes into it without passing its end, and writes exactly that page back, at its home
  address inside the part's flash, whatever the link answers; insertion of a breakpoint of
  another size or at a place that is not aligned is refused without touching anything.\<close>

theorem patch_inside_page:
  assumes c: "c \<in> set chips" "algo c = WL_FLASH_CH32V0" and a: "gdb_addr_is_flash c a"
    and k: "length bs = 2 \<or> length bs = 4" "unat a mod length bs = 0"
  shows "(\<exists>page off.
     unat a = unat page + off \<and> 64 dvd unat page \<and> off + length bs \<le> 64 \<and>
     unat (flash_base c) \<le> unat (gdb_normalise_flash c page) \<and>
     unat (gdb_normalise_flash c page) + 64 \<le> unat (flash_base c) + unat (flash_size c) \<and>
     gdb_mem_patch c a bs s =
       andThen (wl_dm_read_block page 64) (\<lambda>old.
         wl_flash_write (Some c) (gdb_normalise_flash c page)
           (Some (take off old @ bs @ drop (off + length bs) old)) None) s) \<and>
     (kind \<noteq> 2 \<and> kind \<noteq> 4 \<or> b mod kind \<noteq> 0 \<longrightarrow> gdb_breakpoint_insert b kind cn = Some (Inr False, cn))"
proof -
  have ok: "erase_size c = 64" "flash_base c = FB_V" "64 dvd unat (flash_size c)"
    "unat (flash_size c) \<le> 0x10000" "flash_size c \<noteq> 0"
    using chip_okD [OF c(1)] c(2) by (auto simp: chip_ok_def)
  let ?page = "a AND NOT (0x40 - 1)" and ?off = "unat a mod 64"
  have inside: "?off + length bs \<le> 64" using k by (intro below_page)
  have page: "unat a = unat ?page + ?off" "64 dvd unat ?page"
    by (rule page_below)+
  have "wl_flash_range_ok (Some c) a 1" using a by (simp only: gdb_addr_is_flash_def)
  then obtain so where so1: "normalise c a = FB_V + of_nat so" "so + 1 \<le> unat (flash_size c)"
    by (rule normalise_FB_V [OF ok(2) _ ok(4)])
  then have so: "normalise c a = FB_V + of_nat so" "so < unat (flash_size c)" by simp_all
  obtain q where q: "unat (flash_size c) = 64 * q" using ok(3) by (rule dvdE)
  have "so div 64 < q" using so(2) q by (simp add: less_mult_imp_div_less mult.commute)
  then have p: "64 * (so div 64) + 64 \<le> unat (flash_size c)" unfolding q by linarith
  have n: "gdb_normalise_flash c ?page = FB_V + of_nat (64 * (so div 64))"
  proof -
    have g: "gdb_normalise_flash c x = normalise c x" for x
      by (simp only: gdb_normalise_flash_def normalise_def)
    show ?thesis unfolding g normalise_page so(1) using so(2) ok(4) by (intro page_of_address) linarith
  qed
  have u: "unat (gdb_normalise_flash c ?page) = 0x08000000 + 64 * (so div 64)"
    unfolding n using p ok(4) by (intro unat_FB_V_plus) linarith
  have fb: "unat FB_V = 0x08000000" by (simp add: FB_V_def)
  have patch: "gdb_mem_patch c a bs s =
       andThen (wl_dm_read_block ?page 64) (\<lambda>old. wl_flash_write (Some c) (gdb_normalise_flash c ?page)
           (Some (take ?off old @ bs @ drop (?off + length bs) old)) None) s"
  proof -
    have "write_at ?off bs old = take ?off old @ bs @ drop (?off + length bs) old" if "length old = 64" for old
      using inside that by (simp add: write_at_def)
    then have "andThen (wl_dm_read_block ?page 64) (\<lambda>old. wl_flash_write (Some c) (gdb_normalise_flash c ?page)
           (Some (write_at ?off bs old)) None) s =
       andThen (wl_dm_read_block ?page 64) (\<lambda>old. wl_flash_write (Some c) (gdb_normalise_flash c ?page)
           (Some (take ?off old @ bs @ drop (?off + length bs) old)) None) s"
      by (auto simp: andThen_def dest: read_block_length split: option.split sum.split)
    moreover have "gdb_mem_patch c a bs s =
       andThen (wl_dm_read_block ?page 64) (\<lambda>old. wl_flash_write (Some c) (gdb_normalise_flash c ?page)
           (Some (write_at ?off bs old)) None) s"
      using a unfolding gdb_mem_patch_def ok(1) Let_def page_offset by simp
    ultimately show ?thesis by simp
  qed
  have "kind \<noteq> 2 \<and> kind \<noteq> 4 \<or> b mod kind \<noteq> 0 \<longrightarrow> gdb_breakpoint_insert b kind cn = Some (Inr False, cn)"
    by (auto simp: gdb_breakpoint_insert_def)
  moreover have "unat (flash_base c) \<le> unat (gdb_normalise_flash c ?page)"
    "unat (gdb_normalise_flash c ?page) + 64 \<le> unat (flash_base c) + unat (flash_size c)"
    unfolding u ok(2) fb using p by linarith+
  ultimately show ?thesis using inside page patch by blast
qed

theorem patch_inside_page_witness:
  "\<exists>page off. unat (0x3ffe :: u32) = unat page + off \<and> off + 2 \<le> 64 \<and>
     gdb_mem_patch (hd chips) 0x3ffe [0x02, 0x90] (sim_session v003_set) =
       andThen (wl_dm_read_block page 64) (\<lambda>old.
         wl_flash_write (Some (hd chips)) (gdb_normalise_flash (hd chips) page)
           (Some (take off old @ [0x02, 0x90] @ drop (off + 2) old)) None) (sim_session v003_set)"
proof -
  have a: "gdb_addr_is_flash (hd chips) 0x3ffe"
    by (simp add: gdb_addr_is_flash_def range_ok_unfold normalise_def v003 FB_V_def word_le_nat_alt)
  have l: "length [0x02 :: u8, 0x90] = 2" by simp
  have m: "unat (0x3ffe :: u32) mod length [0x02 :: u8, 0x90] = 0" unfolding l by simp
  note patch = conjunct1 [OF patch_inside_page [OF v003(1,2) a disjI1 [OF l] m, of "sim_session v003_set" 0 0 "sim_conn (hd chips) v003_set []"]]
  from patch [unfolded l] show ?thesis by blast
qed

end
