(* ===== verification/GdbWire.thy ===== *)
theory GdbWire
  imports GdbProps
begin

text \<open>
  Whole packets, from the characters that arrive to the characters that are sent: register and
  memory packets of a client that acknowledges every answer, on the simulated target.
\<close>

section \<open>Texts of numbers\<close>

lemma hex_separators [simp]:
  "hex_nibble (CHR '','') = None" "hex_nibble (CHR ''='') = None" "hex_nibble (CHR '':'') = None"
  "hex_nibble (CHR 0x00) = None"
  by (simp_all add: hex_nibble_def)

lemma hex_str_chars: "c \<in> set (hex_str n) \<Longrightarrow> hex_nibble c \<noteq> None"
proof (induction n rule: hex_str.induct)
  case (1 n)
  show ?case
  proof (cases "n < 16")
    case True
    then show ?thesis using "1.prems" by (simp add: hex_str.simps [of n])
  next
    case False
    then have "c \<in> set (hex_str (n div 16)) \<or> c = digit_char (n mod 16)"
      using "1.prems" by (auto simp: hex_str.simps [of n])
    then show ?thesis using "1.IH" [OF False] by auto
  qed
qed

lemma hex8_chars: "c \<in> set (hex8 v) \<Longrightarrow> hex_nibble c \<noteq> None"
proof -
  have "hex_nibble (CHR ''0'') \<noteq> None" by (simp add: hex_nibble_def)
  then show "c \<in> set (hex8 v) \<Longrightarrow> hex_nibble c \<noteq> None"
    by (auto simp: hex8_def pad_left_def dest: hex_str_chars split: if_splits)
qed

lemma cstr_text: "CHR 0x00 \<notin> set t \<Longrightarrow> cstr (t @ CHR 0x00 # junk) = t"
  unfolding cstr_def by (simp add: takeWhile_tail) (metis takeWhile_eq_all_conv)

lemma pad_none [simp]: "pad_left c 0 s = s"
  by (simp add: pad_left_def)

lemma number_hex: "number (hex_str n) = Some (of_nat n)"
  using parse_hex_number [of "[]" 0 n] by (simp add: number_def)

lemma number_hex8: "number (hex8 v) = Some v"
  using parse_hex_number [of "[]" 8 "unat v"] by (simp add: number_def hex8_def)

lemma number_then_hex: "hex_nibble x = None \<Longrightarrow> number_then x (hex_str n @ x # rest) = Some (of_nat n, rest)"
  using parse_hex_number [of "x # rest" 0 n] by (simp add: number_then_def)

lemma number_before: "hex_nibble x = None \<Longrightarrow> number (hex_str n @ x # rest) = Some (of_nat n)"
  using parse_hex_number [of "x # rest" 0 n] by (simp add: number_def)

lemma no_char_in_hex: "hex_nibble x = None \<Longrightarrow> x \<notin> set (hex_str n)"
  using hex_str_chars by blast

lemma no_char_in_hex8: "hex_nibble x = None \<Longrightarrow> x \<notin> set (hex8 n)"
  using hex8_chars by blast

lemma strchr_first: "x \<notin> set a \<Longrightarrow> strchr x (a @ x # b) = Some (x # b)"
  by (induction a) auto

lemma strchr_none: "x \<notin> set a \<Longrightarrow> strchr x a = None"
  by (induction a) auto

section \<open>A client that acknowledges\<close>

lemma send_acked:
  assumes "g_sends c = []" "g_in c = Arrived (CHR ''+'') # es"
  shows "gdb_send_text t c = Some (Inr (), c\<lparr>g_in := es, g_out := g_out c @ framed t\<rparr>)"
    and "gdb_send_packet t c = Some (Inr (), c\<lparr>g_in := es, g_out := g_out c @ framed t\<rparr>)"
  using assms
  by (cases c; simp add: gdb_send_text_def gdb_send_packet_def await_ack.simps)+

section \<open>Register packets\<close>

text \<open>C29: a P packet takes its value as a big-endian number and sets that register and no other,
  while the p packet that reads it back answers with the bytes in little-endian order.\<close>

theorem register_packets:
  fixes r :: nat
  assumes "s_configured w" "s_cmderr w = 0" "0 < r" "r < 16"
  shows "\<exists>c1 c2.
     gdb_handle_packet (''P'' @ hex_str r @ ''='' @ hex8 v @ CHR 0x00 # junk1)
       (sim_conn c w (Arrived (CHR ''+'') # Arrived (CHR ''+'') # es)) = Some (Inr True, c1) \<and>
     gdb_handle_packet (''p'' @ hex_str r @ CHR 0x00 # junk2) c1 = Some (Inr True, c2) \<and>
     g_out c2 = framed ''OK'' @ framed (format_hex_u32_le v) \<and>
     (\<forall>q. q \<noteq> r \<longrightarrow> s_gpr (world (g_sess c2)) q = s_gpr w q) \<and>
     observed (world (g_sess c2)) = observed w"
proof -
  let ?cn = "sim_conn c w (Arrived (CHR ''+'') # Arrived (CHR ''+'') # es)"
  let ?P = "''P'' @ hex_str r @ ''='' @ hex8 v @ CHR 0x00 # junk1"
  let ?p = "''p'' @ hex_str r @ CHR 0x00 # junk2"
  have u: "unat (of_nat r :: u32) = r" using assms(4) by (simp add: unat_of_nat)
  have le: "(of_nat r :: u32) \<le> 31" using u assms(4) by (simp add: word_le_nat_alt)
  have nz: "(of_nat r :: u32) \<noteq> 0" using u assms(3) by auto
  have small: "\<not> GDB_REG_PC < (of_nat r :: u32)" "(of_nat r :: u32) \<noteq> GDB_REG_PC"
    using u assms(4) by (auto simp: GDB_REG_PC_def word_less_nat_alt)
  obtain s1 s2 where s: "wl_dm_gpr_write (of_nat r) v (sim_session w) = Some (Inr (), s1)"
    "wl_dm_gpr_read (of_nat r) s1 = Some (Inr v, s2)"
    "\<forall>q. q \<noteq> r \<longrightarrow> s_gpr (world s2) q = s_gpr w q" "observed (world s2) = observed w"
    using gpr_write_read [OF assms(1,2) le, of v] u nz by auto
  have z: "CHR 0x00 \<notin> set (hex_str r)" "CHR 0x00 \<notin> set (hex8 v)" "CHR ''='' \<notin> set (hex_str r)"
    by (simp_all add: no_char_in_hex no_char_in_hex8)
  have t1: "cstr (drop 1 ?P) = hex_str r @ ''='' @ hex8 v" "cstr ?P = ''P'' @ hex_str r @ ''='' @ hex8 v"
    using cstr_text [of "hex_str r @ ''='' @ hex8 v" junk1] cstr_text [of "''P'' @ hex_str r @ ''='' @ hex8 v" junk1] z
    by simp_all
  have t2: "cstr (drop 1 ?p) = hex_str r" "cstr ?p = ''p'' @ hex_str r"
    using cstr_text [of "hex_str r" junk2] cstr_text [of "''p'' @ hex_str r" junk2] z by simp_all
  have n1: "number (hex_str r @ ''='' @ hex8 v) = Some (of_nat r)" by (simp add: number_before)
  have eq1: "strchr (CHR ''='') (''P'' @ hex_str r @ ''='' @ hex8 v) = Some (CHR ''='' # hex8 v)"
    using strchr_first [of "CHR ''=''" "''P'' @ hex_str r" "hex8 v"] z by simp
  have eq2: "strchr (CHR ''='') (''p'' @ hex_str r) = None"
    by (rule strchr_none) (use z in simp)
  let ?c1 = "?cn\<lparr>g_sess := s1, g_in := Arrived (CHR ''+'') # es, g_out := framed ''OK''\<rparr>"
  have sess: "g_sess ?cn = sim_session w" by (simp add: sim_conn_def)
  have "gdb_handle_p ?P ?cn = gdb_send_text ''OK'' (?cn\<lparr>g_sess := s1\<rparr>)"
    unfolding gdb_handle_p_def t1 n1 eq1 option.case if_not_P [OF small(1)] list.sel number_hex8
      if_not_P [OF small(2)]
    by (simp add: attempt_def on_link_def sess s(1))
  also have "\<dots> = Some (Inr (), ?c1)"
    by (subst send_acked(1) [of _ "Arrived (CHR ''+'') # es"]) (simp_all add: sim_conn_def)
  finally have h1: "gdb_handle_p ?P ?cn = Some (Inr (), ?c1)" .
  let ?c2 = "?c1\<lparr>g_sess := s2, g_in := es, g_out := framed ''OK'' @ framed (format_hex_u32_le v)\<rparr>"
  have "gdb_handle_p ?p ?c1 = gdb_send_text (format_hex_u32_le v) (?c1\<lparr>g_sess := s2\<rparr>)"
    unfolding gdb_handle_p_def t2 number_hex eq2 option.case if_not_P [OF small(1)] if_not_P [OF small(2)]
    by (simp add: attempt_def on_link_def s(2))
  also have "\<dots> = Some (Inr (), ?c2)"
    by (subst send_acked(1) [of _ es]) (simp_all add: sim_conn_def)
  finally have h2: "gdb_handle_p ?p ?c1 = Some (Inr (), ?c2)" .
  have "gdb_handle_packet ?P ?cn = Some (Inr True, ?c1)" "gdb_handle_packet ?p ?c1 = Some (Inr True, ?c2)"
    using h1 h2 by (simp_all add: gdb_handle_packet_def Let_def andThen_def)
  then show ?thesis using s(3,4)
    by (intro exI [of _ ?c1] exI [of _ ?c2]) simp
qed

theorem register_packets_witness:
  "\<exists>c1 c2.
     gdb_handle_packet (''P'' @ hex_str 5 @ ''='' @ hex8 0x12345678 @ CHR 0x00 # [])
       (sim_conn (hd chips) v003_set (map Arrived ''++'')) = Some (Inr True, c1) \<and>
     gdb_handle_packet (''p'' @ hex_str 5 @ CHR 0x00 # []) c1 = Some (Inr True, c2) \<and>
     g_out c2 = framed ''OK'' @ framed ''78563412''"
proof -
  have "format_hex_u32_le 0x12345678 = ''78563412''" by code_simp
  then show ?thesis
    using register_packets [of v003_set 5 "0x12345678" "[]" "hd chips" "[]" "[]"] v003_set_ready by auto
qed

section \<open>Memory packets\<close>

lemma read_packet:
  fixes cn :: "(unit, wl_sim) gdb_conn"
  assumes p: "sim_link.plugged (g_sess cn)" and l: "sim_target.live (world (g_sess cn))"
    and io: "g_sends cn = []" "g_in cn = Arrived (CHR ''+'') # es"
    and m: "sim_target.holds (observed (world (g_sess cn))) a bs" "length bs \<le> GDB_MEMORY_MAX"
  shows "\<exists>w'. gdb_handle_packet (''m'' @ hex_str (unat a) @ '','' @ hex_str (length bs) @ CHR 0x00 # junk) cn =
       Some (Inr True, cn\<lparr>g_sess := (g_sess cn)\<lparr>world := w'\<rparr>, g_in := es,
         g_out := g_out cn @ framed (concat (map format_hex_byte bs))\<rparr>) \<and>
     accessed (world (g_sess cn)) w'"
proof -
  let ?m = "''m'' @ hex_str (unat a) @ '','' @ hex_str (length bs) @ CHR 0x00 # junk"
  obtain w' where w': "wl_dm_read_block a (length bs) (g_sess cn) = Some (Inr bs, (g_sess cn)\<lparr>world := w'\<rparr>)"
    "observed w' = observed (world (g_sess cn))"
    using sim_target.read_block_ok [OF p l m(1) refl] by auto
  have acc: "accessed (world (g_sess cn)) w'"
    using w' steady_settings [OF steady_read_block p _ _ w'(1)] l
    by (simp add: accessed_iff sim_target.live_def)
  have z: "CHR 0x00 \<notin> set (hex_str (unat a) @ '','' @ hex_str (length bs))"
    by (simp add: no_char_in_hex)
  have t: "cstr (drop 1 ?m) = hex_str (unat a) @ '','' @ hex_str (length bs)"
    using cstr_text [OF z, of junk] by simp
  have n: "number_then (CHR '','') (hex_str (unat a) @ '','' @ hex_str (length bs)) = Some (a, hex_str (length bs))"
    using number_then_hex [of "CHR '',''" "unat a" "hex_str (length bs)"] by simp
  have u: "unat (of_nat (length bs) :: u32) = length bs"
    using m(2) by (simp add: GDB_MEMORY_MAX_def unat_of_nat)
  have "gdb_handle_m ?m cn = gdb_send_packet (concat (map format_hex_byte bs)) (cn\<lparr>g_sess := (g_sess cn)\<lparr>world := w'\<rparr>\<rparr>)"
    using m(2) unfolding gdb_handle_m_def t n number_hex option.case prod.case u
    by (simp add: attempt_def on_link_def w'(1))
  also have "\<dots> = Some (Inr (), cn\<lparr>g_sess := (g_sess cn)\<lparr>world := w'\<rparr>, g_in := es,
      g_out := g_out cn @ framed (concat (map format_hex_byte bs))\<rparr>)"
    by (subst send_acked(2) [of _ es]) (simp_all add: io)
  finally have "gdb_handle_packet ?m cn = Some (Inr True, cn\<lparr>g_sess := (g_sess cn)\<lparr>world := w'\<rparr>, g_in := es,
      g_out := g_out cn @ framed (concat (map format_hex_byte bs))\<rparr>)"
    by (simp add: gdb_handle_packet_def Let_def andThen_def)
  with acc show ?thesis by blast
qed

text \<open>Byte stores to RAM, one after the other.\<close>

lemma write_byte_ok:
  fixes s :: "(unit, wl_sim) sess"
  assumes "sim_link.plugged s" "s_configured (world s)" "sim_idle (world s)"
  shows "wl_dm_write8 a b s = Some (Inr (), s\<lparr>world := sim_poke 0 a (ucast b) (world s)\<rparr>)"
  using assms sim_store_run [of s 0 a "ucast b"]
  by (simp add: wl_dm_write8_def wl_dm_run_write_def encoded store_word_def sim_idle_def andThen_def)

lemma poke_ram:
  assumes "s_chip w \<in> set chips" "length (s_ram w) = unat (ram_size (s_chip w))" "off < length (s_ram w)"
  shows "observed (sim_poke 0 (ram_offset (s_chip w) + of_nat off) (ucast b) w) =
     (observed w)\<lparr>s_ram := write_at off [b] (s_ram w)\<rparr>"
proof -
  have "value_bytes (2 ^ 0) (ucast b) = [b]" by (auto simp: value_bytes_def)
  then show ?thesis
    using access_ram_store [OF assms(1), of "observed w" off 0 "ucast b"] assms poke_facts(3) [of 0]
    by simp
qed

lemma write_bytes_ok:
  fixes s :: "(unit, wl_sim) sess"
  assumes "sim_link.plugged s" "s_configured (world s)" "sim_idle (world s)"
    and "s_chip (world s) \<in> set chips" "length (s_ram (world s)) = unat (ram_size (s_chip (world s)))"
    and "off + length bs \<le> length (s_ram (world s))"
  shows "\<exists>w'. write_bytes (ram_offset (s_chip (world s)) + of_nat off) bs s = Some (Inr (), s\<lparr>world := w'\<rparr>) \<and>
     observed w' = (observed (world s))\<lparr>s_ram := write_at off bs (s_ram (world s))\<rparr> \<and>
     s_configured w' \<and> sim_idle w'"
  using assms
proof (induction bs arbitrary: s off)
  case Nil
  have "observed (world s) = (observed (world s))\<lparr>s_ram := s_ram (world s)\<rparr>" by (simp add: observed_def)
  with Nil show ?case by (intro exI [of _ "world s"]) simp
next
  case (Cons b bs)
  let ?a = "ram_offset (s_chip (world s)) + of_nat off"
  define w1 where "w1 = sim_poke 0 ?a (ucast b) (world s)"
  have o: "observed w1 = (observed (world s))\<lparr>s_ram := write_at off [b] (s_ram (world s))\<rparr>"
    unfolding w1_def using Cons.prems by (intro poke_ram) simp_all
  have f: "s_configured w1" "sim_idle w1" using Cons.prems poke_facts(2,4) [of 0] by (simp_all add: w1_def)
  have ram: "s_ram w1 = write_at off [b] (s_ram (world s))" "s_chip w1 = s_chip (world s)"
    using arg_cong [OF o, of s_ram] arg_cong [OF o, of s_chip] by simp_all
  have "\<exists>w'. write_bytes (ram_offset (s_chip w1) + of_nat (Suc off)) bs (s\<lparr>world := w1\<rparr>) =
      Some (Inr (), s\<lparr>world := w1\<rparr>\<lparr>world := w'\<rparr>) \<and>
      observed w' = (observed w1)\<lparr>s_ram := write_at (Suc off) bs (s_ram w1)\<rparr> \<and> s_configured w' \<and> sim_idle w'"
    using Cons.IH [of "s\<lparr>world := w1\<rparr>" "Suc off"] Cons.prems f ram by simp
  then obtain w' where w': "write_bytes (ram_offset (s_chip w1) + of_nat (Suc off)) bs (s\<lparr>world := w1\<rparr>) =
      Some (Inr (), s\<lparr>world := w'\<rparr>)"
    "observed w' = (observed w1)\<lparr>s_ram := write_at (Suc off) bs (s_ram w1)\<rparr>" "s_configured w'" "sim_idle w'"
    by auto
  have "wl_dm_write8 ?a b s = Some (Inr (), s\<lparr>world := w1\<rparr>)"
    unfolding w1_def using Cons.prems by (intro write_byte_ok)
  then have "write_bytes ?a (b # bs) s = Some (Inr (), s\<lparr>world := w'\<rparr>)"
    using w'(1) ram(2) by (simp add: andThen_def ac_simps)
  moreover have "observed w' = (observed (world s))\<lparr>s_ram := write_at off (b # bs) (s_ram (world s))\<rparr>"
    using w'(2) o ram write_at_append [of off "[b]" bs] by simp
  ultimately show ?case using w'(3,4) by blast
qed

lemma ram_holds:
  assumes "s_chip w \<in> set chips" "length (s_ram w) = unat (ram_size (s_chip w))" "off + length bs \<le> length (s_ram w)"
    and "\<And>i. i < length bs \<Longrightarrow> s_ram w ! (off + i) = bs ! i"
  shows "sim_target.holds (observed w) (ram_offset (s_chip w) + of_nat off) bs"
  unfolding sim_target.holds_def
proof (intro allI impI)
  fix i assume i: "i < length bs"
  have "off + i < length (s_ram (observed w))" using assms(3) i by simp
  from ram_address [OF _ _ _ this, of "s_chip w"] assms i
  show "sim_mem (observed w) (ram_offset (s_chip w) + of_nat off + of_nat i) = Some (bs ! i)"
    by (simp add: sim_mem_def add.assoc)
qed

lemma steady_write_bytes: "safe (steady l w) H (write_bytes a bs)"
  by (induction bs arbitrary: a) (auto intro!: safe_intro)

text \<open>C28: an M packet writes its bytes to RAM, at any address and length up to 1024, and the m
  packet for the same range answers with the same hexadecimal text, at the level of the
  packets on the wire. Together they change those bytes of RAM, and beside them only what
  their accesses use: x8, x9, the program buffer and the debug module's own registers.
  Flash, the flash controller, dpc, dcsr, every other core register and whether the target
  is attached are as before.\<close>

theorem memory_packets:
  assumes w: "s_chip w \<in> set chips" "length (s_ram w) = unat (ram_size (s_chip w))" "s_configured w" "sim_idle w"
    and bs: "off + length bs \<le> length (s_ram w)" "length bs \<le> GDB_MEMORY_MAX"
    and a: "a = ram_offset (s_chip w) + of_nat off"
  shows "\<exists>c1 c2.
     gdb_handle_packet (''M'' @ hex_str (unat a) @ '','' @ hex_str (length bs) @ '':'' @
         concat (map format_hex_byte bs) @ CHR 0x00 # junk1)
       (sim_conn c w (Arrived (CHR ''+'') # Arrived (CHR ''+'') # es)) = Some (Inr True, c1) \<and>
     gdb_handle_packet (''m'' @ hex_str (unat a) @ '','' @ hex_str (length bs) @ CHR 0x00 # junk2) c1 =
       Some (Inr True, c2) \<and>
     g_out c2 = framed ''OK'' @ framed (concat (map format_hex_byte bs)) \<and>
     accessed (w\<lparr>s_ram := write_at off bs (s_ram w)\<rparr>) (world (g_sess c2))"
proof -
  let ?cn = "sim_conn c w (Arrived (CHR ''+'') # Arrived (CHR ''+'') # es)"
  let ?hex = "concat (map format_hex_byte bs)"
  let ?M = "''M'' @ hex_str (unat a) @ '','' @ hex_str (length bs) @ '':'' @ ?hex @ CHR 0x00 # junk1"
  have sess: "g_sess ?cn = sim_session w" by (simp add: sim_conn_def)
  obtain w1 where w1: "write_bytes a bs (sim_session w) = Some (Inr (), (sim_session w)\<lparr>world := w1\<rparr>)"
    "observed w1 = (observed w)\<lparr>s_ram := write_at off bs (s_ram w)\<rparr>" "s_configured w1" "sim_idle w1"
    using write_bytes_ok [of "sim_session w" off bs] w bs a by auto
  have set1: "settings w1 = settings w"
    using steady_settings [OF steady_write_bytes _ _ _ w1(1)] w by simp
  have hexz: "CHR 0x00 \<notin> set ?hex"
  proof -
    have "list_all (\<lambda>c. c \<noteq> CHR 0x00) ''0123456789abcdef''" by simp
    then have "\<And>n. n < 16 \<Longrightarrow> ''0123456789abcdef'' ! n \<noteq> CHR 0x00"
      by (simp add: list_all_length)
    then have "CHR 0x00 \<notin> set (format_hex_byte b)" for b
      using halves(1,2) [of b] by (simp add: format_hex_byte_def) metis
    then show ?thesis by auto
  qed
  have z: "CHR 0x00 \<notin> set (hex_str (unat a) @ '','' @ hex_str (length bs) @ '':'' @ ?hex)"
    using hexz by (simp add: no_char_in_hex)
  have t: "cstr (drop 1 ?M) = hex_str (unat a) @ '','' @ hex_str (length bs) @ '':'' @ ?hex"
    using cstr_text [OF z, of junk1] by simp
  have n1: "number_then (CHR '','') (hex_str (unat a) @ '','' @ hex_str (length bs) @ '':'' @ ?hex) =
      Some (a, hex_str (length bs) @ '':'' @ ?hex)"
    using number_then_hex [of "CHR '',''" "unat a" "hex_str (length bs) @ '':'' @ ?hex"] by simp
  have n2: "number_then (CHR '':'') (hex_str (length bs) @ '':'' @ ?hex) = Some (of_nat (length bs), ?hex)"
    using number_then_hex [of "CHR '':''" "length bs" ?hex] by simp
  have u: "unat (of_nat (length bs) :: u32) = length bs"
    using bs(2) by (simp add: GDB_MEMORY_MAX_def unat_of_nat)
  have hex: "parse_hex_bytes ?hex (length bs) = Some bs" using parse_format_bytes [of bs "[]"] by simp
  let ?c1 = "?cn\<lparr>g_sess := (sim_session w)\<lparr>world := w1\<rparr>, g_in := Arrived (CHR ''+'') # es, g_out := framed ''OK''\<rparr>"
  have "gdb_handle_M ?M ?cn = gdb_send_text ''OK'' (?cn\<lparr>g_sess := (sim_session w)\<lparr>world := w1\<rparr>\<rparr>)"
    using bs(2) unfolding gdb_handle_M_def t n1 n2 option.case prod.case u hex
    by (simp add: attempt_def on_link_def sess w1(1))
  also have "\<dots> = Some (Inr (), ?c1)"
    by (subst send_acked(1) [of _ "Arrived (CHR ''+'') # es"]) (simp_all add: sim_conn_def)
  finally have M: "gdb_handle_packet ?M ?cn = Some (Inr True, ?c1)"
    by (simp add: gdb_handle_packet_def Let_def andThen_def)
  have ram: "s_ram w1 = write_at off bs (s_ram w)" "s_chip w1 = s_chip w"
    using arg_cong [OF w1(2), of s_ram] arg_cong [OF w1(2), of s_chip] by simp_all
  have h: "sim_target.holds (observed (world (g_sess ?c1))) a bs"
    using ram_holds [of w1 off bs] w bs ram a by (simp add: nth_write_at)
  have l: "sim_link.plugged (g_sess ?c1)" "sim_target.live (world (g_sess ?c1))"
    using w1(3,4) by (simp_all add: sim_target.live_def)
  have io: "g_sends ?c1 = []" "g_in ?c1 = Arrived (CHR ''+'') # es" by (simp_all add: sim_conn_def)
  obtain w2 where w2: "gdb_handle_packet (''m'' @ hex_str (unat a) @ '','' @ hex_str (length bs) @ CHR 0x00 # junk2) ?c1 =
       Some (Inr True, ?c1\<lparr>g_sess := (g_sess ?c1)\<lparr>world := w2\<rparr>, g_in := es,
         g_out := g_out ?c1 @ framed ?hex\<rparr>)" "accessed w1 w2"
    using read_packet [OF l io h bs(2), of junk2] by auto
  have "settings (w\<lparr>s_ram := write_at off bs (s_ram w)\<rparr>) = settings w" by (simp add: settings_def)
  then have acc: "accessed (w\<lparr>s_ram := write_at off bs (s_ram w)\<rparr>) w2"
    using w2(2) w1(2) set1 by (simp add: accessed_iff)
  show ?thesis
    by (rule exI [of _ ?c1], rule exI, intro conjI, rule M, rule w2(1)) (simp_all add: acc)
qed

theorem memory_packets_witness:
  "\<exists>c1 c2.
     gdb_handle_packet (''M'' @ hex_str 0x20000010 @ '','' @ hex_str 2 @ '':'' @ ''beef'' @ CHR 0x00 # [])
       (sim_conn (hd chips) v003_set (map Arrived ''++'')) = Some (Inr True, c1) \<and>
     gdb_handle_packet (''m'' @ hex_str 0x20000010 @ '','' @ hex_str 2 @ CHR 0x00 # []) c1 = Some (Inr True, c2) \<and>
     g_out c2 = framed ''OK'' @ framed ''beef''"
proof -
  have hex: "concat (map format_hex_byte [0xbe, 0xef]) = ''beef''" by code_simp
  have len: "length [0xbe :: u8, 0xef] = 2" by simp
  have u: "unat (0x20000010 :: u32) = 0x20000010" by simp
  have "s_chip v003_set \<in> set chips" "length (s_ram v003_set) = unat (ram_size (s_chip v003_set))"
    "16 + length [0xbe :: u8, 0xef] \<le> length (s_ram v003_set)" "length [0xbe :: u8, 0xef] \<le> GDB_MEMORY_MAX"
    "0x20000010 = ram_offset (s_chip v003_set) + of_nat 16"
    using v003_flash v003(1) by (simp_all add: GDB_MEMORY_MAX_def)
  from memory_packets [OF this(1,2) v003_set_ready(1,3) this(3-5), of "[]" "hd chips" "[]" "[]"]
  show ?thesis unfolding hex len u by auto
qed

end
