(* ===== verification/GdbBench.thy ===== *)
theory GdbBench
  imports GdbWire GdbRun
begin

text \<open>
  What the calls of the debugging server do to the memory of the simulated target: every debug
  module command that does not run the program buffer leaves flash and RAM alone, and with it
  every handler of the server that halts, steps or resumes the core or accesses its registers.
\<close>

section \<open>A target that is ready and holds a given flash content\<close>

definition bench :: "wl_chip_t \<Rightarrow> u8 list \<Rightarrow> (unit, wl_sim) sess \<Rightarrow> bool" where
  "bench c G s \<longleftrightarrow>
     sim_flash.flash_ready c G s \<and> c \<in> set chips \<and> s_chip (world s) = c \<and>
     length (s_ram (world s)) = unat (ram_size c)"

lemma bench_facts:
  assumes "bench c G s"
  shows "sim_link.plugged s" "s_configured (world s)" "sim_idle (world s)" "s_flash (world s) = G"
    "sim_target.live (world s)" "chip_ok c" "s_cmderr (world s) = 0" "length G = unat (flash_size c)"
  using assms ready_flash [of c G s]
  by (simp_all add: bench_def sim_flash.flash_ready_def sim_target.live_def sim_idle_def)

text \<open>Any two worlds that show the same memory and controller are equally good.\<close>

lemma bench_world:
  assumes "bench c G s" "s_configured w" "sim_idle w"
    and "sim_view (observed w) = sim_view (observed (world s))"
  shows "bench c G (s\<lparr>world := w\<rparr>)"
proof -
  have "s_chip w = s_chip (world s)" "s_ram w = s_ram (world s)"
    using assms(4) by (simp_all add: sim_view_def)
  with assms show ?thesis
    by (simp add: bench_def sim_flash.flash_ready_def sim_target.live_def)
qed

text \<open>Everything but the debug module and the core registers.\<close>

definition memory_of :: "wl_sim \<Rightarrow> wl_sim" where
  "memory_of w = w\<lparr>s_dmi := (\<lambda>_. 0), s_gpr := (\<lambda>_. 0), s_progbuf := (\<lambda>_. 0), s_pc := 0, s_dpc := 0,
     s_dcsr := 0, s_cmderr := 0\<rparr>"

lemma memory_of_upd [simp]:
  "memory_of (w\<lparr>s_dmi := d\<rparr>) = memory_of w" "memory_of (w\<lparr>s_gpr := g\<rparr>) = memory_of w"
  "memory_of (w\<lparr>s_progbuf := b\<rparr>) = memory_of w" "memory_of (w\<lparr>s_dpc := p\<rparr>) = memory_of w"
  "memory_of (w\<lparr>s_dcsr := q\<rparr>) = memory_of w" "memory_of (w\<lparr>s_cmderr := e\<rparr>) = memory_of w"
  by (cases w; simp add: memory_of_def)+

lemma memory_of_fields:
  "s_configured (memory_of w) = s_configured w" "buf64 (memory_of w) = buf64 w"
  "s_flash (memory_of w) = s_flash w" "sim_view (observed (memory_of w)) = sim_view (observed w)"
  by (simp_all add: memory_of_def buf64_def sim_view_def)

lemma bench_memory:
  assumes "bench c G s" "memory_of w = memory_of (world s)" "s_cmderr w = 0"
  shows "bench c G (s\<lparr>world := w\<rparr>)"
proof (rule bench_world [OF assms(1)])
  show "s_configured w" "sim_idle w" "sim_view (observed w) = sim_view (observed (world s))"
    using bench_facts(2,3) [OF assms(1)] assms(3) memory_of_fields [of w]
      memory_of_fields [of "world s"] unfolding assms(2) by (simp_all add: sim_idle_def)
qed

section \<open>Commands that do not run the program buffer\<close>

lemma transfer_memory:
  "sim_transfer sz wr r w = Some w' \<Longrightarrow> memory_of w' = memory_of w \<and> s_cmderr w' = s_cmderr w"
  by (auto simp: sim_transfer_def set_gpr_def Let_def split: if_splits)

lemma command_memory:
  assumes "\<not> bit cmd 18"
  shows "memory_of (sim_execute_command cmd w) = memory_of w \<and>
     (s_cmderr (sim_execute_command cmd w) = s_cmderr w \<or> s_cmderr (sim_execute_command cmd w) = 2)"
  using assms transfer_memory [of "drop_bit 20 cmd AND 0x7" "bit cmd 16" "cmd AND 0xffff" w]
  by (auto simp: sim_execute_command_def Let_def split: option.split)

lemma dmi_write_memory:
  assumes "r = WL_DMI_DMCOMMAND \<Longrightarrow> \<not> bit v 18"
  shows "memory_of (sim_dmi_write r v w) = memory_of w"
    and "s_cmderr w = 0 \<Longrightarrow> s_cmderr (sim_dmi_write r v w) = 0 \<or> r = WL_DMI_DMCOMMAND \<and> s_cmderr (sim_dmi_write r v w) = 2"
  using assms command_memory [of v "if r < 128 then w\<lparr>s_dmi := (s_dmi w)(r := v)\<rparr> else w"]
  by (auto simp: sim_dmi_write_def Let_def split: if_splits)

lemma dmi_clear_memory:
  assumes "s_cmderr w = 2"
  shows "s_cmderr (sim_dmi_write WL_DMI_DMABSTRACTCS WL_DM_ABSTRACTCS_CLEAR w) = 0"
  using assms by (simp add: sim_dmi_write_def Let_def dmi_regs dm_cs_bits)

lemma safe_bench_read: "safe (bench c G) anyhow (wl_linke_dmi_read r)"
  unfolding safe_def
  using bench_facts(1,2) by (auto simp: sim_link.dmi_read_ok)

lemma safe_bench_write:
  assumes "r \<noteq> WL_DMI_DMCOMMAND"
  shows "safe (bench c G) anyhow (wl_linke_dmi_write r v)"
  unfolding safe_def
proof (intro allI impI)
  fix s assume b: "bench c G s"
  note f = bench_facts [OF b]
  have "bench c G (s\<lparr>world := sim_dmi_write r v (world s)\<rparr>)"
    using dmi_write_memory [of r v "world s"] assms f(7) by (intro bench_memory [OF b]) auto
  then show "\<exists>x s'. wl_linke_dmi_write r v s = Some (x, s') \<and> bench c G s' \<and> (\<forall>e. x = Inl e \<longrightarrow> True)"
    using f(1,2) by (simp add: sim_link.dmi_write_ok)
qed

lemma safe_bench_command:
  assumes "\<not> bit cmd 18"
  shows "safe (bench c G) anyhow (dm_command cmd v tin want)"
  unfolding safe_def
proof (intro allI impI)
  fix s assume b: "bench c G s"
  note f = bench_facts [OF b]
  define w where "w = sim_link.issued cmd v tin (world s)"
  have data: "memory_of (sim_dmi_write WL_DMI_DATA0 v (world s)) = memory_of (world s)"
    "s_cmderr (sim_dmi_write WL_DMI_DATA0 v (world s)) = 0"
    using dmi_write_memory [of WL_DMI_DATA0 v "world s"] f(7) by (auto simp: dmi_regs)
  have w: "memory_of w = memory_of (world s)" "s_cmderr w = 0 \<or> s_cmderr w = 2" "s_configured w"
    using dmi_write_memory [of WL_DMI_DMCOMMAND cmd "sim_dmi_write WL_DMI_DATA0 v (world s)"]
      dmi_write_memory [of WL_DMI_DMCOMMAND cmd "world s"] assms data f(2,7)
    unfolding w_def sim_link.issued_def by (cases tin; auto simp: dmi_write_configured)+
  show "\<exists>x s'. dm_command cmd v tin want s = Some (x, s') \<and> bench c G s' \<and> (\<forall>e. x = Inl e \<longrightarrow> True)"
  proof (cases "s_cmderr w = 0")
    case True
    then have "\<exists>x. dm_command cmd v tin want s = Some (x, s\<lparr>world := w\<rparr>)"
      using sim_link_command [OF f(1,2), of cmd v tin] unfolding w_def by (cases want) auto
    then show ?thesis using bench_memory [OF b w(1) True] by auto
  next
    case False
    let ?w = "sim_dmi_write WL_DMI_DMABSTRACTCS WL_DM_ABSTRACTCS_CLEAR w"
    have "dm_wait (s\<lparr>world := w\<rparr>) = Some (Inl WL_ERR_TARGET, s\<lparr>world := ?w\<rparr>)"
      using sim_link.dm_wait_error [of "s\<lparr>world := w\<rparr>"] w f(1) False
      unfolding sim_settled by (simp add: sim_dmi_read_def dm_cs_bits)
    then have "dm_command cmd v tin want s = Some (Inl WL_ERR_TARGET, s\<lparr>world := ?w\<rparr>)"
      using f(1,2) unfolding w_def sim_link.issued_def
      by (cases tin) (simp_all add: dm_command_def run sim_link.dmi_write_ok dmi_write_configured)
    moreover have "bench c G (s\<lparr>world := ?w\<rparr>)"
      using dmi_write_memory(1) [of WL_DMI_DMABSTRACTCS WL_DM_ABSTRACTCS_CLEAR w] dmi_clear_memory w False
      by (intro bench_memory [OF b]) (auto simp: dmi_regs)
    ultimately show ?thesis by blast
  qed
qed

section \<open>Registers, halting and stepping\<close>

lemma gpr_no_postexec:
  assumes "r \<le> 31"
  shows "\<not> bit (WL_DM_CMD_GPR_BASE OR WL_DM_CMD_TRANSFER OR WL_DM_CMD_WRITE OR WL_DM_GPR_REGNO r) 18"
    and "\<not> bit (WL_DM_CMD_GPR_BASE OR WL_DM_CMD_TRANSFER OR WL_DM_GPR_REGNO r) 18"
proof -
  have "unat r \<le> 31" using assms by (simp add: word_le_nat_alt)
  then have "unat r \<in> set [0..<32]" by simp
  then have "r \<in> set (map of_nat [0..<32])" by (metis imageI list.set_map of_nat_unat ucast_id)
  moreover have "list_all (\<lambda>r. \<not> bit (WL_DM_CMD_GPR_BASE OR WL_DM_CMD_TRANSFER OR WL_DM_CMD_WRITE OR WL_DM_GPR_REGNO r) 18 \<and>
      \<not> bit (WL_DM_CMD_GPR_BASE OR WL_DM_CMD_TRANSFER OR WL_DM_GPR_REGNO r) 18) (map of_nat [0..<32])"
    by code_simp
  ultimately show "\<not> bit (WL_DM_CMD_GPR_BASE OR WL_DM_CMD_TRANSFER OR WL_DM_CMD_WRITE OR WL_DM_GPR_REGNO r) 18"
    "\<not> bit (WL_DM_CMD_GPR_BASE OR WL_DM_CMD_TRANSFER OR WL_DM_GPR_REGNO r) 18"
    unfolding list_all_iff by blast+
qed

lemma csr_no_postexec:
  "\<not> bit (WL_DM_CMD_GPR_BASE OR WL_DM_CMD_TRANSFER OR WL_DMI_DPC) 18"
  "\<not> bit (WL_DM_CMD_GPR_BASE OR WL_DM_CMD_TRANSFER OR WL_DM_CMD_WRITE OR WL_DMI_DPC) 18"
  "\<not> bit (WL_DM_CMD_GPR_BASE OR WL_DM_CMD_TRANSFER OR WL_DMI_DCSR) 18"
  "\<not> bit (WL_DM_CMD_GPR_BASE OR WL_DM_CMD_TRANSFER OR WL_DMI_DCSR OR WL_DM_CMD_WRITE) 18"
  by code_simp+

lemma safe_bench_registers:
  "safe (bench c G) anyhow (wl_dm_gpr_read r)" "safe (bench c G) anyhow (wl_dm_gpr_write r v)"
  "safe (bench c G) anyhow wl_dm_pc_read" "safe (bench c G) anyhow (wl_dm_pc_write v)"
  "safe (bench c G) anyhow wl_dm_dcsr_read" "safe (bench c G) anyhow (wl_dm_dcsr_write v)"
  unfolding wl_dm_gpr_read_def wl_dm_gpr_write_def wl_dm_pc_read_def wl_dm_pc_write_def
    wl_dm_dcsr_read_def wl_dm_dcsr_write_def dm_csr_access_def Let_def
  by (intro safe_if safe_andThen safe_fail safe_ret safe_bench_command gpr_no_postexec csr_no_postexec;
      simp add: csr_no_postexec or.assoc not_less)+

lemma safe_bench_halted: "safe (bench c G) anyhow gdb_dm_is_halted"
  unfolding gdb_dm_is_halted_def
  by (intro safe_attempt [OF safe_bench_read] safe_case_sum safe_ret)

lemma safe_bench_control:
  "safe (bench c G) anyhow gdb_dm_halt" "safe (bench c G) anyhow gdb_dm_wait_halted"
  "safe (bench c G) anyhow gdb_dm_enable_ebreak" "safe (bench c G) anyhow gdb_resume"
  "safe (bench c G) anyhow gdb_step"
proof -
  have control: "safe (bench c G) anyhow (wl_linke_dmi_write WL_DMI_DMCONTROL v)" for v
    by (rule safe_bench_write) (simp add: dmi_regs)
  then show "safe (bench c G) anyhow gdb_dm_halt" by (simp add: gdb_dm_halt_def)
  have "safe (bench c G) anyhow (wait_halted n)" for n
    by (induction n) (simp_all add: safe_fail safe_andThen safe_bench_halted safe_ret del: fail_apply ret_apply)
  then show w: "safe (bench c G) anyhow gdb_dm_wait_halted" by (simp add: gdb_dm_wait_halted_def)
  show e: "safe (bench c G) anyhow gdb_dm_enable_ebreak"
    unfolding gdb_dm_enable_ebreak_def by (intro safe_andThen safe_bench_registers)
  show r: "safe (bench c G) anyhow gdb_resume"
    unfolding gdb_resume_def by (intro safe_andThen safe_ignoring e control)
  show "safe (bench c G) anyhow gdb_step"
    unfolding gdb_step_def Let_def by (intro safe_andThen safe_cleanup safe_bench_registers r w)
qed

section \<open>Memory in reach of the debugger\<close>

text \<open>The ranges that lie in flash, at its own address, and in RAM.\<close>

definition in_flash :: "wl_chip_t \<Rightarrow> u32 \<Rightarrow> nat \<Rightarrow> bool" where
  "in_flash c a n \<longleftrightarrow> 0x08000000 \<le> unat a \<and> unat a + n \<le> 0x08000000 + unat (flash_size c)"

definition in_ram :: "wl_chip_t \<Rightarrow> u32 \<Rightarrow> nat \<Rightarrow> bool" where
  "in_ram c a n \<longleftrightarrow> unat (ram_offset c) \<le> unat a \<and> unat a + n \<le> unat (ram_offset c) + unat (ram_size c)"

lemma offset_from: "unat b \<le> unat a \<Longrightarrow> (a :: u32) = b + of_nat (unat a - unat b)"
  by (simp add: of_nat_diff)

lemma in_flash_offset:
  assumes "in_flash c a n"
  obtains so where "a = FB_V + of_nat so" "so + n \<le> unat (flash_size c)" "so = unat a - 0x08000000"
proof -
  have "unat FB_V = 0x08000000" by (simp add: FB_V_def)
  then show ?thesis using assms that [of "unat a - 0x08000000"] offset_from [of FB_V a]
    by (auto simp: in_flash_def)
qed

lemma safe_bench_read_block:
  assumes "in_flash c a n \<or> in_ram c a n"
  shows "safe (bench c G) anyhow (wl_dm_read_block a n)"
  unfolding safe_def
proof (intro allI impI)
  fix s assume b: "bench c G s"
  note f = bench_facts [OF b]
  have "\<exists>bs. length bs = n \<and> sim_target.holds (observed (world s)) a bs"
  proof (cases "in_ram c a n")
    case True
    let ?off = "unat a - unat (ram_offset c)"
    have "a = ram_offset c + of_nat ?off" using True by (intro offset_from) (simp add: in_ram_def)
    moreover have "?off + n \<le> length (s_ram (world s))" using b True by (auto simp: bench_def in_ram_def)
    ultimately show ?thesis
      using ram_holds [of "world s" ?off "take n (drop ?off (s_ram (world s)))"] b
      by (intro exI [of _ "take n (drop ?off (s_ram (world s)))"]) (simp add: bench_def)
  next
    case False
    then obtain so where so: "a = FB_V + of_nat so" "so + n \<le> length G"
      using assms f(8) by (auto elim: in_flash_offset)
    have r: "sim_flash.flash_ready c G s" using b by (simp add: bench_def)
    then have "length G \<le> 0x10000" by (rule sim_flash.flash_ready_facts(4))
    with so have "sim_target.holds (observed (world s)) a (take n (drop so G))"
      using sim_flash.mem_flash [of "so + i" "observed (world s)" for i] f(4)
      by (auto simp: sim_target.holds_def sim_view_def add.assoc)
    with so show ?thesis by (intro exI [of _ "take n (drop so G)"]) simp
  qed
  then obtain bs where bs: "length bs = n" "sim_target.holds (observed (world s)) a bs" by blast
  obtain w where w: "wl_dm_read_block a n s = Some (Inr bs, s\<lparr>world := w\<rparr>)" "sim_target.live w"
    "observed w = observed (world s)"
    using sim_target.read_block_ok [OF f(1,5) bs(2,1)] by auto
  have "bench c G (s\<lparr>world := w\<rparr>)" using w by (intro bench_world [OF b]) (simp_all add: sim_target.live_def)
  with w(1) show "\<exists>x s'. wl_dm_read_block a n s = Some (x, s') \<and> bench c G s' \<and> (\<forall>e. x = Inl e \<longrightarrow> True)"
    by blast
qed

lemma safe_bench_write_bytes:
  assumes "in_ram c a (length bs)"
  shows "safe (bench c G) anyhow (write_bytes a bs)"
  unfolding safe_def
proof (intro allI impI)
  fix s assume b: "bench c G s"
  note f = bench_facts [OF b]
  let ?off = "unat a - unat (ram_offset c)"
  have a: "a = ram_offset c + of_nat ?off" using assms by (intro offset_from) (simp add: in_ram_def)
  have c: "s_chip (world s) = c" "c \<in> set chips" "length (s_ram (world s)) = unat (ram_size c)"
    using b by (simp_all add: bench_def)
  have "?off + length bs \<le> length (s_ram (world s))" using c assms by (auto simp: in_ram_def)
  then obtain w where w: "write_bytes a bs s = Some (Inr (), s\<lparr>world := w\<rparr>)"
    "observed w = (observed (world s))\<lparr>s_ram := write_at ?off bs (s_ram (world s))\<rparr>" "s_configured w" "sim_idle w"
    using write_bytes_ok [OF f(1-3), of ?off bs] c a by auto
  have view: "sim_view (observed w) = (sim_view (observed (world s)))
      \<lparr>v_rest := (c, write_at ?off bs (s_ram (world s)), s_resets (world s), s_illegal (world s))\<rparr>"
    unfolding w(2) using c(1) by (simp add: sim_view_def)
  have "s_chip w = c" "s_ram w = write_at ?off bs (s_ram (world s))"
    using view by (simp_all add: sim_view_def)
  with b view w(3,4) have "bench c G (s\<lparr>world := w\<rparr>)"
    by (simp add: bench_def sim_flash.flash_ready_def sim_target.live_def calm_def)
  with w(1) show "\<exists>x s'. write_bytes a bs s = Some (x, s') \<and> bench c G s' \<and> (\<forall>e. x = Inl e \<longrightarrow> True)"
    by blast
qed

text \<open>What a patch of the flash leaves.\<close>

lemma bench_patch:
  assumes b: "bench c G s" and so: "so < length G" "so mod 64 + length bs \<le> 64" "bs \<noteq> []"
  obtains s' where "gdb_mem_patch c (FB_V + of_nat so) bs s = Some (Inr (), s')" "bench c (write_at so bs G) s'"
proof -
  have "sim_flash.flash_ready c G s" using b by (simp add: bench_def)
  then obtain s' where s': "gdb_mem_patch c (FB_V + of_nat so) bs s = Some (Inr (), s')"
    "sim_flash.flash_ready c (write_at so bs G) s'"
    "v_rest (sim_view (observed (world s'))) = v_rest (sim_view (observed (world s)))"
    using sim_flash.patch_flash_ok so by blast
  moreover from s'(3) have "s_chip (world s') = s_chip (world s)" "s_ram (world s') = s_ram (world s)"
    by (simp_all add: sim_view_def)
  ultimately show ?thesis using b that by (simp add: bench_def)
qed

end
