(* ===== verification/GdbTraps.thy ===== *)
theory GdbTraps
  imports GdbBench
begin

text \<open>
  The table of breakpoints and the flash that it stands for: what the flash looks like with the
  breakpoints in, and how putting one in, taking one out and clearing the table keep the two in
  step on the simulated target.
\<close>

section \<open>The flash with its breakpoints in\<close>

definition spot :: "gdb_breakpoint \<Rightarrow> nat" where
  "spot b = unat (bp_address b) - 0x08000000"

definition covers :: "gdb_breakpoint \<Rightarrow> nat \<Rightarrow> bool" where
  "covers b i \<longleftrightarrow> bp_used b \<and> spot b \<le> i \<and> i < spot b + unat (bp_kind b)"

fun trapped :: "gdb_breakpoint list \<Rightarrow> nat \<Rightarrow> u8 \<Rightarrow> u8" where
  "trapped [] i v = v"
| "trapped (b # bs) i v = (if covers b i then replacement (bp_kind b) ! (i - spot b) else trapped bs i v)"

definition with_traps :: "gdb_breakpoint list \<Rightarrow> u8 list \<Rightarrow> u8 list" where
  "with_traps bs F = map (\<lambda>i. trapped bs i (F ! i)) [0..<length F]"

definition apart :: "gdb_breakpoint list \<Rightarrow> bool" where
  "apart bs \<longleftrightarrow> (\<forall>i < length bs. \<forall>j < length bs. i \<noteq> j \<longrightarrow> (\<forall>n. \<not> (covers (bs ! i) n \<and> covers (bs ! j) n)))"

lemma length_with_traps [simp]: "length (with_traps bs F) = length F"
  by (simp add: with_traps_def)

lemma nth_with_traps: "i < length F \<Longrightarrow> with_traps bs F ! i = trapped bs i (F ! i)"
  by (simp add: with_traps_def)

lemma trapped_outside: "(\<And>b. b \<in> set bs \<Longrightarrow> \<not> covers b i) \<Longrightarrow> trapped bs i v = v"
  by (induction bs) auto

lemma with_no_traps: "(\<And>b. b \<in> set bs \<Longrightarrow> \<not> bp_used b) \<Longrightarrow> with_traps bs F = F"
  by (rule nth_equalityI) (auto simp: nth_with_traps covers_def intro!: trapped_outside)

lemma covers_unused [simp]: "\<not> covers (b\<lparr>bp_used := False\<rparr>) i"
  by (simp add: covers_def)

lemma trapped_update:
  assumes "j < length bs" "\<not> bp_used (bs ! j)"
    and "\<And>b'. covers b i \<Longrightarrow> b' \<in> set bs \<Longrightarrow> \<not> covers b' i"
  shows "trapped (bs[j := b]) i v = (if covers b i then replacement (bp_kind b) ! (i - spot b) else trapped bs i v)"
  using assms
proof (induction bs arbitrary: j)
  case (Cons x xs)
  then show ?case by (cases j) (auto simp: covers_def)
qed simp

lemma apart_update:
  assumes "apart bs" "\<And>b' i. b' \<in> set bs \<Longrightarrow> \<not> (covers b i \<and> covers b' i)"
  shows "apart (bs[j := b])"
proof -
  have one: "\<not> (covers b n \<and> covers (bs ! m) n)" if "m < length bs" for m n
    using assms(2) that by simp
  have two: "\<not> (covers (bs ! l) n \<and> covers (bs ! m) n)" if "l < length bs" "m < length bs" "l \<noteq> m" for l m n
    using assms(1) that unfolding apart_def by blast
  show ?thesis unfolding apart_def length_list_update
  proof (intro allI impI)
    fix l m n assume l: "l < length bs" and m: "m < length bs" and lm: "l \<noteq> m"
    show "\<not> (covers (bs[j := b] ! l) n \<and> covers (bs[j := b] ! m) n)"
      using one [OF l, of n] one [OF m, of n] two [OF l m lm, of n] l m lm
      by (cases "l = j"; cases "m = j") (simp_all add: conj_commute)
  qed
qed

text \<open>A breakpoint that is put into a free slot shows as its trap, and one that is taken out
  gives way to the bytes below it.\<close>

lemma with_traps_insert:
  assumes "j < length bs" "\<not> bp_used (bs ! j)" "bp_used b" "bp_kind b = 2 \<or> bp_kind b = 4"
    and "spot b + unat (bp_kind b) \<le> length F"
    and "\<And>b' i. b' \<in> set bs \<Longrightarrow> \<not> (covers b i \<and> covers b' i)"
  shows "with_traps (bs[j := b]) F =
     write_at (spot b) (take (unat (bp_kind b)) (replacement (bp_kind b))) (with_traps bs F)"
proof (rule nth_equalityI)
  fix i assume "i < length (with_traps (bs[j := b]) F)"
  then have i: "i < length F" by simp
  have "trapped (bs[j := b]) i (F ! i) =
      (if covers b i then replacement (bp_kind b) ! (i - spot b) else trapped bs i (F ! i))"
    by (rule trapped_update [OF assms(1,2)]) (use assms(6) in blast)
  then show "with_traps (bs[j := b]) F ! i =
      write_at (spot b) (take (unat (bp_kind b)) (replacement (bp_kind b))) (with_traps bs F) ! i"
    using i assms(3,5) replacement_length [OF assms(4)]
    by (auto simp: nth_with_traps nth_write_at covers_def simp del: length_take)
qed simp

lemma with_traps_remove:
  assumes "j < length bs" "bp_used (bs ! j)" "bp_kind (bs ! j) = 2 \<or> bp_kind (bs ! j) = 4"
    and "spot (bs ! j) + unat (bp_kind (bs ! j)) \<le> length F" "apart bs"
  shows "with_traps (bs[j := (bs ! j)\<lparr>bp_used := False\<rparr>]) F =
     write_at (spot (bs ! j)) (take (unat (bp_kind (bs ! j))) (drop (spot (bs ! j)) F)) (with_traps bs F)"
proof -
  let ?b = "bs ! j"
  let ?cs = "bs[j := ?b\<lparr>bp_used := False\<rparr>]"
  let ?n = "unat (bp_kind ?b)"
  have sep: "\<not> (covers ?b i \<and> covers b' i)" if "b' \<in> set ?cs" for b' i
  proof -
    from that obtain m where m: "m < length bs" "b' = ?cs ! m" by (auto simp: in_set_conv_nth)
    show ?thesis using m assms(1,5) by (cases "m = j") (auto simp: apart_def)
  qed
  have "with_traps (?cs[j := ?b]) F = write_at (spot ?b) (take ?n (replacement (bp_kind ?b))) (with_traps ?cs F)"
    using assms sep by (intro with_traps_insert) simp_all
  then have ins: "with_traps bs F = write_at (spot ?b) (take ?n (replacement (bp_kind ?b))) (with_traps ?cs F)"
    by simp
  have inside: "trapped ?cs i v = v" if "covers ?b i" for i v
    using that sep by (intro trapped_outside) blast
  have same: "take ?n (drop (spot ?b) F) = take ?n (drop (spot ?b) (with_traps ?cs F))"
    using assms(2,4) by (intro nth_equalityI) (auto simp: nth_with_traps inside covers_def)
  let ?G = "with_traps ?cs F"
  have "write_at (spot ?b) (take ?n (drop (spot ?b) ?G)) ?G = ?G"
    using assms(4) by (intro write_at_same) simp
  moreover have "write_at (spot ?b) (take ?n (drop (spot ?b) ?G))
      (write_at (spot ?b) (take ?n (replacement (bp_kind ?b))) ?G) = write_at (spot ?b) (take ?n (drop (spot ?b) ?G)) ?G"
    using assms(4) replacement_length [OF assms(3)] by (intro write_at_twice) simp_all
  ultimately show ?thesis unfolding ins same by simp
qed

section \<open>The invariant\<close>

definition placed :: "u8 list \<Rightarrow> gdb_breakpoint \<Rightarrow> bool" where
  "placed F b \<longleftrightarrow> (bp_kind b = 2 \<or> bp_kind b = 4) \<and> bp_address b = FB_V + of_nat (spot b) \<and>
     spot b mod unat (bp_kind b) = 0 \<and> spot b < length F \<and> spot b + unat (bp_kind b) \<le> length F \<and>
     take (unat (bp_kind b)) (bp_original b) = take (unat (bp_kind b)) (drop (spot b) F)"

definition tidy :: "wl_chip_t \<Rightarrow> u8 list \<Rightarrow> (unit, wl_sim) gdb_conn \<Rightarrow> bool" where
  "tidy c F cn \<longleftrightarrow>
     bench c (with_traps (g_bps cn) F) (g_sess cn) \<and> g_chip cn = c \<and>
     length (g_bps cn) = GDB_MAX_BREAKPOINTS \<and> apart (g_bps cn) \<and>
     (\<forall>b \<in> set (g_bps cn). length (bp_original b) = 4 \<and> (bp_used b \<longrightarrow> placed F b))"

lemma tidy_io [simp]:
  "tidy c F (cn\<lparr>g_quit := q\<rparr>) = tidy c F cn" "tidy c F (cn\<lparr>g_in := i\<rparr>) = tidy c F cn"
  "tidy c F (cn\<lparr>g_sends := e\<rparr>) = tidy c F cn" "tidy c F (cn\<lparr>g_polls := p\<rparr>) = tidy c F cn"
  "tidy c F (cn\<lparr>g_out := t\<rparr>) = tidy c F cn"
  by (simp_all add: tidy_def)

lemma tidy_session: "tidy c F cn \<Longrightarrow> bench c (with_traps (g_bps cn) F) s \<Longrightarrow> tidy c F (cn\<lparr>g_sess := s\<rparr>)"
  by (simp add: tidy_def)

lemma tidy_flash:
  assumes "tidy c F cn"
  shows "s_flash (world (g_sess cn)) = with_traps (g_bps cn) F" "length F = unat (flash_size c)"
  using assms bench_facts(4,8) [of c "with_traps (g_bps cn) F" "g_sess cn"] by (simp_all add: tidy_def)

text \<open>Any change of the link that leaves flash contents alone.\<close>

lemma safe_tidy_link:
  assumes "\<And>G. safe (bench c G) anyhow m"
  shows "safe (tidy c F) anyhow (on_link m)"
  unfolding safe_def
proof (intro allI impI)
  fix cn assume t: "tidy c F cn"
  then have "bench c (with_traps (g_bps cn) F) (g_sess cn)" by (simp add: tidy_def)
  from safeE [OF assms this] obtain r s where "m (g_sess cn) = Some (r, s)" "bench c (with_traps (g_bps cn) F) s"
    by blast
  then show "\<exists>r cn'. on_link m cn = Some (r, cn') \<and> tidy c F cn' \<and> (\<forall>e. r = Inl e \<longrightarrow> True)"
    using tidy_session [OF t] by (auto simp: on_link_def)
qed

section \<open>Taking breakpoints out\<close>

text \<open>A slot whose breakpoint has been taken out of flash.\<close>

lemma tidy_removed:
  assumes t: "tidy c F cn" and i: "i < length (g_bps cn)" "bp_used (g_bps cn ! i)"
  defines "b \<equiv> g_bps cn ! i"
  obtains s where
    "gdb_mem_patch c (bp_address b) (take (unat (bp_kind b)) (bp_original b)) (g_sess cn) = Some (Inr (), s)"
    "tidy c F (cn\<lparr>g_sess := s, g_bps := (g_bps cn)[i := b\<lparr>bp_used := False\<rparr>]\<rparr>)"
proof -
  let ?G = "with_traps (g_bps cn) F" and ?n = "unat (bp_kind b)"
  have m: "b \<in> set (g_bps cn)" using i(1) by (simp add: b_def)
  then have p: "placed F b" and l: "length (bp_original b) = 4" using t i(2) by (auto simp: tidy_def b_def)
  then have k: "bp_kind b = 2 \<or> bp_kind b = 4" and a: "bp_address b = FB_V + of_nat (spot b)"
    and al: "spot b mod ?n = 0" and room: "spot b < length F" "spot b + ?n \<le> length F"
    and orig: "take ?n (bp_original b) = take ?n (drop (spot b) F)"
    by (simp_all add: placed_def)
  have bench: "bench c ?G (g_sess cn)" using t by (simp add: tidy_def)
  have "length F \<le> 0x10000"
    using sim_flash.flash_ready_facts(4) [of c ?G "g_sess cn"] bench by (simp add: bench_def)
  then have "spot b mod 64 + ?n \<le> 64" using patch_address(2) [OF k al] room by simp
  moreover have "length (take ?n (bp_original b)) = ?n" "take ?n (bp_original b) \<noteq> []" using k l by auto
  ultimately obtain s where s: "gdb_mem_patch c (FB_V + of_nat (spot b)) (take ?n (bp_original b)) (g_sess cn) = Some (Inr (), s)"
    "bench c (write_at (spot b) (take ?n (bp_original b)) ?G) s"
    using bench_patch [OF bench, of "spot b" "take ?n (bp_original b)"] room by auto
  have "with_traps ((g_bps cn)[i := b\<lparr>bp_used := False\<rparr>]) F = write_at (spot b) (take ?n (bp_original b)) ?G"
    unfolding orig unfolding b_def
    by (rule with_traps_remove) (use i k room t in \<open>simp_all add: tidy_def b_def\<close>)
  moreover have "apart ((g_bps cn)[i := b\<lparr>bp_used := False\<rparr>])"
    using t by (intro apart_update) (simp_all add: tidy_def)
  moreover have "\<forall>x \<in> set ((g_bps cn)[i := b\<lparr>bp_used := False\<rparr>]). length (bp_original x) = 4 \<and> (bp_used x \<longrightarrow> placed F x)"
    using t l set_update_subset_insert [of "g_bps cn" i "b\<lparr>bp_used := False\<rparr>"] by (auto simp: tidy_def)
  ultimately show ?thesis using that [of s] s t a by (simp add: tidy_def)
qed

lemma safe_tidy_remove: "safe (tidy c F) anyhow (gdb_breakpoint_remove a k)"
  unfolding safe_def
proof (intro allI impI)
  fix cn assume t: "tidy c F cn"
  then have chip: "g_chip cn = c" by (simp add: tidy_def)
  let ?P = "\<lambda>b. bp_used b \<and> bp_address b = a \<and> bp_kind b = k"
  show "\<exists>r cn'. gdb_breakpoint_remove a k cn = Some (r, cn') \<and> tidy c F cn' \<and> (\<forall>e. r = Inl e \<longrightarrow> True)"
  proof (cases "first_slot ?P (g_bps cn)")
    case None
    then show ?thesis using t by (simp add: gdb_breakpoint_remove_def andThen_def)
  next
    case (Some i)
    from first_slot_Some [OF Some] have i: "i < length (g_bps cn)" "bp_used (g_bps cn ! i)"
      "bp_address (g_bps cn ! i) = a" "bp_kind (g_bps cn ! i) = k" by simp_all
    obtain s where s: "gdb_mem_patch c a (take (unat k) (bp_original (g_bps cn ! i))) (g_sess cn) = Some (Inr (), s)"
      "tidy c F (cn\<lparr>g_sess := s, g_bps := (g_bps cn)[i := (g_bps cn ! i)\<lparr>bp_used := False\<rparr>]\<rparr>)"
      using tidy_removed [OF t i(1,2)] unfolding i(3,4) by blast
    then show ?thesis using Some chip i(4)
      by (simp add: gdb_breakpoint_remove_def andThen_def attempt_def on_link_def set_slot_def)
  qed
qed

lemma tidy_clear_slot:
  assumes t: "tidy c F cn" and i: "i < length (g_bps cn)"
  obtains cn' where "clear_slot i cn = Some (Inr (), cn')" "tidy c F cn'"
    "g_bps cn' = (g_bps cn)[i := (g_bps cn ! i)\<lparr>bp_used := False\<rparr>]"
proof (cases "bp_used (g_bps cn ! i)")
  case False
  then have "(g_bps cn ! i)\<lparr>bp_used := False\<rparr> = g_bps cn ! i" by (cases "g_bps cn ! i") simp
  then have "(g_bps cn)[i := (g_bps cn ! i)\<lparr>bp_used := False\<rparr>] = g_bps cn" by simp
  moreover have "clear_slot i cn = Some (Inr (), cn)" using False by (simp add: clear_slot_def andThen_def)
  ultimately show ?thesis using that [of cn] t by simp
next
  case True
  from tidy_removed [OF t i True] obtain s where
    "gdb_mem_patch c (bp_address (g_bps cn ! i)) (take (unat (bp_kind (g_bps cn ! i))) (bp_original (g_bps cn ! i)))
       (g_sess cn) = Some (Inr (), s)"
    "tidy c F (cn\<lparr>g_sess := s, g_bps := (g_bps cn)[i := (g_bps cn ! i)\<lparr>bp_used := False\<rparr>]\<rparr>)"
    by blast
  moreover have "g_chip cn = c" using t by (simp add: tidy_def)
  ultimately show ?thesis using that True
    by (simp add: clear_slot_def andThen_def ignoring_def attempt_def on_link_def set_slot_def)
qed

lemma tidy_clear_slots:
  assumes "tidy c F cn" "\<forall>i \<in> set is. i < length (g_bps cn)"
  shows "\<exists>cn'. clear_slots is cn = Some (Inr (), cn') \<and> tidy c F cn' \<and> length (g_bps cn') = length (g_bps cn) \<and>
     (\<forall>i < length (g_bps cn). i \<in> set is \<or> \<not> bp_used (g_bps cn ! i) \<longrightarrow> \<not> bp_used (g_bps cn' ! i))"
  using assms
proof (induction "is" arbitrary: cn)
  case (Cons i "is")
  from tidy_clear_slot [OF Cons.prems(1), of i] Cons.prems(2)
  obtain c1 where c1: "clear_slot i cn = Some (Inr (), c1)" "tidy c F c1"
    "g_bps c1 = (g_bps cn)[i := (g_bps cn ! i)\<lparr>bp_used := False\<rparr>]" by auto
  with Cons.IH [OF c1(2)] Cons.prems(2) obtain c2 where
    "clear_slots is c1 = Some (Inr (), c2)" "tidy c F c2" "length (g_bps c2) = length (g_bps cn)"
    "\<forall>m < length (g_bps cn). m \<in> set is \<or> \<not> bp_used (g_bps c1 ! m) \<longrightarrow> \<not> bp_used (g_bps c2 ! m)"
    by auto
  moreover have "\<not> bp_used (g_bps c1 ! m)" if "m < length (g_bps cn)" "m = i \<or> \<not> bp_used (g_bps cn ! m)" for m
    using that c1(3) by (cases "m = i") simp_all
  ultimately show ?case using c1(1) by (intro exI [of _ c2]) (auto simp: andThen_def)
qed simp

lemma tidy_clear:
  assumes "tidy c F cn"
  obtains cn' where "gdb_breakpoints_clear cn = Some (Inr (), cn')" "tidy c F cn'"
    "\<forall>b \<in> set (g_bps cn'). \<not> bp_used b"
proof -
  have "length (g_bps cn) = GDB_MAX_BREAKPOINTS" using assms by (simp add: tidy_def)
  with tidy_clear_slots [OF assms, of "[0..<GDB_MAX_BREAKPOINTS]"] obtain cn' where
    "clear_slots [0..<GDB_MAX_BREAKPOINTS] cn = Some (Inr (), cn')" "tidy c F cn'"
    "length (g_bps cn') = GDB_MAX_BREAKPOINTS" "\<forall>i < GDB_MAX_BREAKPOINTS. \<not> bp_used (g_bps cn' ! i)"
    by auto
  then show ?thesis using that [of cn'] by (simp add: gdb_breakpoints_clear_def all_set_conv_all_nth)
qed

section \<open>Putting a breakpoint in\<close>

definition overlaps :: "u32 \<Rightarrow> u32 \<Rightarrow> gdb_breakpoint \<Rightarrow> bool" where
  "overlaps a k b \<longleftrightarrow>
     bp_used b \<and> unat a < unat (bp_address b) + unat (bp_kind b) \<and> unat (bp_address b) < unat a + unat k"

definition insertable :: "u32 \<Rightarrow> u32 \<Rightarrow> ('x, 'w) gdb_conn \<Rightarrow> bool" where
  "insertable a k cn \<longleftrightarrow>
     ((k = 2 \<or> k = 4) \<and> a mod k = 0 \<longrightarrow> in_flash (g_chip cn) a (unat k) \<and> list_all (\<lambda>b. \<not> overlaps a k b) (g_bps cn))"

lemma tidy_insert:
  assumes t: "tidy c F cn" and w: "insertable a k cn"
  obtains ok cn' where "gdb_breakpoint_insert a k cn = Some (Inr ok, cn')" "tidy c F cn'"
proof (cases "(k = 2 \<or> k = 4) \<and> a mod k = 0 \<and> first_slot (\<lambda>b. \<not> bp_used b) (g_bps cn) \<noteq> None")
  case False
  then have "gdb_breakpoint_insert a k cn = Some (Inr False, cn)"
    by (auto simp: gdb_breakpoint_insert_def andThen_def)
  then show ?thesis using that t by blast
next
  case True
  then have k: "k = 2 \<or> k = 4" "a mod k = 0" by simp_all
  from True obtain i where i: "first_slot (\<lambda>b. \<not> bp_used b) (g_bps cn) = Some i" by auto
  from first_slot_Some [OF i] have il: "i < length (g_bps cn)" "\<not> bp_used (g_bps cn ! i)" by simp_all
  let ?G = "with_traps (g_bps cn) F" and ?n = "unat k"
  have bench: "bench c ?G (g_sess cn)" and chip: "g_chip cn = c" and ap: "apart (g_bps cn)"
    and slots: "\<forall>b \<in> set (g_bps cn). length (bp_original b) = 4 \<and> (bp_used b \<longrightarrow> placed F b)"
    using t by (simp_all add: tidy_def)
  have F: "length F = unat (flash_size c)" by (rule tidy_flash(2) [OF t])
  have fl: "in_flash c a ?n" and ov: "\<And>b. b \<in> set (g_bps cn) \<Longrightarrow> \<not> overlaps a k b"
    using w k chip by (auto simp: insertable_def list_all_iff)
  from in_flash_offset [OF fl] obtain so where so: "a = FB_V + of_nat so" "so + ?n \<le> length F"
    "so = unat a - 0x08000000" unfolding F by blast
  have ua: "unat a = 0x08000000 + so" using fl so(3) by (simp add: in_flash_def)
  have r: "sim_flash.flash_ready c ?G (g_sess cn)" using bench by (simp add: bench_def)
  have al: "so mod ?n = 0"
  proof -
    have "unat a mod ?n = 0" using k(2) by (metis unat_0 unat_mod)
    moreover have "(0x08000000 :: nat) mod ?n = 0" using k(1) by auto
    ultimately show ?thesis unfolding ua by (metis mod_add_left_eq add_0)
  qed
  have lt: "so < length ?G" using so(2) k(1) by auto
  have len: "length (bp_original (g_bps cn ! i)) = 4" using slots il(1) by simp
  obtain s b where s: "gdb_breakpoint_insert a k cn = Some (Inr True, cn\<lparr>g_sess := s, g_bps := (g_bps cn)[i := b]\<rparr>)"
    "sim_flash.flash_ready c (write_at so (take ?n (replacement k)) ?G) s"
    "v_rest (sim_view (observed (world s))) = v_rest (sim_view (observed (world (g_sess cn))))"
    "bp_used b" "bp_address b = a" "bp_kind b = k" "length (bp_original b) = 4"
    "take ?n (bp_original b) = take ?n (drop so ?G)"
    using sim_flash.insert_flash_ok [OF r chip k(1) al lt i len] unfolding so(1) by blast
  have spot: "spot b = so" using s(5) so(3) by (simp add: spot_def)
  have sep: "\<not> (covers b m \<and> covers b' m)" if "b' \<in> set (g_bps cn)" for b' m
  proof
    assume c: "covers b m \<and> covers b' m"
    then have "placed F b'" using slots that by (simp add: covers_def)
    then have "unat (bp_address b') = 0x08000000 + spot b'"
      using sim_flash.flash_ready_facts(4) [OF r] by (auto simp: placed_def intro: unat_FB_V_plus)
    with c ov [OF that] spot s(4,6) ua show False by (auto simp: covers_def overlaps_def)
  qed
  have inside: "trapped (g_bps cn) m v = v" if "covers b m" for m v
    using that sep by (intro trapped_outside) blast
  have "take ?n (drop so ?G) = take ?n (drop so F)"
    using so(2) s(4,6) spot by (intro nth_equalityI) (auto simp: nth_with_traps inside covers_def)
  with s(8) have orig: "take ?n (bp_original b) = take ?n (drop so F)" by (rule trans)
  have "so < length F" using lt by simp
  then have "placed F b" unfolding placed_def spot s(5,6) using k(1) so(1,2) al orig by blast
  moreover have "with_traps ((g_bps cn)[i := b]) F = write_at so (take ?n (replacement k)) ?G"
    using with_traps_insert [OF il s(4) _ _ sep, of F] k(1) s(6) so(2) spot by simp
  moreover have "s_chip (world s) = s_chip (world (g_sess cn))" "s_ram (world s) = s_ram (world (g_sess cn))"
    using s(3) by (simp_all add: sim_view_def)
  moreover have "\<forall>x \<in> set ((g_bps cn)[i := b]). length (bp_original x) = 4 \<and> (bp_used x \<longrightarrow> placed F x)"
    using slots s(7) \<open>placed F b\<close> set_update_subset_insert [of "g_bps cn" i b] by auto
  moreover have "length (g_bps cn) = GDB_MAX_BREAKPOINTS" using t by (simp add: tidy_def)
  ultimately show ?thesis
    using that [OF s(1)] s(2) bench chip apart_update [OF ap sep, of i] by (simp add: tidy_def bench_def)
qed

end
