(* ===== verification/GdbSession.thy ===== *)
theory GdbSession
  imports GdbTraps SimRuns
begin

text \<open>
  A debugging session as a whole, on the simulated target: as long as the debugger keeps its
  breakpoints apart and stays within memory, the flash shows the trap instruction at the
  breakpoints that are in and is unchanged everywhere else, and it is as it was once the client has gone.
\<close>

section \<open>Handlers\<close>

lemma safe_tidy_io: "safe (tidy c F) anyhow (gdb_send_packet p)" "safe (tidy c F) anyhow (gdb_send_text p)"
  "safe (tidy c F) anyhow (gdb_send_stop n)" "safe (tidy c F) anyhow (gdb_send_output t)"
proof -
  show p: "safe (tidy c F) anyhow (gdb_send_packet p)" for p
    unfolding gdb_send_packet_def by (rule safe_updates) (auto split: prod.splits)
  then show t: "safe (tidy c F) anyhow (gdb_send_text p)" for p by (simp add: gdb_send_text_def)
  then show "safe (tidy c F) anyhow (gdb_send_stop n)" by (simp add: gdb_send_stop_def)
  have "safe (tidy c F) anyhow (send_chunks t)" for t
  proof (induction t rule: send_chunks.induct)
    case (1 t)
    then show ?case by (subst send_chunks.simps) (auto simp: Let_def intro!: safe_intro p)
  qed
  then show "safe (tidy c F) anyhow (gdb_send_output t)" by (simp add: gdb_send_output_def)
qed

lemma safe_tidy_try:
  assumes "\<And>G. safe (bench c G) anyhow m" "\<And>r. safe (tidy c F) anyhow (f r)"
  shows "safe (tidy c F) anyhow (attempt (on_link m) f)"
  using safe_tidy_link [OF assms(1)] assms(2) by (rule safe_attempt)

lemma safe_tidy_ignored:
  "(\<And>G. safe (bench c G) anyhow m) \<Longrightarrow> safe (tidy c F) anyhow (on_link (ignoring m))"
  by (intro safe_tidy_link safe_ignoring)

lemmas safe_tidy_steps =
  safe_if safe_andThen safe_ret safe_case_option safe_case_sum safe_case_prod safe_reads
  safe_tidy_io safe_tidy_try safe_tidy_ignored safe_bench_registers safe_bench_control safe_bench_read

lemma safe_tidy_registers:
  "safe (tidy c F) anyhow gdb_handle_g" "safe (tidy c F) anyhow (gdb_handle_p t)"
  "safe (tidy c F) anyhow step_target"
proof -
  have gs: "safe (bench c G) anyhow (read_gprs rs)" for rs G
    by (induction rs) (auto intro!: safe_andThen safe_bench_registers safe_ret simp del: ret_apply)
  show "safe (tidy c F) anyhow gdb_handle_g"
    unfolding gdb_handle_g_def by (intro safe_tidy_steps gs)
  show "safe (tidy c F) anyhow (gdb_handle_p t)"
    unfolding gdb_handle_p_def by (intro safe_tidy_steps)
  show "safe (tidy c F) anyhow step_target"
    unfolding step_target_def by (intro safe_tidy_steps)
qed

lemma safe_tidy_monitor:
  "safe (tidy c F) anyhow gdb_monitor_help" "safe (tidy c F) anyhow gdb_monitor_regs"
  "safe (tidy c F) anyhow gdb_monitor_info" "safe (tidy c F) anyhow monitor_reset"
  "safe (tidy c F) anyhow monitor_halt"
proof -
  have v: "safe (tidy c F) anyhow (show_value t m)" if "\<And>G. safe (bench c G) anyhow m" for t m
    unfolding show_value_def using that by (intro safe_tidy_steps)
  have g: "safe (tidy c F) anyhow (monitor_gprs rs m)" if "safe (tidy c F) anyhow m" for rs m
    using that by (induction rs) (auto intro!: safe_tidy_steps)
  have w: "safe (bench c G) anyhow (wl_linke_dmi_write WL_DMI_DMCONTROL x)" for x G
    by (rule safe_bench_write) (simp add: dmi_regs)
  show "safe (tidy c F) anyhow gdb_monitor_help" by (simp add: gdb_monitor_help_def safe_tidy_io)
  show "safe (tidy c F) anyhow gdb_monitor_regs"
    unfolding gdb_monitor_regs_def by (intro g safe_tidy_steps)
  show "safe (tidy c F) anyhow gdb_monitor_info"
    unfolding gdb_monitor_info_def by (intro safe_andThen v safe_bench_registers safe_bench_read)
  show "safe (tidy c F) anyhow monitor_reset"
    unfolding monitor_reset_def by (intro safe_tidy_steps w)
  show "safe (tidy c F) anyhow monitor_halt"
    unfolding monitor_halt_def by (intro safe_tidy_steps)
qed

section \<open>Waiting for the target\<close>

lemma keeps_tidy_continue: "keeps (tidy c F) continue_target"
proof -
  have poll: "keeps (tidy c F) poll_socket"
    by (rule keepsI) (auto simp: poll_socket_def Let_def split: if_splits prod.splits)
  have "keeps (tidy c F) gdb_wait_for_stop"
    by (intro keeps_waiting poll safe_tidy_steps safe_tidy_link safe_bench_halted)
  moreover have "keeps (tidy c F) (gdb_send_text ''E01'')" by (rule safe_keeps [OF safe_tidy_io(2)])
  ultimately have "keeps (tidy c F) (case r of Inl e \<Rightarrow> gdb_send_text ''E01'' | Inr u \<Rightarrow> gdb_wait_for_stop)"
    for r :: "wl_status + unit" by (cases r) simp_all
  then show ?thesis
    unfolding continue_target_def
    by (intro keeps_attempt safe_keeps [OF safe_tidy_link [OF safe_bench_control(4)]])
qed

section \<open>Orderly packets\<close>

text \<open>What the handlers read from breakpoint and memory packets.\<close>

definition breakpoint_request :: "string \<Rightarrow> (u32 \<times> u32) option" where
  "breakpoint_request p =
     (if p ! 1 \<noteq> CHR ''0'' then None
      else case number_then (CHR '','') (cstr (drop 3 p)) of
          None \<Rightarrow> None
        | Some (address, rest) \<Rightarrow> map_option (Pair address) (number rest))"

definition memory_request :: "string \<Rightarrow> (u32 \<times> nat) option" where
  "memory_request p =
     (case number_then (CHR '','') (cstr (drop 1 p)) of
        None \<Rightarrow> None
      | Some (address, rest) \<Rightarrow>
          (if p ! 0 = CHR ''m'' then map_option (\<lambda>n. (address, unat n)) (number rest)
           else map_option (\<lambda>(n, hex). (address, unat n)) (number_then (CHR '':'') rest)))"

text \<open>
  A monitor command that reaches no memory: the words and their arguments are taken apart as the
  server does, and the number of a CSR must not set the bit of the abstract command that runs the program
  buffer, which the server does not rule out.
\<close>

definition harmless :: "string \<Rightarrow> bool" where
  "harmless command =
     (let w0 = strtok (cstr command); word = map_option fst w0; arg = map_option fst (next_word w0) in
      word \<noteq> Some ''read32'' \<and> word \<noteq> Some ''write32'' \<and>
      (word = Some ''getcsr'' \<or> word = Some ''setcsr'' \<longrightarrow>
        (case arg of None \<Rightarrow> True
         | Some t \<Rightarrow> (case number t of None \<Rightarrow> True | Some csr \<Rightarrow> \<not> bit csr 18))))"

text \<open>
  The debugger does not put a breakpoint where it has one, puts breakpoints in flash, stays within
  flash and RAM, writes to RAM only, and uses harmless monitor commands.
\<close>

definition orderly :: "string \<Rightarrow> ('x, 'w) gdb_conn \<Rightarrow> bool" where
  "orderly p cn \<longleftrightarrow>
     (if p ! 0 = CHR ''Z'' then
        (case breakpoint_request p of None \<Rightarrow> True | Some (a, k) \<Rightarrow> insertable a k cn)
      else if p ! 0 = CHR ''m'' then
        (case memory_request p of None \<Rightarrow> True | Some (a, n) \<Rightarrow> in_flash (g_chip cn) a n \<or> in_ram (g_chip cn) a n)
      else if p ! 0 = CHR ''M'' then
        (case memory_request p of None \<Rightarrow> True | Some (a, n) \<Rightarrow> in_ram (g_chip cn) a n)
      else if p ! 0 = CHR ''q'' then
        (case gdb_decode_hex_string (cstr (drop 6 p)) 256 of None \<Rightarrow> True | Some command \<Rightarrow> harmless command)
      else True)"

lemma parse_bytes_length: "parse_hex_bytes t n = Some bs \<Longrightarrow> length bs = n"
proof (induction t n arbitrary: bs rule: parse_hex_bytes.induct)
qed (auto split: option.splits list.splits)

lemma safe_tidy_memory:
  assumes "\<And>a n. memory_request p = Some (a, n) \<Longrightarrow> in_flash c a n \<or> in_ram c a n" "p ! 0 = CHR ''m''"
  shows "safe (tidy c F) anyhow (gdb_handle_m p)"
proof -
  have "number_then (CHR '','') (cstr (drop 1 p)) = Some (a, rest) \<Longrightarrow> number rest = Some n \<Longrightarrow>
      in_flash c a (unat n) \<or> in_ram c a (unat n)" for a rest n
    using assms by (simp add: memory_request_def)
  then show ?thesis
    unfolding gdb_handle_m_def by (intro safe_tidy_steps safe_bench_read_block) blast+
qed

lemma safe_tidy_store:
  assumes "\<And>a n. memory_request p = Some (a, n) \<Longrightarrow> in_ram c a n" "p ! 0 = CHR ''M''"
  shows "safe (tidy c F) anyhow (gdb_handle_M p)"
proof -
  have "number_then (CHR '','') (cstr (drop 1 p)) = Some (a, rest) \<Longrightarrow>
      number_then (CHR '':'') rest = Some (n, hex) \<Longrightarrow> parse_hex_bytes hex (unat n) = Some bs \<Longrightarrow>
      in_ram c a (length bs)" for a rest n hex bs
    using assms by (simp add: memory_request_def parse_bytes_length)
  then show ?thesis
    unfolding gdb_handle_M_def by (intro safe_tidy_steps safe_bench_write_bytes) blast+
qed

lemma safe_bench_csr:
  assumes "\<not> bit n 18"
  shows "safe (bench c G) anyhow (wl_dm_csr_read n)" "safe (bench c G) anyhow (wl_dm_csr_write n v)"
proof -
  have "\<not> bit WL_DM_CMD_GPR_BASE 18" "\<not> bit WL_DM_CMD_TRANSFER 18" "\<not> bit WL_DM_CMD_WRITE 18"
    by code_simp+
  then have "\<not> bit (WL_DM_CMD_GPR_BASE OR WL_DM_CMD_TRANSFER OR n) 18"
    "\<not> bit (WL_DM_CMD_GPR_BASE OR WL_DM_CMD_TRANSFER OR n OR WL_DM_CMD_WRITE) 18"
    using assms by (simp_all add: bit_or_iff)
  then show "safe (bench c G) anyhow (wl_dm_csr_read n)" "safe (bench c G) anyhow (wl_dm_csr_write n v)"
    unfolding wl_dm_csr_read_def wl_dm_csr_write_def dm_csr_access_def Let_def
    by (intro safe_andThen safe_ret safe_bench_command; simp add: or.assoc)+
qed

lemma safe_tidy_harmless:
  assumes "harmless command"
  shows "safe (tidy c F) anyhow (gdb_monitor_command command)"
proof -
  let ?w0 = "strtok (cstr command)"
  let ?word = "map_option fst ?w0" and ?arg = "map_option fst (next_word ?w0)"
  have no: "?word \<noteq> Some ''read32''" "?word \<noteq> Some ''write32''"
    using assms by (simp_all add: harmless_def Let_def)
  have csr: "\<not> bit n 18" if "?word = Some ''getcsr'' \<or> ?word = Some ''setcsr''" "?arg \<noteq> None"
      "number (the ?arg) = Some n" for n
    using assms that by (auto simp: harmless_def Let_def simp del: not_None_eq split: option.splits)
  have get: "safe (tidy c F) anyhow (monitor_get w (the ?arg) wl_dm_csr_read l)"
    if "?word = Some ''getcsr''" "?arg \<noteq> None" for w l
    unfolding monitor_get_def using csr that by (intro safe_tidy_steps safe_bench_csr) blast
  have set: "safe (tidy c F) anyhow (monitor_set w (the ?arg) v wl_dm_csr_write)"
    if "?word = Some ''setcsr''" "?arg \<noteq> None" for w v
    unfolding monitor_set_def using csr that by (intro safe_tidy_steps safe_bench_csr) blast
  show ?thesis unfolding gdb_monitor_command_def Let_def
    by (intro safe_tidy_steps safe_tidy_monitor get set; (simp only: no simp_thms | elim conjE, assumption))
qed

lemma safe_tidy_query:
  assumes "\<And>command. gdb_decode_hex_string (cstr (drop 6 p)) 256 = Some command \<Longrightarrow> harmless command"
  shows "safe (tidy c F) anyhow (gdb_handle_query p)"
proof -
  have "safe (tidy c F) anyhow (gdb_handle_qxfer p)"
    unfolding gdb_handle_qxfer_def gdb_qxfer_reply_def by (intro safe_tidy_steps)
  moreover have "safe (tidy c F) anyhow (gdb_handle_qRcmd p)"
    unfolding gdb_handle_qRcmd_def using assms by (intro safe_tidy_steps safe_tidy_harmless) blast
  ultimately show ?thesis unfolding gdb_handle_query_def Let_def by (intro safe_tidy_steps)
qed

section \<open>Every orderly packet keeps the invariant\<close>

lemma breakpoint_packet_request:
  "breakpoint_packet p =
     (case breakpoint_request p of
        None \<Rightarrow> gdb_send_text []
      | Some (a, k) \<Rightarrow>
          andThen (if p ! 0 = CHR ''Z'' then gdb_breakpoint_insert a k else gdb_breakpoint_remove a k)
            (\<lambda>ok. gdb_send_text (if ok then ''OK'' else [])))"
  by (auto simp: breakpoint_packet_def breakpoint_request_def split: option.split)

lemma tidy_breakpoint_packet:
  assumes "tidy c F cn" "p ! 0 = CHR ''Z'' \<Longrightarrow> orderly p cn"
  shows "\<exists>r cn'. breakpoint_packet p cn = Some (r, cn') \<and> tidy c F cn'"
proof -
  have send: "\<exists>r cn'. gdb_send_text t c1 = Some (r, cn') \<and> tidy c F cn'" if "tidy c F c1" for t c1
    using safeE [OF safe_tidy_io(2) that] by metis
  consider "breakpoint_request p = None" | a k where "breakpoint_request p = Some (a, k)" by fastforce
  then show ?thesis
  proof cases
    case 1
    then show ?thesis using send assms(1) by (simp add: breakpoint_packet_request)
  next
    case (2 a k)
    show ?thesis
    proof (cases "p ! 0 = CHR ''Z''")
      case True
      then have "insertable a k cn" using assms(2) 2 by (simp add: orderly_def)
      from tidy_insert [OF assms(1) this] obtain ok c1 where
        "gdb_breakpoint_insert a k cn = Some (Inr ok, c1)" "tidy c F c1" .
      then show ?thesis using send 2 True by (simp add: breakpoint_packet_request andThen_def)
    next
      case False
      have "safe (tidy c F) anyhow (breakpoint_packet p)"
        using False 2 by (simp add: breakpoint_packet_request) (intro safe_tidy_steps safe_tidy_remove)
      from safeE [OF this assms(1)] show ?thesis by blast
    qed
  qed
qed

lemma safe_tidy_clear: "safe (tidy c F) anyhow gdb_breakpoints_clear"
  unfolding safe_def by (metis tidy_clear)

lemma keeps_tidy_packet:
  assumes "p ! 0 \<noteq> CHR ''Z''" "p ! 0 \<noteq> CHR ''m''" "p ! 0 \<noteq> CHR ''M''" "p ! 0 \<noteq> CHR ''q''"
  shows "keeps (tidy c F) (gdb_handle_packet p)"
proof -
  have quit: "safe (tidy c F) anyhow (updates (\<lambda>cn. cn\<lparr>g_quit := True\<rparr>))" by (rule safe_updates) simp
  have z: "safe (tidy c F) anyhow (breakpoint_packet p)" if "p ! 0 = CHR ''z''"
    using tidy_breakpoint_packet [of c F _ p] assms(1) by (auto simp: safe_def)
  have c: "keeps (tidy c F) (andDo continue_target (ret True))"
    by (intro keeps_andThen keeps_tidy_continue) (rule safe_keeps [OF safe_ret [where H = anyhow]])
  show ?thesis
  proof (cases "continues p")
    case True
    then have "gdb_handle_packet p = (andDo continue_target (ret True) :: (unit, wl_sim, bool) gprog)"
      by (auto simp: continues_def gdb_handle_packet_def Let_def cstr_def)
    with c show ?thesis by simp
  next
    case False
    then have no: "p ! 0 \<noteq> CHR ''c''"
      and v: "p ! 0 = CHR ''v'' \<Longrightarrow> take 6 (cstr p) = ''vCont;'' \<Longrightarrow> p ! 6 = CHR ''s'' \<or> p ! 6 = CHR ''S''"
      by (auto simp: continues_def)
    have cont: "safe (tidy c F) anyhow continue_target"
      if "p ! 0 = CHR ''v''" "take 6 (cstr p) = ''vCont;''" "\<not> (p ! 6 = CHR ''s'' \<or> p ! 6 = CHR ''S'')"
      using that v by blast
    have "safe (tidy c F) anyhow (gdb_handle_packet p)"
      using assms no unfolding gdb_handle_packet_def Let_def
      by (intro safe_tidy_steps safe_tidy_registers safe_tidy_clear quit z cont) simp_all
    then show ?thesis by (rule safe_keeps)
  qed
qed

lemma tidy_packet:
  assumes t: "tidy c F cn" and o: "orderly p cn" and run: "gdb_handle_packet p cn = Some (r, cn')"
  shows "tidy c F cn'"
proof -
  have chip: "g_chip cn = c" using t by (simp add: tidy_def)
  have one: "tidy c F cn'" if "gdb_handle_packet p = andDo m (ret True)" "\<exists>r c1. m cn = Some (r, c1) \<and> tidy c F c1" for m
    using that run by (auto simp: andThen_def split: sum.splits)
  have safe: "\<exists>r c1. m cn = Some (r, c1) \<and> tidy c F c1" if "safe (tidy c F) anyhow m" for m :: "(unit, wl_sim, unit) gprog"
    using safeE [OF that t] by metis
  consider "p ! 0 = CHR ''Z''" | "p ! 0 = CHR ''m''" | "p ! 0 = CHR ''M''" | "p ! 0 = CHR ''q''"
    | "p ! 0 \<notin> {CHR ''Z'', CHR ''m'', CHR ''M'', CHR ''q''}" by blast
  then show ?thesis
  proof cases
    case 1
    then have "gdb_handle_packet p = andDo (breakpoint_packet p) (ret True)"
      by (simp add: gdb_handle_packet_def)
    then show ?thesis using one tidy_breakpoint_packet [OF t] o by blast
  next
    case 2
    then have "safe (tidy c F) anyhow (gdb_handle_m p)"
      using o chip by (intro safe_tidy_memory) (auto simp: orderly_def)
    moreover have "gdb_handle_packet p = andDo (gdb_handle_m p) (ret True)"
      using 2 by (simp add: gdb_handle_packet_def)
    ultimately show ?thesis using one safe by blast
  next
    case 3
    then have "safe (tidy c F) anyhow (gdb_handle_M p)"
      using o chip by (intro safe_tidy_store) (auto simp: orderly_def)
    moreover have "gdb_handle_packet p = andDo (gdb_handle_M p) (ret True)"
      using 3 by (simp add: gdb_handle_packet_def)
    ultimately show ?thesis using one safe by blast
  next
    case 4
    then have "safe (tidy c F) anyhow (gdb_handle_query p)"
      using o by (intro safe_tidy_query) (simp add: orderly_def)
    moreover have "gdb_handle_packet p = andDo (gdb_handle_query p) (ret True)"
      using 4 by (simp add: gdb_handle_packet_def)
    ultimately show ?thesis using one safe by blast
  next
    case 5
    then show ?thesis using keepsD [OF keeps_tidy_packet run t] by simp
  qed
qed

section \<open>Turns of the server's loop\<close>

text \<open>
  One turn takes a packet from the client and handles it.  The buffer of the packets goes along: it
  keeps what earlier packets have left behind the new one.
\<close>

inductive turn :: "string \<times> (unit, wl_sim) gdb_conn \<Rightarrow> string \<times> (unit, wl_sim) gdb_conn \<Rightarrow> bool" where
  turn: "\<not> g_quit cn \<Longrightarrow> gdb_recv_packet GDB_PACKET_MAX cn = Some (Inr (Some payload), c1) \<Longrightarrow>
    p = write_at 0 (payload @ [CHR 0x00]) buf \<Longrightarrow> orderly p c1 \<Longrightarrow>
    gdb_handle_packet p c1 = Some (Inr on, c2) \<Longrightarrow> turn (buf, cn) (p, c2)"

inductive_cases turnE: "turn (buf, cn) (buf', cn')"

lemma tidy_recv:
  assumes "tidy c F cn" "gdb_recv_packet n cn = Some (r, c1)"
  shows "tidy c F c1"
  using assms by (auto simp: gdb_recv_packet_def split: prod.splits)

lemma turn_tidy: "turn (buf, cn) (buf', cn') \<Longrightarrow> tidy c F cn \<Longrightarrow> tidy c F cn'"
  by (elim turnE) (metis tidy_recv tidy_packet)

lemma turn_serve: "turn (buf, cn) (buf', cn') \<Longrightarrow> serve buf cn = serve buf' cn'"
  by (elim turnE) (subst serve.simps, simp add: andThen_def)

lemma turns_tidy:
  assumes "rtranclp turn (buf, cn) (buf', cn')" "tidy c F cn"
  shows "tidy c F cn'" and "serve buf cn = serve buf' cn'"
  using assms
proof (induction rule: rtranclp_induct2)
  case (step b1 c1 b2 c2)
  { case 1 then show ?case using step turn_tidy by metis }
  { case 2 then show ?case using step turn_serve by metis }
qed simp_all

text \<open>The client has gone: the connection is to be given up, or nothing more can be received.\<close>

definition gone :: "('x, 'w) gdb_conn \<Rightarrow> bool" where
  "gone cn \<longleftrightarrow> g_quit cn \<or> fst (receive (g_in cn) GDB_PACKET_MAX) = None"

lemma serve_gone:
  assumes "tidy c F cn" "gone cn"
  obtains cn' where "serve buf cn = Some (Inr (), cn')" "tidy c F cn'"
proof (cases "g_quit cn")
  case True
  then show ?thesis using that [of cn] assms(1) by (simp add: serve.simps)
next
  case False
  have "\<exists>c1. gdb_recv_packet GDB_PACKET_MAX cn = Some (Inr (fst (receive (g_in cn) GDB_PACKET_MAX)), c1)"
    by (simp add: gdb_recv_packet_def split: prod.split)
  then obtain c1 where c1: "gdb_recv_packet GDB_PACKET_MAX cn = Some (Inr None, c1)"
    using assms(2) False by (auto simp: gone_def)
  then have "serve buf cn = Some (Inr (), c1)" using False by (simp add: serve.simps andThen_def)
  then show ?thesis using that tidy_recv [OF assms(1) c1] by blast
qed

section \<open>From the start of the server to the end of the session\<close>

definition connected ::
  "('x, 'w) sess \<Rightarrow> wl_chip_t \<Rightarrow> recv_event list \<times> send_event list \<times> bool list \<Rightarrow> ('x, 'w) gdb_conn" where
  "connected s chip client =
     (case client of (es, ss, ps) \<Rightarrow>
       \<lparr>g_sess = s, g_chip = chip, g_quit = False,
        g_bps = replicate GDB_MAX_BREAKPOINTS no_breakpoint,
        g_in = es, g_sends = ss, g_polls = ps, g_out = []\<rparr>)"

lemma connected_tidy:
  assumes "bench c F s"
  shows "tidy c F (connected s c client)"
proof -
  have "g_bps (connected s c client) = replicate GDB_MAX_BREAKPOINTS no_breakpoint"
    "g_sess (connected s c client) = s" "g_chip (connected s c client) = c"
    by (simp_all add: connected_def split: prod.split)
  moreover have "with_traps (replicate GDB_MAX_BREAKPOINTS no_breakpoint) F = F"
    by (rule with_no_traps) (simp add: no_breakpoint_def)
  ultimately show ?thesis
    using assms by (simp add: tidy_def apart_def covers_def no_breakpoint_def)
qed

lemma not_configured: "lk_configured (link (sim_session w)) = False"
  by (simp add: sim_session_def wl_linke_attach_transport_def)

lemma bench_holds:
  assumes "sim_link.plugged s" "target_holds c F (world s)" "s_configured (world s)"
    and "c \<in> set chips" "algo c = WL_FLASH_CH32V0" "length (s_ram (world s)) = unat (ram_size c)"
  shows "bench c F s"
proof -
  have "v_flash (sim_view (observed (world s))) = F" using assms(2) by (simp add: target_holds_def sim_view_def)
  then show ?thesis
    using assms chip_okD [OF assms(4)]
    by (simp add: bench_def sim_flash.flash_ready_def target_holds_def sim_target.live_def)
qed

lemma prepare_bench:
  assumes p: "sim_link.plugged s" "\<not> lk_configured (link s)" and w: "target_holds c F (world s)"
    and c: "c \<in> set chips" "algo c = WL_FLASH_CH32V0" "length (s_ram (world s)) = unat (ram_size c)"
  obtains s' where "gdb_prepare c s = Some (Inr (), s')" "bench c F s'"
proof -
  let ?s1 = "s\<lparr>link := (link s)\<lparr>lk_chip_id := linke_id c, lk_configured := True\<rparr>,
    world := sim_iface (linke_id c) (interface_speed c) (world s)\<rparr>"
  let ?s2 = "?s1\<lparr>world := sim_ctl 0x0d 0x02 (world ?s1)\<rparr>"
  have set: "wl_linke_set_interface (Some c) s = Some (Inr (), ?s1)"
    using sim_link.set_interface_ok [OF p(1), of c] p(2) by simp
  have halt: "wl_linke_halt ?s1 = Some (Inr (), ?s2)"
    using sim_link.halt_ok [of ?s1] p(1) by (simp add: sim_link.plugged_def)
  have o: "observed (world ?s2) = observed (world s)"
    by (simp add: sim_idle_control)
  have t: "target_holds c F (world ?s2)" using target_holds_observed [OF o] w by simp
  have "s_ram (world ?s2) = s_ram (world s)" using o observed_fields(3) by metis
  moreover have "s_configured (world ?s2)"
    by (simp add: sim_iface_def sim_link.ready_ctl)
  moreover have "sim_link.plugged ?s2" using p(1) by (simp add: sim_link.plugged_def)
  ultimately have b: "bench c F ?s2"
    using t c by (intro bench_holds) simp_all
  have never: "safe (bench c F) (\<lambda>_. False) (ignoring m)" if "safe (bench c F) anyhow m"
    for m :: "(unit, wl_sim, unit) lprog"
    unfolding ignoring_def using that by (rule safe_attempt) (rule safe_ret)
  have "safe (bench c F) (\<lambda>_. False) (andDo (ignoring gdb_dm_halt)
      (andDo (ignoring gdb_dm_wait_halted) (ignoring gdb_dm_enable_ebreak)))"
    by (intro safe_andThen never safe_bench_control)
  from safeE [OF this b] obtain r s' where "andDo (ignoring gdb_dm_halt)
      (andDo (ignoring gdb_dm_wait_halted) (ignoring gdb_dm_enable_ebreak)) ?s2 = Some (r, s')" "bench c F s'"
    "\<And>e. r = Inl e \<Longrightarrow> False" by blast
  then have "andDo (ignoring gdb_dm_halt)
      (andDo (ignoring gdb_dm_wait_halted) (ignoring gdb_dm_enable_ebreak)) ?s2 = Some (Inr (), s')" "bench c F s'"
    by (cases r; simp)+
  then show ?thesis using that [of s'] set halt by (simp add: gdb_prepare_def andThen_def)
qed

lemma new_bench:
  assumes "c \<in> set chips" "algo c = WL_FLASH_CH32V0" "wl_sim_new (Some c) = Some w" "length F = unat (flash_size c)"
  obtains s where "gdb_prepare c (sim_session (w\<lparr>s_flash := F\<rparr>)) = Some (Inr (), s)" "bench c F s"
  by (rule prepare_bench [of "sim_session (w\<lparr>s_flash := F\<rparr>)" c F])
    (use assms new_target [OF assms] new_sim [OF assms(3)] in \<open>simp_all add: not_configured\<close>)

section \<open>Properties of a session\<close>

text \<open>C6: on any part with the CH32V00x flash controller the server gets ready, and in every state
  that a session of orderly packets then reaches, whatever the client's socket does, the
  flash shows the trap instruction exactly at the breakpoints that are in and holds its own
  bytes everywhere else; no two breakpoints share a byte, and the table has saved what lies
  below each of them.\<close>

theorem session_shows_traps:
  assumes "c \<in> set chips" "algo c = WL_FLASH_CH32V0" "wl_sim_new (Some c) = Some w" "length F = unat (flash_size c)"
  shows "\<exists>s. gdb_prepare c (sim_session (w\<lparr>s_flash := F\<rparr>)) = Some (Inr (), s) \<and>
     (\<forall>buf cn. rtranclp turn (stack, connected s c client) (buf, cn) \<longrightarrow>
        s_flash (world (g_sess cn)) = with_traps (g_bps cn) F \<and> apart (g_bps cn) \<and>
        (\<forall>b \<in> set (g_bps cn). bp_used b \<longrightarrow> placed F b))"
proof -
  obtain s where s: "gdb_prepare c (sim_session (w\<lparr>s_flash := F\<rparr>)) = Some (Inr (), s)" "bench c F s"
    by (rule new_bench [OF assms])
  have "s_flash (world (g_sess cn)) = with_traps (g_bps cn) F \<and> apart (g_bps cn) \<and>
      (\<forall>b \<in> set (g_bps cn). bp_used b \<longrightarrow> placed F b)"
    if "rtranclp turn (stack, connected s c client) (buf, cn)" for buf cn
  proof -
    from turns_tidy(1) [OF that connected_tidy [OF s(2)]] have "tidy c F cn" .
    then show ?thesis using tidy_flash(1) by (simp add: tidy_def)
  qed
  with s(1) show ?thesis by blast
qed

text \<open>C5: a debugging session of orderly packets (breakpoints in flash that do not overlap, reads
  inside flash or RAM, M packets inside RAM, and no monitor command that reaches memory)
  leaves the flash as it found it: the server gets ready, and once the client has asked to
  be let go or its connection is lost, the server's run ends with success and every byte of
  the flash is what it was before the server started, however many breakpoints were still
  in.\<close>

theorem session_restores_flash:
  assumes "c \<in> set chips" "algo c = WL_FLASH_CH32V0" "wl_sim_new (Some c) = Some w" "length F = unat (flash_size c)"
    and "ge_listens env" "ge_client env = Some client"
  shows "\<exists>s. gdb_prepare c (sim_session (w\<lparr>s_flash := F\<rparr>)) = Some (Inr (), s) \<and>
     (\<forall>buf cn. rtranclp turn (ge_stack env, connected s c client) (buf, cn) \<longrightarrow> gone cn \<longrightarrow>
        (\<exists>out s'. andDo (gdb_prepare c) (gdb_accept env c) (sim_session (w\<lparr>s_flash := F\<rparr>)) = Some (Inr out, s') \<and>
           s_flash (world s') = F))"
proof -
  obtain s where s: "gdb_prepare c (sim_session (w\<lparr>s_flash := F\<rparr>)) = Some (Inr (), s)" "bench c F s"
    by (rule new_bench [OF assms(1-4)])
  have "\<exists>out s'. gdb_accept env c s = Some (Inr out, s') \<and> s_flash (world s') = F"
    if "rtranclp turn (ge_stack env, connected s c client) (buf, cn)" "gone cn" for buf cn
  proof -
    note t = turns_tidy [OF that(1) connected_tidy [OF s(2)]]
    from serve_gone [OF t(1) that(2)] obtain c1 where c1: "serve buf cn = Some (Inr (), c1)" "tidy c F c1" .
    from tidy_clear [OF c1(2)] obtain c2 where c2: "gdb_breakpoints_clear c1 = Some (Inr (), c2)" "tidy c F c2"
      "\<forall>b \<in> set (g_bps c2). \<not> bp_used b" .
    have "andDo (serve (ge_stack env)) gdb_breakpoints_clear (connected s c client) = Some (Inr (), c2)"
      using t(2) c1(1) c2(1) by (simp add: andThen_def)
    then have "gdb_accept env c s = Some (Inr (g_out c2), g_sess c2)"
      using assms(5,6) by (cases client) (simp add: gdb_accept_def serve_client_def connected_def)
    moreover have "s_flash (world (g_sess c2)) = F"
      using tidy_flash(1) [OF c2(2)] with_no_traps [of "g_bps c2" F] c2(3) by simp
    ultimately show ?thesis by blast
  qed
  with s(1) show ?thesis by (simp add: andThen_def)
qed

section \<open>A session with one breakpoint\<close>

text \<open>The client puts a breakpoint in, acknowledges the answer and is gone.\<close>

definition one_request :: "recv_event list \<times> send_event list \<times> bool list" where
  "one_request = (map Arrived (framed ''Z0,8000010,2'' @ ''+''), [], [])"

definition one_stack :: string where
  "one_stack = replicate 16 (CHR 0x00)"

definition one_payload :: string where
  "one_payload = write_at 0 (''Z0,8000010,2'' @ [CHR 0x00]) one_stack"

lemma one_received:
  "receive (fst one_request) GDB_PACKET_MAX = (Some ''Z0,8000010,2'', ''+'', [Arrived (CHR ''+'')])"
  "one_payload ! 0 = CHR ''Z''" "breakpoint_request one_payload = Some (0x08000010, 2)"
  by code_simp+

lemma one_turn:
  assumes "bench (hd chips) F s"
  shows "\<exists>cn. turn (one_stack, connected s (hd chips) one_request) (one_payload, cn) \<and> g_in cn = [] \<and>
     (\<exists>b. g_bps cn = b # replicate 7 no_breakpoint \<and> bp_used b \<and> bp_address b = 0x08000010 \<and> bp_kind b = 2)"
proof -
  let ?c0 = "connected s (hd chips) one_request"
  let ?c1 = "?c0\<lparr>g_in := [Arrived (CHR ''+'')], g_out := ''+''\<rparr>"
  have c0: "g_in ?c0 = fst one_request" "g_sends ?c0 = []" "g_out ?c0 = []" "\<not> g_quit ?c0" "g_sess ?c0 = s"
    "g_chip ?c0 = hd chips" "g_bps ?c0 = replicate 8 no_breakpoint"
    by (simp_all add: connected_def one_request_def GDB_MAX_BREAKPOINTS_def)
  have recv: "gdb_recv_packet GDB_PACKET_MAX ?c0 = Some (Inr (Some ''Z0,8000010,2''), ?c1)"
    by (simp add: gdb_recv_packet_def c0 one_received)
  have bps: "g_bps ?c1 = no_breakpoint # replicate 7 no_breakpoint" by (simp add: c0(7) numeral_eq_Suc)
  have u: "\<not> bp_used no_breakpoint" "length (bp_original no_breakpoint) = 4" by (simp_all add: no_breakpoint_def)
  have fl: "in_flash (hd chips) 0x08000010 2" by (simp add: in_flash_def v003)
  have "insertable 0x08000010 2 ?c1"
    using fl by (simp add: insertable_def c0 list_all_iff overlaps_def u)
  then have ord: "orderly one_payload ?c1" by (simp add: orderly_def one_received)
  have len: "length F = 0x4000" using bench_facts(8) [OF assms] by (simp add: v003)
  have r: "sim_flash.flash_ready (hd chips) F (g_sess ?c1)" using assms c0(5) by (simp add: bench_def)
  have i: "first_slot (\<lambda>b. \<not> bp_used b) (g_bps ?c1) = Some 0" "length (bp_original (g_bps ?c1 ! 0)) = 4"
    unfolding bps by (simp_all add: u)
  have a: "FB_V + of_nat 0x10 = (0x08000010 :: u32)" by (simp add: FB_V_def)
  obtain s' b where ins: "gdb_breakpoint_insert 0x08000010 2 ?c1 = Some (Inr True, ?c1\<lparr>g_sess := s', g_bps := (g_bps ?c1)[0 := b]\<rparr>)"
    "bp_used b" "bp_address b = 0x08000010" "bp_kind b = 2"
    using sim_flash.insert_flash_ok [OF r _ _ _ _ i, of 2 "0x10"] len c0(6) unfolding a by auto
  let ?c2 = "?c1\<lparr>g_sess := s', g_bps := (g_bps ?c1)[0 := b]\<rparr>"
  let ?c3 = "?c2\<lparr>g_in := [], g_out := ''+'' @ framed ''OK''\<rparr>"
  have "gdb_send_text ''OK'' ?c2 = Some (Inr (), ?c3)"
    by (subst send_acked(1) [of _ "[]"]) (simp_all add: c0)
  then have "gdb_handle_packet one_payload ?c1 = Some (Inr True, ?c3)"
    using ins(1) one_received by (simp add: gdb_handle_packet_def Let_def breakpoint_packet_request andThen_def)
  with turn.turn [OF c0(4) recv one_payload_def ord] have "turn (one_stack, ?c0) (one_payload, ?c3)" by blast
  moreover have "g_bps ?c3 = b # replicate 7 no_breakpoint" using bps by simp
  ultimately show ?thesis using ins(2-4) by (intro exI [of _ ?c3]) simp
qed

theorem session_shows_traps_witness:
  "\<exists>s cn. gdb_prepare (hd chips) (sim_session (v003_sim\<lparr>s_flash := replicate 0x4000 0x13\<rparr>)) = Some (Inr (), s) \<and>
     turn (one_stack, connected s (hd chips) one_request) (one_payload, cn) \<and>
     s_flash (world (g_sess cn)) ! 0x10 = 0x02 \<and> s_flash (world (g_sess cn)) ! 0x20 = 0x13"
proof -
  let ?F = "replicate 0x4000 0x13 :: u8 list"
  have F: "length ?F = unat (flash_size (hd chips))" by (simp add: v003)
  obtain s where s: "gdb_prepare (hd chips) (sim_session (v003_sim\<lparr>s_flash := ?F\<rparr>)) = Some (Inr (), s)" "bench (hd chips) ?F s"
    by (rule new_bench [OF v003(1,2) v003_new F])
  obtain cn b where cn: "turn (one_stack, connected s (hd chips) one_request) (one_payload, cn)"
    "g_bps cn = b # replicate 7 no_breakpoint" "bp_used b" "bp_address b = 0x08000010" "bp_kind b = 2"
    using one_turn [OF s(2)] by blast
  from session_shows_traps [OF v003(1,2) v003_new F, of one_stack one_request] s(1) cn(1)
  have f: "s_flash (world (g_sess cn)) = with_traps (g_bps cn) ?F" by auto
  have "trapped (replicate 7 no_breakpoint) i v = v" for i v
    by (rule trapped_outside) (simp add: covers_def no_breakpoint_def)
  then have "s_flash (world (g_sess cn)) ! 0x10 = 0x02" "s_flash (world (g_sess cn)) ! 0x20 = 0x13"
    unfolding f cn(2) using cn(3-5)
    by (simp_all add: nth_with_traps covers_def spot_def replacement_def)
  with s(1) cn(1) show ?thesis by blast
qed

definition one_env :: gdb_env where
  "one_env = \<lparr>ge_listens = True, ge_client = Some one_request, ge_stack = one_stack\<rparr>"

theorem session_restores_flash_witness:
  "\<exists>out s'. andDo (gdb_prepare (hd chips)) (gdb_accept one_env (hd chips))
       (sim_session (v003_sim\<lparr>s_flash := replicate 0x4000 0x13\<rparr>)) = Some (Inr out, s') \<and>
     s_flash (world s') = replicate 0x4000 0x13"
proof -
  let ?F = "replicate 0x4000 0x13 :: u8 list"
  have F: "length ?F = unat (flash_size (hd chips))" by (simp add: v003)
  obtain s where s: "gdb_prepare (hd chips) (sim_session (v003_sim\<lparr>s_flash := ?F\<rparr>)) = Some (Inr (), s)" "bench (hd chips) ?F s"
    by (rule new_bench [OF v003(1,2) v003_new F])
  obtain cn where cn: "turn (one_stack, connected s (hd chips) one_request) (one_payload, cn)" "g_in cn = []"
    using one_turn [OF s(2)] by blast
  have "receive [] GDB_PACKET_MAX = (None, [], [])" by (simp add: receive_def skip_to_start.simps)
  then have "gone cn" using cn(2) by (simp add: gone_def)
  then show ?thesis
    using session_restores_flash [OF v003(1,2) v003_new F, of one_env one_request] s(1) cn(1)
    by (simp add: one_env_def) blast
qed

end
