(* ===== verification/GdbAck.thy ===== *)
theory GdbAck
  imports GdbTarget "HOL-Library.Stream"
begin

text \<open>
  The loop of \<^verbatim>\<open>gdb_send_packet\<close> that waits for the acknowledgement, on a peer that may go on for
  ever.  \<open>await_ack\<close> and the rest of the server model take what a peer sends as a finite list, after
  which the connection is closed; here it is an infinite stream, and the loop may not return.
\<close>

section \<open>The loop over a stream\<close>

text \<open>\<open>None\<close> means that the loop never ends; every turn takes one event from the socket.\<close>

partial_function (option) ack_loop ::
  "string \<Rightarrow> recv_event stream \<Rightarrow> send_event list
     \<Rightarrow> (bool \<times> string \<times> recv_event stream \<times> send_event list) option" where
  "ack_loop frame es ss =
     (case shd es of
        Interrupted \<Rightarrow> ack_loop frame (stl es) ss
      | Broken \<Rightarrow> Some (True, [], stl es, ss)
      | Arrived reply \<Rightarrow>
          if reply = CHR ''+'' then Some (False, [], stl es, ss)
          else if reply = CHR ''-'' then
            (case gdb_send_all ss frame of (ok, sent, ss') \<Rightarrow>
              Option.bind (ack_loop frame (stl es) ss') (\<lambda>(quit, out, rest).
                Some (\<not> ok \<or> quit, sent @ out, rest)))
          else ack_loop frame (stl es) ss)"

text \<open>What ends the loop: an acknowledgement, or a connection that is closed or fails.\<close>

definition ends :: "recv_event \<Rightarrow> bool" where
  "ends e \<longleftrightarrow> e = Arrived (CHR ''+'') \<or> e = Broken"

lemma ack_loop_turns [simp]:
  "ack_loop frame (Interrupted ## es) ss = ack_loop frame es ss"
  "ack_loop frame (Broken ## es) ss = Some (True, [], es, ss)"
  "ack_loop frame (Arrived c ## es) ss =
     (if c = CHR ''+'' then Some (False, [], es, ss)
      else if c = CHR ''-'' then
        (case gdb_send_all ss frame of (ok, sent, ss') \<Rightarrow>
          Option.bind (ack_loop frame es ss') (\<lambda>(quit, out, rest). Some (\<not> ok \<or> quit, sent @ out, rest)))
      else ack_loop frame es ss)"
  by (subst ack_loop.simps, simp)+

lemma ack_loop_reaches: "ends (es !! n) \<Longrightarrow> \<exists>r. ack_loop frame es ss = Some r"
proof (induction n arbitrary: es ss)
  case 0
  then show ?case by (cases es) (auto simp: ends_def)
next
  case (Suc n)
  obtain e rest where es: "es = e ## rest" by (cases es)
  have later: "\<exists>r. ack_loop frame rest t = Some r" for t
    by (rule Suc.IH) (use Suc.prems es in simp)
  show ?case
  proof (cases e)
    case (Arrived c)
    obtain ok sent ss' where a: "gdb_send_all ss frame = (ok, sent, ss')" by (metis surj_pair)
    obtain quit out tl where b: "ack_loop frame rest ss' = Some (quit, out, tl)"
      using later [of ss'] by (metis surj_pair)
    show ?thesis using later [of ss] by (simp add: es Arrived a b ex_bool_eq)
  qed (use later [of ss] es in auto)
qed

lemma ack_loop_found:
  assumes "ack_loop frame es ss = Some r"
  shows "\<exists>n. ends (es !! n)"
proof (rule ack_loop.raw_induct [OF _ assms, where P = "\<lambda>frame es ss r. \<exists>n. ends (es !! n)"])
  fix f :: "string \<Rightarrow> recv_event stream \<Rightarrow> send_event list \<Rightarrow>
     (bool \<times> string \<times> recv_event stream \<times> send_event list) option" and frame es ss r
  assume IH: "\<And>frame es ss r. f frame es ss = Some r \<Longrightarrow> \<exists>n. ends (es !! n)"
    and eq: "(case shd es of
        Interrupted \<Rightarrow> f frame (stl es) ss
      | Broken \<Rightarrow> Some (True, [], stl es, ss)
      | Arrived reply \<Rightarrow>
          if reply = CHR ''+'' then Some (False, [], stl es, ss)
          else if reply = CHR ''-'' then
            (case gdb_send_all ss frame of (ok, sent, ss') \<Rightarrow>
              Option.bind (f frame (stl es) ss') (\<lambda>(quit, out, rest). Some (\<not> ok \<or> quit, sent @ out, rest)))
          else f frame (stl es) ss) = Some r"
  obtain e rest where es: "es = e ## rest" by (cases es)
  show "\<exists>n. ends (es !! n)"
  proof (cases "ends e")
    case True
    then have "ends (es !! 0)" by (simp add: es)
    then show ?thesis by blast
  next
    case False
    have "\<exists>t q. f frame rest t = Some q"
    proof (rule ccontr)
      assume "\<not> ?thesis"
      then have none: "f frame rest t = None" for t by (metis option.exhaust)
      show False using eq False
        by (auto simp: es ends_def none split: recv_event.splits if_splits prod.splits)
    qed
    then obtain n where "ends (rest !! n)" using IH by blast
    then have "ends (es !! Suc n)" by (simp add: es)
    then show ?thesis by blast
  qed
qed

lemma ack_loop_none: "ack_loop frame es ss = None \<longleftrightarrow> (\<forall>n. \<not> ends (es !! n))"
proof
  assume none: "ack_loop frame es ss = None"
  show "\<forall>n. \<not> ends (es !! n)" using ack_loop_reaches [of es _ frame ss] none by fastforce
next
  assume "\<forall>n. \<not> ends (es !! n)"
  then show "ack_loop frame es ss = None" using ack_loop_found [of frame es ss] by (cases "ack_loop frame es ss") auto
qed

section \<open>A peer that sends finitely much\<close>

lemma await_ack_turns:
  "await_ack frame [] ss = (True, [], [], ss)"
  "await_ack frame (Interrupted # es) ss = await_ack frame es ss"
  "await_ack frame (Broken # es) ss = (True, [], es, ss)"
  "await_ack frame (Arrived c # es) ss =
     (if c = CHR ''+'' then (False, [], es, ss)
      else if c = CHR ''-'' then
        (case gdb_send_all ss frame of (ok, sent, ss') \<Rightarrow>
          (case await_ack frame es ss' of (quit, out, rest) \<Rightarrow> (\<not> ok \<or> quit, sent @ out, rest)))
      else await_ack frame es ss)"
  by (subst await_ack.simps, simp add: await_ack.simps [of frame es ss])+

lemma ack_loop_finite:
  "ack_loop frame (es @- sconst Broken) ss =
     (case await_ack frame es ss of (quit, out, rest, ss') \<Rightarrow> Some (quit, out, rest @- sconst Broken, ss'))"
proof (induction es arbitrary: ss)
  case Nil
  have "sconst Broken = Broken ## sconst Broken" by (subst siterate.code) simp
  then have "ack_loop frame (sconst Broken) ss = Some (True, [], sconst Broken, ss)"
    by (metis ack_loop_turns(2))
  then show ?case unfolding shift.simps await_ack_turns prod.case .
next
  case (Cons e es)
  then show ?case by (cases e) (simp_all add: await_ack_turns split: prod.split)
qed

lemma ack_loop_again:
  "ack_loop frame (replicate k (Arrived (CHR ''-'')) @- Arrived (CHR ''+'') ## es) [] =
     Some (False, concat (replicate k frame), es, [])"
  by (induction k) simp_all

text \<open>C19: the loop that waits for the acknowledgement of a packet never returns exactly when the
  peer goes on for ever with neither an acknowledgement nor a closed or failing connection;
  for a peer that sends finitely many bytes it does what the model of the server uses; and a
  peer that refuses a packet any number of times before it accepts it gets it again each
  time.\<close>

theorem ack_loop_ends:
  "(ack_loop frame es ss = None \<longleftrightarrow> (\<forall>n. es !! n \<noteq> Arrived (CHR ''+'') \<and> es !! n \<noteq> Broken)) \<and>
   ack_loop frame (fin @- sconst Broken) ss =
     (case await_ack frame fin ss of (quit, out, rest, ss') \<Rightarrow> Some (quit, out, rest @- sconst Broken, ss')) \<and>
   ack_loop frame (replicate k (Arrived (CHR ''-'')) @- Arrived (CHR ''+'') ## es) [] =
     Some (False, concat (replicate k frame), es, [])"
  by (simp only: ack_loop_none ack_loop_finite ack_loop_again ends_def simp_thms de_Morgan_disj)

theorem ack_loop_ends_witness:
  "ack_loop (framed ''OK'') (sconst (Arrived (CHR ''-''))) [] = None"
  using ack_loop_ends [of "framed ''OK''" "sconst (Arrived (CHR ''-''))" "[]"] by simp

end
