(* ===== verification/Spec2Isabelle.thy ===== *)
theory Spec2Isabelle
  imports EndProps GdbSession GdbAck
begin

text \<open>
  A verification development of \<^verbatim>\<open>wchlink\<close>, the host-side flasher and debugger for WCH RISC-V
  microcontrollers: the command line tool, the request protocol of the WCH-LinkE programmer, the
  RISC-V debug module, the CH32V00x flash sequence, the GDB server, and the simulated programmer of
  the repository's tests.

  \<^bold>\<open>How the program is put together.\<close>  \<^verbatim>\<open>main.c\<close> reads the command line and runs one command.  A command
  opens a programmer (\<^verbatim>\<open>usb_link.c\<close> over \<^verbatim>\<open>usb.c\<close> over libusb), works on the open link and closes it.
  The link (\<^verbatim>\<open>linke.c\<close>) frames requests and classifies replies over the vtable of \<^verbatim>\<open>transport.h\<close>, and
  knows the parts through the table of \<^verbatim>\<open>target.c\<close>.  On it stand the debug module (\<^verbatim>\<open>dm.c\<close>), the flash
  writer of a family (\<^verbatim>\<open>flash_ch32v0.c\<close>), the dispatch and the comparison (\<^verbatim>\<open>flash.c\<close>), and the GDB
  server (\<^verbatim>\<open>gdb_server.c\<close>).  \<^verbatim>\<open>tests/sim_programmer.c\<close> is a programmer with a target behind the same
  vtable: it runs the RISC-V instructions of the program buffer and keeps the flash controller's state.

  \<^bold>\<open>Conventions.\<close>  A function that returns a status is a program of type \<open>('s, 'e, 'a) prog\<close>: a function
  from the state to the error or the result and the next state, or \<open>None\<close> when the call never
  returns.  \<open>andThen\<close>, \<open>attempt\<close>, \<open>ignoring\<close> and \<open>cleanup\<close> are the ways in which the code chains calls
  (\<open>Prelude\<close>).  Machine integers are words of their width; sizes are natural numbers; a pointer that
  may be \<^verbatim>\<open>NULL\<close> is an option.  The transport is a parameter kept in the link, what lies behind it is
  the \<open>world\<close>; libusb, the debugger's socket, files, signals and output are parameters as well.

  \<^bold>\<open>The model, by theory.\<close>
  \<^item> \<open>Target\<close>: the 25 rows and the lookups of \<^verbatim>\<open>target.c\<close>.
  \<^item> \<open>Linke\<close>: \<^verbatim>\<open>linke.c\<close>; \<open>Dm\<close>: \<^verbatim>\<open>dm.c\<close>; \<open>FlashCh32v0\<close>: \<^verbatim>\<open>flash_ch32v0.c\<close>; \<open>Flash\<close>: \<^verbatim>\<open>flash.c\<close> and the flash
    and memory entry points of \<^verbatim>\<open>linke.c\<close>.  The state is a session \<open>sess\<close>: the link, the world, and the
    progress calls made so far.
  \<^item> \<open>SimProgrammer\<close>: \<^verbatim>\<open>tests/sim_programmer.c\<close>.
  \<^item> \<open>Usb\<close>: \<^verbatim>\<open>usb.c\<close>; \<open>UsbLink\<close>: \<^verbatim>\<open>usb_link.c\<close>, over the record \<open>libusb\<close> of the library's calls.
  \<^item> \<open>GdbText\<close>, \<open>GdbTarget\<close>, \<open>GdbMonitor\<close>, \<open>GdbPacket\<close>, \<open>GdbRun\<close>: \<^verbatim>\<open>gdb_server.c\<close>, from hexadecimal text and
    framing to the session with a client; the state is the connection \<open>gdb_conn\<close>.  \<open>GdbAck\<close> has the wait for
    an acknowledgement again, for a peer that may go on for ever.
  \<^item> \<open>Log\<close>: \<^verbatim>\<open>log.c\<close>; \<open>Cli\<close>, \<open>CliCommands\<close>, \<open>CliMain\<close>: \<^verbatim>\<open>main.c\<close>; the state is the process \<open>host\<close>.

  \<^bold>\<open>The interfaces.\<close>  \<open>linke_programmer\<close> (in \<open>Linke\<close>) is what the request layer relies on in a programmer;
  \<open>debug_target\<close> (in \<open>Dm\<close>) extends it by memory that can be loaded and stored, \<open>flash_controller\<close> (in
  \<open>FlashSpec\<close>) by the behaviour of a CH32V00x flash controller, stated as a small abstract machine.
  The layers are proved correct inside these locales, once, and \<open>SimContracts\<close> interprets all three on
  the simulated programmer.  \<open>alike\<close> (in \<open>Alike\<close>) relates two transports that answer alike; \<open>UsbSim\<close>
  interprets it on the USB transport and the simulator's.

  \<^bold>\<open>What a memory access touches.\<close>  \<open>observed\<close> (in \<open>SimContracts\<close>) is the simulated target as its software and
  its flash controller see it: both memories, the controller, \<open>dpc\<close>, \<open>dcsr\<close>, the number of resets.  It
  leaves out the link's side (interface setting, attached or not), the debug module and the core
  registers.  Every access to memory runs a short program on the core with its operands in x8 and x9,
  so it does overwrite these two registers, the program buffer and registers of the debug module;
  \<open>accessed\<close> (in \<open>SimRegs\<close>) says that nothing else of the simulator changes, and the properties of block
  reads, verification and memory packets are stated with it.

  \<^bold>\<open>What is proved.\<close>
  \<^item> \<open>FlashProps\<close>: the flash command leaves exactly the image at its address and the old bytes elsewhere,
    for every image, address and old content; verification decides; progress is reported; the range check
    for lengths of 64 bits, in which the code adds.
  \<^item> \<open>EndProps\<close> (with \<open>SimRuns\<close>, \<open>UsbSim\<close>, \<open>EndToEnd\<close>): the same from the command line of \<^verbatim>\<open>main\<close> over
    libusb; flashing and then reading gives the file back; over USB every function of the link, debug
    and flash layers refines what it does on the simulator.
  \<^item> \<open>LinkProps\<close>: replies, registers, memory, detection, reset, and that everything returns on every
    transport.  \<open>Flash\<close> has the last for the flash command, \<open>Target\<close> the properties of the lookups.
  \<^item> \<open>GdbText\<close>, \<open>GdbInv\<close>, \<open>GdbProps\<close>, \<open>GdbWire\<close>: framing, the invariant of the connection and termination
    for every packet, breakpoints in flash, and whole packets on the wire.
  \<^item> \<open>GdbSession\<close> (with \<open>GdbBench\<close>, \<open>GdbTraps\<close>): whole sessions on the simulator, as a step relation \<open>turn\<close>
    of one packet received and handled.  The invariant \<open>tidy\<close> says that the flash shows the traps of
    the breakpoint table and nothing else; a session ends with the flash as it was found.  The packets
    are those of \<open>orderly\<close>: breakpoints in flash that do not overlap, memory accesses inside flash or RAM,
    writes to RAM only, and no monitor command that reaches memory.
  \<^item> \<open>UsbProps\<close> and \<open>CliHandles\<close>: no path through opening, switching, closing or any command of the tool
    leaks a USB handle; which programmer is used, and which status says what.
  \<^item> \<open>CliProps\<close>: the command line is read back as it is written, the exit statuses, what is refused
    before the bus is touched, the decoding of the terminal; \<open>CliRuns\<close> has runs of \<^verbatim>\<open>main\<close>.

  \<^bold>\<open>Loops and bounds.\<close>  The polling loops keep the code's bounds (two million polls of the debug module, 200000
  of the flash controller); they recurse on that number.  Loops over data recurse on what is left.
  The page loop has a 32-bit counter and can run forever in the last page of the address space, the
  server and the terminal run until their peer stops: these are partial functions, and \<open>None\<close> is a run
  without end.  The page loop is proved to return for every part of the table; every packet but a
  continue is proved to be answered.  That proof is about peers that send finitely many bytes before
  their connection ends: in \<open>gdb_conn\<close> what a peer sends is a finite list, after which \<^verbatim>\<open>recv\<close> reports the
  end.  The loop that waits for an acknowledgement has no bound of its own; \<open>ack_loop\<close> in \<open>GdbAck\<close> is that
  loop over an infinite stream, with a proof of when exactly it does not end.  The simulator's program buffer has its own limit of steps.

  \<^bold>\<open>What is assumed.\<close>  Nothing is assumed of libusb except where a theorem says so: \<open>counts_handles\<close>
  (opening and closing count handles), \<open>devices_fixed\<close> (a handle belongs to the device it was opened on,
  and a device keeps its descriptor, strings and place on the bus), \<open>carries_packets\<close> and \<open>one_on_bus\<close> (bulk
  transfers deliver, one programmer is attached).  Each has an instance, so it can hold.

  \<^bold>\<open>Not modelled.\<close>  Text that \<^verbatim>\<open>linke.c\<close>, \<^verbatim>\<open>dm.c\<close>, \<^verbatim>\<open>usb_link.c\<close> and \<^verbatim>\<open>gdb_server.c\<close> write to stderr (that of
  \<^verbatim>\<open>main.c\<close> is modelled); sleeping; failing \<^verbatim>\<open>malloc\<close> and \<^verbatim>\<open>calloc\<close>; the socket calls of \<^verbatim>\<open>gdb_listen\<close>,
  which are the environment's part of \<open>gdb_env\<close>; the test drivers of \<^verbatim>\<open>tests/\<close>, whose runs are instances
  of the theorems; the build files and the udev rule, which hold no code of the program.
\<close>

end
